(* ===== verification/Prelude.thy ===== *)
theory Prelude
  imports Main "HOL-Library.Word"
begin

text \<open>
  Shared vocabulary of the development.

  \<^item> Rust's machine integers are words of their width; \<open>usize\<close> values that only count
    bytes of a buffer in memory are \<open>nat\<close>.
  \<^item> \<open>Result<T, E>\<close> is \<open>'e + 'a\<close> (\<open>Inl\<close> is \<open>Err\<close>); the \<open>?\<close> operator is \<open>rbind\<close>,
    \<open>ok_or\<close> and \<open>map_err\<close> have their own names and \<open>collect::<Result<Vec<_>, _>>\<close> is
    \<open>collect\<close>.
  \<^item> Little-endian integers (\<open>from_le_bytes\<close>, \<open>to_le_bytes\<close>) are \<open>le_to_nat\<close> and
    \<open>nat_to_le\<close> with their round trips.
  \<^item> Locales state the interfaces that several components share: a reader of fixed
    width over a byte cursor, a message codec, a machine with an invariant and a machine
    that only grows.
\<close>

named_theorems result_simps \<open>rewriting of results: bind, error mapping, collecting\<close>
named_theorems reader_simps \<open>evaluation of the cursor readers\<close>
named_theorems proto_simps \<open>conversions between wire messages and internal types\<close>

type_synonym byte = "8 word"
type_synonym bytes = "8 word list"
type_synonym u16 = "16 word"
type_synonym u32 = "32 word"
type_synonym u64 = "64 word"

section \<open>Results\<close>

primrec rbind :: "'e + 'a \<Rightarrow> ('a \<Rightarrow> 'e + 'b) \<Rightarrow> 'e + 'b" where
  "rbind (Inl e) f = Inl e"
| "rbind (Inr x) f = f x"

primrec map_err :: "('e \<Rightarrow> 'f) \<Rightarrow> 'e + 'a \<Rightarrow> 'f + 'a" where
  "map_err g (Inl e) = Inl (g e)"
| "map_err g (Inr x) = Inr x"

definition ok_or :: "'e \<Rightarrow> 'a option \<Rightarrow> 'e + 'a" where
  "ok_or e m = (case m of None \<Rightarrow> Inl e | Some x \<Rightarrow> Inr x)"

definition result_ok :: "'e + 'a \<Rightarrow> 'a option" where
  "result_ok r = (case r of Inl _ \<Rightarrow> None | Inr x \<Rightarrow> Some x)"

fun collect :: "('a \<Rightarrow> 'e + 'b) \<Rightarrow> 'a list \<Rightarrow> 'e + 'b list" where
  "collect f [] = Inr []"
| "collect f (x # xs) = rbind (f x) (\<lambda>y. rbind (collect f xs) (\<lambda>ys. Inr (y # ys)))"

lemma rbind_Inr_iff: "rbind r f = Inr y \<longleftrightarrow> (\<exists>x. r = Inr x \<and> f x = Inr y)"
  by (cases r) auto

lemma rbind_Inl_iff: "rbind r f = Inl e \<longleftrightarrow> r = Inl e \<or> (\<exists>x. r = Inr x \<and> f x = Inl e)"
  by (cases r) auto

lemma map_err_Inr_iff: "map_err g r = Inr y \<longleftrightarrow> r = Inr y"
  by (cases r) auto

lemma map_err_Inl_iff: "map_err g r = Inl e \<longleftrightarrow> (\<exists>e'. r = Inl e' \<and> e = g e')"
  by (cases r) auto

lemma ok_or_Inr_iff: "ok_or e m = Inr y \<longleftrightarrow> m = Some y"
  by (cases m) (auto simp: ok_or_def)

lemma ok_or_simps [simp]: "ok_or e None = Inl e" "ok_or e (Some x) = Inr x"
  by (simp_all add: ok_or_def)

lemma result_ok_simps [simp]: "result_ok (Inl e) = None" "result_ok (Inr x) = Some x"
  by (simp_all add: result_ok_def)

lemmas result_iffs [result_simps] =
  rbind_Inr_iff rbind_Inl_iff map_err_Inr_iff map_err_Inl_iff ok_or_Inr_iff

lemma collect_Inr_iff: "collect f xs = Inr ys \<longleftrightarrow> list_all2 (\<lambda>x y. f x = Inr y) xs ys"
  by (induction xs arbitrary: ys) (auto simp: rbind_Inr_iff list_all2_Cons1)

lemma collect_cong: "(\<And>x. x \<in> set xs \<Longrightarrow> f x = g x) \<Longrightarrow> collect f xs = collect g xs"
  by (induction xs) auto

lemma collect_Inr_length: "collect f xs = Inr ys \<Longrightarrow> length ys = length xs"
  by (auto simp: collect_Inr_iff dest: list_all2_lengthD)

lemma collect_Inl: "collect f xs = Inl e \<Longrightarrow> \<exists>x \<in> set xs. f x = Inl e"
  by (induction xs) (auto simp: rbind_Inl_iff)

section \<open>Little-endian integers\<close>

fun le_to_nat :: "bytes \<Rightarrow> nat" where
  "le_to_nat [] = 0"
| "le_to_nat (b # bs) = unat b + 256 * le_to_nat bs"

fun nat_to_le :: "nat \<Rightarrow> nat \<Rightarrow> bytes" where
  "nat_to_le 0 n = []"
| "nat_to_le (Suc k) n = word_of_nat n # nat_to_le k (n div 256)"

lemma length_nat_to_le [simp]: "length (nat_to_le k n) = k"
  by (induction k arbitrary: n) auto

lemma unat_word_lt: "unat (w :: 'a :: len word) < 2 ^ LENGTH('a)"
  by (rule unsigned_less)

lemma unat_byte_lt: "unat (b :: byte) < 256"
  using unat_word_lt [of b] by simp

lemma le_to_nat_bound: "le_to_nat bs < 256 ^ length bs"
proof (induction bs)
  case (Cons b bs)
  from Cons.IH have "le_to_nat bs + 1 \<le> 256 ^ length bs" by simp
  then have "256 * (le_to_nat bs + 1) \<le> 256 * 256 ^ length bs" by (rule mult_le_mono2)
  with unat_byte_lt [of b] show ?case by simp
qed simp

lemma unat_of_nat_byte: "unat (word_of_nat n :: byte) = n mod 256"
  by (simp add: unat_of_nat)

lemma le_to_nat_nat_to_le: "le_to_nat (nat_to_le k n) = n mod 256 ^ k"
proof (induction k arbitrary: n)
  case (Suc k)
  have "n mod (256 * 256 ^ k) = 256 * (n div 256 mod 256 ^ k) + n mod 256"
    by (rule mod_mult2_eq)
  with Suc.IH show ?case by (simp add: unat_of_nat_byte)
qed simp

lemma nat_to_le_le_to_nat: "nat_to_le (length bs) (le_to_nat bs) = bs"
proof (induction bs)
  case (Cons b bs)
  have "unat (word_of_nat (unat b + 256 * le_to_nat bs) :: byte) = unat b"
    using unat_byte_lt [of b] by (simp only: unat_of_nat_byte) simp
  then have "word_of_nat (unat b + 256 * le_to_nat bs) = b"
    by (simp only: word_unat_eq_iff)
  moreover have "(unat b + 256 * le_to_nat bs) div 256 = le_to_nat bs"
    using unat_byte_lt [of b] by simp
  ultimately show ?case using Cons.IH by simp
qed simp

definition u16_from_le :: "bytes \<Rightarrow> u16" where
  "u16_from_le bs = word_of_nat (le_to_nat bs)"

definition u32_from_le :: "bytes \<Rightarrow> u32" where
  "u32_from_le bs = word_of_nat (le_to_nat bs)"

definition u64_from_le :: "bytes \<Rightarrow> u64" where
  "u64_from_le bs = word_of_nat (le_to_nat bs)"

definition u16_to_le :: "u16 \<Rightarrow> bytes" where
  "u16_to_le w = nat_to_le 2 (unat w)"

definition u32_to_le :: "u32 \<Rightarrow> bytes" where
  "u32_to_le w = nat_to_le 4 (unat w)"

definition u64_to_le :: "u64 \<Rightarrow> bytes" where
  "u64_to_le w = nat_to_le 8 (unat w)"

lemma length_to_le [simp]:
  "length (u16_to_le a) = 2" "length (u32_to_le b) = 4" "length (u64_to_le c) = 8"
  by (simp_all add: u16_to_le_def u32_to_le_def u64_to_le_def)

lemma from_le_to_le [simp]:
  "u16_from_le (u16_to_le a) = a" "u32_from_le (u32_to_le b) = b"
  "u64_from_le (u64_to_le c) = c"
  using unat_word_lt [of a] unat_word_lt [of b] unat_word_lt [of c]
  by (simp_all add: u16_from_le_def u32_from_le_def u64_from_le_def u16_to_le_def
      u32_to_le_def u64_to_le_def le_to_nat_nat_to_le)

lemma to_le_u64_from_le: "length bs = 8 \<Longrightarrow> u64_to_le (u64_from_le bs) = bs"
  using le_to_nat_bound [of bs] nat_to_le_le_to_nat [of bs]
  by (simp add: u64_to_le_def u64_from_le_def unat_of_nat)

lemma u64_to_le_inj: "u64_to_le a = u64_to_le b \<longleftrightarrow> a = b"
  by (metis from_le_to_le(3))

section \<open>Slices of a buffer\<close>

definition subslice :: "'a list \<Rightarrow> nat \<Rightarrow> nat \<Rightarrow> 'a list" where
  "subslice xs off n = take n (drop off xs)"

lemma length_subslice: "off + n \<le> length xs \<Longrightarrow> length (subslice xs off n) = n"
  by (simp add: subslice_def)

lemma subslice_append_left: "off + n \<le> length xs \<Longrightarrow> subslice (xs @ ys) off n = subslice xs off n"
  by (simp add: subslice_def)

lemma subslice_append_right:
  "length xs \<le> off \<Longrightarrow> subslice (xs @ ys) off n = subslice ys (off - length xs) n"
  by (simp add: subslice_def)

lemma subslice_zero: "n = length xs \<Longrightarrow> subslice (xs @ ys) 0 n = xs"
  by (simp add: subslice_def)

lemma subslice_whole: "n = length xs \<Longrightarrow> subslice xs 0 n = xs"
  by (simp add: subslice_def)

section \<open>Digests\<close>

text \<open>What the code relies on of a hash function: its output has a fixed size.\<close>

definition digest_size :: "nat \<Rightarrow> (bytes \<Rightarrow> bytes) \<Rightarrow> bool" where
  "digest_size n h \<longleftrightarrow> (\<forall>x. length (h x) = n)"

lemma digest_sizeD: "digest_size n h \<Longrightarrow> length (h x) = n"
  by (simp add: digest_size_def)

lemma digest_size_const: "digest_size n (\<lambda>bs. take n (bs @ replicate n 0))"
  by (auto simp: digest_size_def min_def)

section \<open>Interfaces\<close>

text \<open>
  A reader consumes a fixed number of bytes at a cursor, or fails when too few are left.
  Rust's \<open>&mut usize\<close> cursor is returned beside the value.
\<close>

locale fixed_width_reader =
  fixes rd :: "bytes \<Rightarrow> nat \<Rightarrow> 'e + ('a \<times> nat)"
    and width :: nat
    and decode :: "bytes \<Rightarrow> 'a"
    and short :: 'e
  assumes rd_short: "length data < off + width \<Longrightarrow> rd data off = Inl short"
    and rd_ok: "off + width \<le> length data \<Longrightarrow>
      rd data off = Inr (decode (subslice data off width), off + width)"
begin

lemma rd_Inr_iff:
  "rd data off = Inr (v, off') \<longleftrightarrow>
     off + width \<le> length data \<and> v = decode (subslice data off width) \<and> off' = off + width"
proof (cases "off + width \<le> length data")
  case True
  then show ?thesis by (auto simp: rd_ok)
next
  case False
  then show ?thesis using rd_short [of data off] by simp
qed

lemma rd_append: "rd data off = Inr r \<Longrightarrow> rd (data @ extra) off = Inr r"
  by (cases r) (auto simp: rd_Inr_iff subslice_append_left)

lemma rd_total: "\<exists>v. rd data off = Inr (v, off + width) \<or> rd data off = Inl short"
  by (cases "off + width \<le> length data") (auto simp: rd_ok rd_short)

end

text \<open>
  A message codec: \<open>enc\<close> is the infallible \<open>From\<close> conversion to the wire, \<open>dec\<close> the
  \<open>TryFrom\<close> conversion back, \<open>wf\<close> the values whose textual parts survive printing.
\<close>

locale codec =
  fixes enc :: "'a \<Rightarrow> 'b"
    and dec :: "'b \<Rightarrow> 'e + 'a"
    and wf :: "'a \<Rightarrow> bool"
  assumes dec_enc: "wf x \<Longrightarrow> dec (enc x) = Inr x"
begin

lemma collect_enc: "list_all wf xs \<Longrightarrow> collect dec (map enc xs) = Inr xs"
  by (induction xs) (simp_all add: dec_enc)

lemma enc_inj_on: "inj_on enc {x. wf x}"
  by (rule inj_onI) (metis dec_enc mem_Collect_eq Inr_inject)

end

text \<open>A machine whose operations keep an invariant keeps it over every run.\<close>

locale invariant_machine =
  fixes step :: "'s \<Rightarrow> 'o \<Rightarrow> 's"
    and inv :: "'s \<Rightarrow> bool"
  assumes step_inv: "inv s \<Longrightarrow> inv (step s x)"
begin

lemma run_inv: "inv s \<Longrightarrow> inv (foldl step s ops)"
  by (induction ops arbitrary: s) (simp_all add: step_inv)

end

text \<open>A machine whose operations move up a preorder: every run moves up.\<close>

locale monotone_machine =
  fixes step :: "'s \<Rightarrow> 'o \<Rightarrow> 's"
    and le :: "'s \<Rightarrow> 's \<Rightarrow> bool"
  assumes le_refl: "le s s"
    and le_trans: "le s t \<Longrightarrow> le t u \<Longrightarrow> le s u"
    and step_le: "le s (step s x)"
begin

lemma above_step: "le s0 s \<Longrightarrow> le s0 (step s x)"
  using le_trans step_le by blast

end

sublocale monotone_machine \<subseteq> above: invariant_machine step "le s0" for s0
  by unfold_locales (rule above_step)

context monotone_machine
begin

lemma run_le: "le s (foldl step s ops)"
  using le_refl above.run_inv by blast

lemma run_prefix_le: "le (foldl step s ops) (foldl step s (ops @ ops'))"
  by (simp add: run_le)

end

end
