(* ===== verification/Interface_Types.thy ===== *)
theory Interface_Types
  imports Prelude "HOL-Library.Char_ord" "HOL-Library.List_Lexorder"
    "HOL-Library.Product_Lexorder" "HOL-Library.Multiset"
begin

text \<open>
  The types shared by the daemon and the enclave (\<open>src/node/interface/src/types\<close>:
  \<open>secrets.rs\<close>, \<open>attestation.rs\<close>, \<open>policy.rs\<close>, \<open>error.rs\<close>) and their conversions to and
  from the protobuf messages of \<open>proto/interface.proto\<close>.

  A URL is its serialisation; an \<open>Address\<close> and a \<open>B256\<close> are byte lists (20 and 32 bytes), a
  \<open>U256\<close> is a 256-bit word. Parsing and printing of these third-party types are the fields
  of \<open>text_ext\<close>; the well-formedness predicates say which values survive printing. A
  borrowed conversion (\<open>From<&T>\<close>) has the body of the owned one and shares its definition.
\<close>

section \<open>Conversion errors and third-party text formats\<close>

datatype conversion_error =
    MissingField string
  | InvalidValue string string
  | Json string
  | Base64 string
  | InvalidDssePayloadType string string
  | InvalidSliceLength string nat nat

record text_ext =
  url_parse :: "string \<Rightarrow> string + string"
  address_parse :: "string \<Rightarrow> string + bytes"
  address_fmt :: "bytes \<Rightarrow> string"
  u256_parse :: "string \<Rightarrow> string + 256 word"
  u256_fmt :: "256 word \<Rightarrow> string"
  b256_parse :: "string \<Rightarrow> string + bytes"
  b256_fmt :: "bytes \<Rightarrow> string"

section \<open>Chains and secrets\<close>

datatype chain_identifier =
    ChainId u64
  | GatewayUrl string
  | GatewayUrls "string list"

fun chain_id :: "chain_identifier \<Rightarrow> u64 option" where
  "chain_id (ChainId i) = Some i"
| "chain_id (GatewayUrl _) = None"
| "chain_id (GatewayUrls _) = None"

fun gateway_urls :: "chain_identifier \<Rightarrow> string list option" where
  "gateway_urls (ChainId _) = None"
| "gateway_urls (GatewayUrl u) = Some [u]"
| "gateway_urls (GatewayUrls us) = Some us"

definition gateway_url :: "chain_identifier \<Rightarrow> string option" where
  "gateway_url c = (case gateway_urls c of
      None \<Rightarrow> None
    | Some us \<Rightarrow> (case us of [] \<Rightarrow> None | u # _ \<Rightarrow> Some u))"

datatype proto_chain_oneof = PChainId u64 | PGatewayUrl string

record proto_chain =
  pc_identifier :: "proto_chain_oneof option"
  pc_gateway_urls :: "string list"

fun chain_to_proto :: "chain_identifier \<Rightarrow> proto_chain" where
  "chain_to_proto (ChainId i) = \<lparr>pc_identifier = Some (PChainId i), pc_gateway_urls = []\<rparr>"
| "chain_to_proto (GatewayUrl u) = \<lparr>pc_identifier = Some (PGatewayUrl u), pc_gateway_urls = []\<rparr>"
| "chain_to_proto (GatewayUrls us) = \<lparr>pc_identifier = None, pc_gateway_urls = us\<rparr>"

definition chain_of_proto :: "text_ext \<Rightarrow> proto_chain \<Rightarrow> conversion_error + chain_identifier" where
  "chain_of_proto ext p =
    (if pc_gateway_urls p \<noteq> [] then
       rbind (collect (\<lambda>u. map_err (InvalidValue ''gateway_urls'') (url_parse ext u))
                (pc_gateway_urls p))
         (\<lambda>us. Inr (GatewayUrls us))
     else case pc_identifier p of
       Some (PChainId i) \<Rightarrow> Inr (ChainId i)
     | Some (PGatewayUrl u) \<Rightarrow>
         rbind (map_err (InvalidValue ''gateway_url'') (url_parse ext u)) (\<lambda>v. Inr (GatewayUrl v))
     | None \<Rightarrow> Inl (MissingField ''identifier''))"

fun chain_wf :: "text_ext \<Rightarrow> chain_identifier \<Rightarrow> bool" where
  "chain_wf ext (ChainId _) = True"
| "chain_wf ext (GatewayUrl u) = (url_parse ext u = Inr u)"
| "chain_wf ext (GatewayUrls us) = (us \<noteq> [] \<and> list_all (\<lambda>u. url_parse ext u = Inr u) us)"

datatype secret_id = SecretId
  (sid_chain: chain_identifier) (identity_address: bytes) (identity_id: "256 word")

record proto_secret_id =
  ps_chain :: "proto_chain option"
  ps_identity_address :: string
  ps_identity_id :: string

definition secret_id_to_proto :: "text_ext \<Rightarrow> secret_id \<Rightarrow> proto_secret_id" where
  "secret_id_to_proto ext s =
    \<lparr>ps_chain = Some (chain_to_proto (sid_chain s)),
     ps_identity_address = address_fmt ext (identity_address s),
     ps_identity_id = u256_fmt ext (identity_id s)\<rparr>"

definition secret_id_of_proto :: "text_ext \<Rightarrow> proto_secret_id \<Rightarrow> conversion_error + secret_id" where
  "secret_id_of_proto ext p =
    rbind (ok_or (MissingField ''chain'') (ps_chain p)) (\<lambda>pc.
    rbind (chain_of_proto ext pc) (\<lambda>c.
    rbind (map_err (InvalidValue ''identity_address'')
             (address_parse ext (ps_identity_address p))) (\<lambda>a.
    rbind (map_err (InvalidValue ''identity_id'') (u256_parse ext (ps_identity_id p))) (\<lambda>i.
    Inr (SecretId c a i)))))"

definition secret_id_wf :: "text_ext \<Rightarrow> secret_id \<Rightarrow> bool" where
  "secret_id_wf ext s \<longleftrightarrow> chain_wf ext (sid_chain s)
     \<and> address_parse ext (address_fmt ext (identity_address s)) = Inr (identity_address s)
     \<and> u256_parse ext (u256_fmt ext (identity_id s)) = Inr (identity_id s)"

datatype consumer_info = ConsumerInfo (bundle_hash: bytes) (ci_signature: bytes)

record proto_consumer =
  pci_bundle_hash :: bytes
  pci_signature :: bytes

definition consumer_of_proto :: "proto_consumer \<Rightarrow> consumer_info" where
  "consumer_of_proto p = ConsumerInfo (pci_bundle_hash p) (pci_signature p)"

definition consumer_to_proto :: "consumer_info \<Rightarrow> proto_consumer" where
  "consumer_to_proto c = \<lparr>pci_bundle_hash = bundle_hash c, pci_signature = ci_signature c\<rparr>"

record secret_request =
  sr_secret_id :: secret_id
  sr_consumer :: consumer_info

record proto_secret_request =
  psr_secret_id :: "proto_secret_id option"
  psr_consumer :: "proto_consumer option"

definition secret_request_of_proto ::
  "text_ext \<Rightarrow> proto_secret_request \<Rightarrow> conversion_error + secret_request" where
  "secret_request_of_proto ext p =
    rbind (ok_or (MissingField ''secret_id'') (psr_secret_id p)) (\<lambda>ps.
    rbind (secret_id_of_proto ext ps) (\<lambda>s.
    rbind (ok_or (MissingField ''consumer'') (map_option consumer_of_proto (psr_consumer p)))
      (\<lambda>c. Inr \<lparr>sr_secret_id = s, sr_consumer = c\<rparr>)))"

definition secret_request_to_proto :: "text_ext \<Rightarrow> secret_request \<Rightarrow> proto_secret_request" where
  "secret_request_to_proto ext r =
    \<lparr>psr_secret_id = Some (secret_id_to_proto ext (sr_secret_id r)),
     psr_consumer = Some (consumer_to_proto (sr_consumer r))\<rparr>"

record secrets_box =
  encrypted_payload :: bytes
  sender_public_key :: bytes
  box_alg :: string
  contained_secret_ids :: "secret_id list"

definition secrets_box_new_empty :: secrets_box where
  "secrets_box_new_empty =
    \<lparr>encrypted_payload = [], sender_public_key = [],
     box_alg = ''X25519_AES-GCM-SIV_Ed25519'', contained_secret_ids = []\<rparr>"

record proto_secrets_box =
  psb_encrypted_payload :: bytes
  psb_sender_public_key :: bytes
  psb_alg :: string
  psb_contained_secret_ids :: "proto_secret_id list"

definition secrets_box_of_proto ::
  "text_ext \<Rightarrow> proto_secrets_box \<Rightarrow> conversion_error + secrets_box" where
  "secrets_box_of_proto ext p =
    rbind (collect (secret_id_of_proto ext) (psb_contained_secret_ids p)) (\<lambda>ids.
    Inr \<lparr>encrypted_payload = psb_encrypted_payload p,
         sender_public_key = psb_sender_public_key p,
         box_alg = psb_alg p, contained_secret_ids = ids\<rparr>)"

definition secrets_box_to_proto :: "text_ext \<Rightarrow> secrets_box \<Rightarrow> proto_secrets_box" where
  "secrets_box_to_proto ext b =
    \<lparr>psb_encrypted_payload = encrypted_payload b,
     psb_sender_public_key = sender_public_key b,
     psb_alg = box_alg b,
     psb_contained_secret_ids = map (secret_id_to_proto ext) (contained_secret_ids b)\<rparr>"

subsection \<open>The derived order of chains and secret identifiers\<close>

text \<open>
  \<open>#[derive(Ord)]\<close> compares the variant first and the content next, the fields of a struct
  in their order.
\<close>

fun chain_key :: "chain_identifier \<Rightarrow> nat \<times> u64 \<times> string \<times> string list" where
  "chain_key (ChainId i) = (0, i, [], [])"
| "chain_key (GatewayUrl u) = (1, 0, u, [])"
| "chain_key (GatewayUrls us) = (2, 0, [], us)"

definition secret_key :: "secret_id \<Rightarrow> (nat \<times> u64 \<times> string \<times> string list) \<times> bytes \<times> 256 word" where
  "secret_key s = (chain_key (sid_chain s), identity_address s, identity_id s)"

lemma chain_key_inj: "chain_key a = chain_key b \<Longrightarrow> a = b"
  by (cases a; cases b) auto

lemma secret_key_inj: "secret_key a = secret_key b \<Longrightarrow> a = b"
  by (cases a; cases b) (auto simp: secret_key_def dest: chain_key_inj)

instantiation secret_id :: linorder
begin

definition less_eq_secret_id :: "secret_id \<Rightarrow> secret_id \<Rightarrow> bool" where
  "less_eq_secret_id a b \<longleftrightarrow> secret_key a \<le> secret_key b"

definition less_secret_id :: "secret_id \<Rightarrow> secret_id \<Rightarrow> bool" where
  "less_secret_id a b \<longleftrightarrow> secret_key a < secret_key b"

instance
proof
  fix a b c :: secret_id
  show "a < b \<longleftrightarrow> a \<le> b \<and> \<not> b \<le> a"
    unfolding less_eq_secret_id_def less_secret_id_def by (rule less_le_not_le)
  show "a \<le> a" unfolding less_eq_secret_id_def by (rule order.refl)
  show "a \<le> b \<Longrightarrow> b \<le> c \<Longrightarrow> a \<le> c"
    unfolding less_eq_secret_id_def by (rule order.trans)
  show "a \<le> b \<Longrightarrow> b \<le> a \<Longrightarrow> a = b"
    unfolding less_eq_secret_id_def by (rule secret_key_inj) (rule order.antisym)
  show "a \<le> b \<or> b \<le> a" unfolding less_eq_secret_id_def by (rule linear)
qed

end

definition calculate_binding_hash ::
  "(bytes \<Rightarrow> bytes) \<Rightarrow> (string \<Rightarrow> bytes) \<Rightarrow> (secret_id list \<Rightarrow> bytes) \<Rightarrow> secrets_box \<Rightarrow> bytes" where
  "calculate_binding_hash sha256 utf8 cbor_ids b =
    sha256 (encrypted_payload b @ sender_public_key b @ utf8 (box_alg b)
            @ cbor_ids (sort (contained_secret_ids b)))"

section \<open>Attestation\<close>

datatype measurement = Measurement
  (m_val: bytes) (m_alg: string) (measurement_type: "string option")
  (m_vendor: "string option") (m_version: "string option")

datatype jwk = Jwk (kty: string) (crv: "string option") (jwk_x: "string option") (jwk_y: "string option")

datatype confirmation_method = JwkMethod jwk | CoseKey bytes

datatype measurement_result = MeasurementResult
  (mr_name: string) (mr_result: bool) (mr_reference: "string option")

datatype manifest_ref = ManifestRef (uri: string) (mf_hash: "bytes option")

datatype standardized_claims = StandardizedClaims
  (iat: u64) (eat_nonce: "bytes option")
  (ueid: "bytes option") (sueids: "bytes list option") (oemid: "string option")
  (hwmodel: "string option") (hwversion: "string option")
  (dbgstat: byte) (oemboot: "bool option")
  (swname: "string option") (swversion: "string option") (manifests: "manifest_ref list option")
  (measurements: "measurement list") (measres: "measurement_result list option")
  (submods: "(string \<times> standardized_claims) list option")
  (cnf: "confirmation_method option") (intuse: "byte option")
  (uptime: "u64 option") (bootcount: "u64 option") (bootseed: "bytes option")
  (eat_profile: string) (dloas: "string list option")

datatype verification_result =
    Verified standardized_claims
  | Unsupported
  | Failed string

record raw_attestation =
  platform_type :: string
  evidence :: bytes
  certificates :: "bytes list option"

record attestation_bundle =
  ab_raw :: raw_attestation
  detached_userdata :: bytes

record proto_raw_attestation =
  pra_platform_type :: string
  pra_evidence :: bytes
  pra_certificates :: "bytes list"

record proto_attestation_bundle =
  pab_raw_attestation :: "proto_raw_attestation option"
  pab_detached_userdata :: bytes

definition raw_attestation_of_proto :: "proto_raw_attestation \<Rightarrow> raw_attestation" where
  "raw_attestation_of_proto p =
    \<lparr>platform_type = pra_platform_type p, evidence = pra_evidence p,
     certificates = (if pra_certificates p = [] then None else Some (pra_certificates p))\<rparr>"

definition raw_attestation_to_proto :: "raw_attestation \<Rightarrow> proto_raw_attestation" where
  "raw_attestation_to_proto r =
    \<lparr>pra_platform_type = platform_type r, pra_evidence = evidence r,
     pra_certificates = (case certificates r of None \<Rightarrow> [] | Some cs \<Rightarrow> cs)\<rparr>"

definition attestation_bundle_of_proto :: "proto_attestation_bundle \<Rightarrow> attestation_bundle" where
  "attestation_bundle_of_proto p =
    \<lparr>ab_raw = (case pab_raw_attestation p of
        Some r \<Rightarrow> raw_attestation_of_proto r
      | None \<Rightarrow> \<lparr>platform_type = [], evidence = [], certificates = None\<rparr>),
     detached_userdata = pab_detached_userdata p\<rparr>"

definition attestation_bundle_to_proto :: "attestation_bundle \<Rightarrow> proto_attestation_bundle" where
  "attestation_bundle_to_proto b =
    \<lparr>pab_raw_attestation = Some (raw_attestation_to_proto (ab_raw b)),
     pab_detached_userdata = detached_userdata b\<rparr>"

datatype operator_signature = OperatorSignature (cose_sign1: bytes)

record env_report =
  er_attestation :: attestation_bundle
  er_operator_signature :: "operator_signature option"

record proto_env_report =
  per_attestation :: "proto_attestation_bundle option"
  per_operator_signature :: "bytes option"

definition env_report_of_proto :: "proto_env_report \<Rightarrow> conversion_error + env_report" where
  "env_report_of_proto p =
    rbind (ok_or (MissingField ''attestation'')
             (map_option attestation_bundle_of_proto (per_attestation p))) (\<lambda>a.
    Inr \<lparr>er_attestation = a,
         er_operator_signature = map_option OperatorSignature (per_operator_signature p)\<rparr>)"

definition env_report_to_proto :: "env_report \<Rightarrow> proto_env_report" where
  "env_report_to_proto e =
    \<lparr>per_attestation = Some (attestation_bundle_to_proto (er_attestation e)),
     per_operator_signature = map_option cose_sign1 (er_operator_signature e)\<rparr>"

text \<open>An empty certificate list and an absent one have the same wire form.\<close>

definition raw_attestation_wf :: "raw_attestation \<Rightarrow> bool" where
  "raw_attestation_wf r \<longleftrightarrow> certificates r \<noteq> Some []"

definition env_report_wf :: "env_report \<Rightarrow> bool" where
  "env_report_wf e \<longleftrightarrow> raw_attestation_wf (ab_raw (er_attestation e))"

section \<open>Policies\<close>

record policy_attestation_bundle =
  pol_platform_type :: string
  pol_evidence :: bytes
  pol_user_data :: bytes

record policy_env_report =
  pol_attestation :: policy_attestation_bundle
  pol_operator_signature :: "operator_signature option"

definition from_env_report :: "env_report \<Rightarrow> bytes \<Rightarrow> policy_env_report" where
  "from_env_report e user_provided_data =
    \<lparr>pol_attestation =
       \<lparr>pol_platform_type = platform_type (ab_raw (er_attestation e)),
        pol_evidence = evidence (ab_raw (er_attestation e)),
        pol_user_data = user_provided_data\<rparr>,
     pol_operator_signature = er_operator_signature e\<rparr>"

definition to_env_report :: "policy_env_report \<Rightarrow> env_report" where
  "to_env_report p =
    \<lparr>er_attestation =
       \<lparr>ab_raw = \<lparr>platform_type = pol_platform_type (pol_attestation p),
                  evidence = pol_evidence (pol_attestation p), certificates = None\<rparr>,
        detached_userdata = pol_user_data (pol_attestation p)\<rparr>,
     er_operator_signature = pol_operator_signature p\<rparr>"

record policy_execution_request =
  per_secret_ids :: "secret_id list"
  per_consumer :: consumer_info
  per_env_report :: env_report
  per_claims :: "standardized_claims option"

record policy_execution_context =
  pec_secret_ids :: "secret_id list"
  pec_consumer :: consumer_info
  pec_env_report :: policy_env_report
  pec_claims :: "standardized_claims option"

definition for_policy_worker :: "policy_execution_request \<Rightarrow> bytes \<Rightarrow> policy_execution_context" where
  "for_policy_worker r user_provided_data =
    \<lparr>pec_secret_ids = per_secret_ids r, pec_consumer = per_consumer r,
     pec_env_report = from_env_report (per_env_report r) user_provided_data,
     pec_claims = per_claims r\<rparr>"

record proto_policy_request =
  ppr_secret_ids :: "proto_secret_id list"
  ppr_consumer :: "proto_consumer option"
  ppr_env_report :: "proto_env_report option"

definition policy_request_of_proto ::
  "text_ext \<Rightarrow> proto_policy_request \<Rightarrow> conversion_error + policy_execution_request" where
  "policy_request_of_proto ext p =
    rbind (collect (secret_id_of_proto ext) (ppr_secret_ids p)) (\<lambda>ids.
    rbind (ok_or (MissingField ''consumer'') (map_option consumer_of_proto (ppr_consumer p))) (\<lambda>c.
    rbind (ok_or (MissingField ''env_report'') (ppr_env_report p)) (\<lambda>pe.
    rbind (env_report_of_proto pe) (\<lambda>e.
    Inr \<lparr>per_secret_ids = ids, per_consumer = c, per_env_report = e, per_claims = None\<rparr>))))"

definition policy_request_to_proto ::
  "text_ext \<Rightarrow> policy_execution_request \<Rightarrow> proto_policy_request" where
  "policy_request_to_proto ext r =
    \<lparr>ppr_secret_ids = map (secret_id_to_proto ext) (per_secret_ids r),
     ppr_consumer = Some (consumer_to_proto (per_consumer r)),
     ppr_env_report = Some (env_report_to_proto (per_env_report r))\<rparr>"

record policy_execution_report =
  pr_request :: policy_execution_request
  pr_decision :: bool
  pr_timestamp :: u64

section \<open>Round trips\<close>

lemma collect_id:
  "list_all (\<lambda>u. p u = Inr u) us \<Longrightarrow> collect (\<lambda>u. map_err e (p u)) us = Inr us"
  by (induction us) auto

lemma chain_dec_enc: "chain_wf ext c \<Longrightarrow> chain_of_proto ext (chain_to_proto c) = Inr c"
  by (cases c) (auto simp: chain_of_proto_def collect_id)

interpretation chain_codec: codec chain_to_proto "chain_of_proto ext" "chain_wf ext" for ext
  by unfold_locales (rule chain_dec_enc)

interpretation secret_id_codec:
  codec "secret_id_to_proto ext" "secret_id_of_proto ext" "secret_id_wf ext" for ext
  by unfold_locales
    (auto simp: secret_id_of_proto_def secret_id_to_proto_def secret_id_wf_def chain_codec.dec_enc)

lemma consumer_dec_enc [simp]: "consumer_of_proto (consumer_to_proto c) = c"
  by (simp add: consumer_of_proto_def consumer_to_proto_def)

definition secret_request_wf :: "text_ext \<Rightarrow> secret_request \<Rightarrow> bool" where
  "secret_request_wf ext r \<longleftrightarrow> secret_id_wf ext (sr_secret_id r)"

interpretation secret_request_codec:
  codec "secret_request_to_proto ext" "secret_request_of_proto ext" "secret_request_wf ext" for ext
  by unfold_locales
    (auto simp: secret_request_of_proto_def secret_request_to_proto_def secret_request_wf_def
      secret_id_codec.dec_enc)

definition secrets_box_wf :: "text_ext \<Rightarrow> secrets_box \<Rightarrow> bool" where
  "secrets_box_wf ext b \<longleftrightarrow> list_all (secret_id_wf ext) (contained_secret_ids b)"

interpretation secrets_box_codec:
  codec "secrets_box_to_proto ext" "secrets_box_of_proto ext" "secrets_box_wf ext" for ext
  by unfold_locales
    (auto simp: secrets_box_of_proto_def secrets_box_to_proto_def secrets_box_wf_def
      secret_id_codec.collect_enc)

lemma raw_attestation_dec_enc:
  "raw_attestation_wf r \<Longrightarrow> raw_attestation_of_proto (raw_attestation_to_proto r) = r"
  by (cases "certificates r")
    (auto simp: raw_attestation_of_proto_def raw_attestation_to_proto_def raw_attestation_wf_def)

interpretation env_report_codec: codec env_report_to_proto env_report_of_proto env_report_wf
  by unfold_locales
    (auto simp: env_report_of_proto_def env_report_to_proto_def env_report_wf_def
      attestation_bundle_of_proto_def attestation_bundle_to_proto_def raw_attestation_dec_enc
      option.map_comp comp_def option.map_ident)

text \<open>The attestation claims are not on the wire: a request crosses it without them.\<close>

definition policy_request_wf :: "text_ext \<Rightarrow> policy_execution_request \<Rightarrow> bool" where
  "policy_request_wf ext r \<longleftrightarrow> list_all (secret_id_wf ext) (per_secret_ids r)
     \<and> env_report_wf (per_env_report r) \<and> per_claims r = None"

interpretation policy_request_codec:
  codec "policy_request_to_proto ext" "policy_request_of_proto ext" "policy_request_wf ext" for ext
  by unfold_locales
    (auto simp: policy_request_of_proto_def policy_request_to_proto_def policy_request_wf_def
      secret_id_codec.collect_enc env_report_codec.dec_enc)

section \<open>Properties\<close>

text \<open>Text formats that survive printing, used by the witnesses.\<close>

definition sample_text :: text_ext where
  "sample_text =
    \<lparr>url_parse = (\<lambda>u. if take 4 u = ''http'' then Inr u else Inl ''relative URL without a base''),
     address_parse = (\<lambda>s. Inr (map (\<lambda>c. word_of_nat (of_char c)) s)),
     address_fmt = map (\<lambda>b. char_of (unat b)),
     u256_parse = (\<lambda>s. Inr (word_of_nat (length s))), u256_fmt = (\<lambda>w. replicate (unat w) CHR ''1''),
     b256_parse = (\<lambda>s. Inr (map (\<lambda>c. word_of_nat (of_char c)) s)),
     b256_fmt = map (\<lambda>b. char_of (unat b))\<rparr>"

lemma sample_text_address: "address_parse sample_text (address_fmt sample_text a) = Inr a"
proof -
  have "word_of_nat (of_char (char_of (unat b) :: char)) = b" for b :: byte
    using unat_byte_lt [of b] by (simp only: of_char_of) simp
  then show ?thesis by (simp add: sample_text_def comp_def)
qed

lemma sample_text_u256: "u256_parse sample_text (u256_fmt sample_text w) = Inr w"
  by (simp add: sample_text_def)

lemma sample_id_wf: "secret_id_wf sample_text (SecretId (ChainId 1) a w)"
  by (simp add: secret_id_wf_def sample_text_address sample_text_u256)

text \<open>
  A chain identifier comes back from the wire unchanged exactly when its URLs survive printing and,
  for a list of gateways, the list is not empty; an empty list is sent as a message without any
  identifier, which the receiver rejects.
\<close>

theorem chain_round_trip_iff:
  "(chain_of_proto ext (chain_to_proto c) = Inr c \<longleftrightarrow> chain_wf ext c)
   \<and> chain_of_proto ext (chain_to_proto (GatewayUrls [])) = Inl (MissingField ''identifier'')"
proof -
  have "chain_wf ext c" if "chain_of_proto ext (chain_to_proto c) = Inr c"
    using that
    by (cases c)
      (auto simp: chain_of_proto_def result_simps collect_Inr_iff list_all2_same list_all_iff
        split: if_splits)
  moreover have "chain_of_proto ext (chain_to_proto (GatewayUrls [])) = Inl (MissingField ''identifier'')"
    by (simp add: chain_of_proto_def)
  ultimately show ?thesis using chain_dec_enc by blast
qed

text \<open>
  A box of secrets crosses the wire unchanged, with its payload, sender key, algorithm and the
  identifiers in their order, when the textual parts of the identifiers survive printing.
\<close>

theorem secrets_box_wire_round_trip:
  assumes "list_all (secret_id_wf ext) (contained_secret_ids b)"
  shows "secrets_box_of_proto ext (secrets_box_to_proto ext b) = Inr b"
  using assms secrets_box_codec.dec_enc by (simp add: secrets_box_wf_def)

theorem secrets_box_wire_round_trip_witness:
  "secrets_box_of_proto sample_text (secrets_box_to_proto sample_text
      \<lparr>encrypted_payload = [1], sender_public_key = [2], box_alg = ''a'',
       contained_secret_ids = [SecretId (ChainId 1) [3] 4]\<rparr>)
   = Inr \<lparr>encrypted_payload = [1], sender_public_key = [2], box_alg = ''a'',
       contained_secret_ids = [SecretId (ChainId 1) [3] 4]\<rparr>"
  by (rule secrets_box_wire_round_trip) (simp add: sample_id_wf)

text \<open>
  A policy execution request crosses the wire with everything but its attestation claims: for
  identifiers that survive printing and a report without an empty certificate list, the receiver
  reads the request with the claims absent.
\<close>

theorem policy_request_loses_claims:
  assumes "list_all (secret_id_wf ext) (per_secret_ids r)" "env_report_wf (per_env_report r)"
  shows "policy_request_of_proto ext (policy_request_to_proto ext r) = Inr (r\<lparr>per_claims := None\<rparr>)"
proof -
  have "policy_request_to_proto ext r = policy_request_to_proto ext (r\<lparr>per_claims := None\<rparr>)"
    by (simp add: policy_request_to_proto_def)
  moreover have "policy_request_wf ext (r\<lparr>per_claims := None\<rparr>)"
    using assms by (simp add: policy_request_wf_def)
  ultimately show ?thesis using policy_request_codec.dec_enc by simp
qed

theorem policy_request_loses_claims_witness:
  "let e = \<lparr>er_attestation = \<lparr>ab_raw = \<lparr>platform_type = ''tdx'', evidence = [1], certificates = None\<rparr>,
                detached_userdata = [2]\<rparr>, er_operator_signature = None\<rparr>;
       r = \<lparr>per_secret_ids = [SecretId (ChainId 1) [3] 4], per_consumer = ConsumerInfo [5] [6],
            per_env_report = e, per_claims = None\<rparr>
   in policy_request_of_proto sample_text (policy_request_to_proto sample_text r) = Inr r"
  using policy_request_loses_claims [of sample_text
      "\<lparr>per_secret_ids = [SecretId (ChainId 1) [3] 4], per_consumer = ConsumerInfo [5] [6],
        per_env_report = \<lparr>er_attestation = \<lparr>ab_raw = \<lparr>platform_type = ''tdx'', evidence = [1],
            certificates = None\<rparr>, detached_userdata = [2]\<rparr>, er_operator_signature = None\<rparr>,
        per_claims = None\<rparr>"]
  by (simp add: sample_id_wf env_report_wf_def raw_attestation_wf_def)

text \<open>
  The binding hash of a box does not depend on the order in which its identifiers are listed: two
  boxes with the same payload, sender key, algorithm and multiset of identifiers have the same hash.
\<close>

theorem binding_hash_order_independent:
  assumes "encrypted_payload b = encrypted_payload b'" "sender_public_key b = sender_public_key b'"
    and "box_alg b = box_alg b'" "mset (contained_secret_ids b) = mset (contained_secret_ids b')"
  shows "calculate_binding_hash sha utf8 cbor b = calculate_binding_hash sha utf8 cbor b'"
proof -
  have "sort (contained_secret_ids b) = sort (contained_secret_ids b')"
    using assms(4) by (metis properties_for_sort mset_sort sorted_sort)
  with assms show ?thesis by (simp add: calculate_binding_hash_def)
qed

theorem binding_hash_order_independent_witness:
  "calculate_binding_hash (\<lambda>x. x) (map (\<lambda>c. word_of_nat (of_char c))) (concat \<circ> map identity_address)
      \<lparr>encrypted_payload = [], sender_public_key = [], box_alg = ''a'',
       contained_secret_ids = [SecretId (ChainId 1) [3] 4, SecretId (ChainId 1) [2] 4]\<rparr>
   = calculate_binding_hash (\<lambda>x. x) (map (\<lambda>c. word_of_nat (of_char c))) (concat \<circ> map identity_address)
      \<lparr>encrypted_payload = [], sender_public_key = [], box_alg = ''a'',
       contained_secret_ids = [SecretId (ChainId 1) [2] 4, SecretId (ChainId 1) [3] 4]\<rparr>"
  by (rule binding_hash_order_independent) simp_all

end
