(* ===== verification/Tdx_Quote.thy ===== *)
theory Tdx_Quote
  imports Interface_Types
begin

text \<open>
  The TDX quote parser of \<open>src/node/attestation/src/tdx/parser.rs\<close>: the cursor readers, the
  header, TD report, signature and quote parsers, the structural check and the extraction of
  claims. Fixed-size arrays are lists (the lengths are theorems) and the \<open>&mut usize\<close> cursor is
  returned beside the value. The source's \<open>anyhow!\<close> messages are the constructors of
  \<open>quote_error\<close>. Sums of a cursor and a length stay below \<open>usize::MAX\<close> because the cursor never
  passes the buffer's length and a length field has at most 32 bits.
\<close>

unbundle bit_operations_syntax

datatype quote_error =
    ShortU16
  | ShortU32
  | ShortU64
  | ShortBytes nat
  | ShortHeader
  | ShortReport
  | UnsupportedQuoteVersion u16
  | InvalidTeeType u32
  | TruncatedSignature nat nat
  | SignatureSectionTruncated
  | MrtdAllZeros
  | SignatureLengthMismatch u32 nat

definition TEE_TYPE_TDX :: u32 where "TEE_TYPE_TDX = 0x81"

definition QUOTE_VERSION_4 :: u16 where "QUOTE_VERSION_4 = 4"

section \<open>Data\<close>

record tdx_quote_header =
  hdr_version :: u16
  hdr_att_key_type :: u16
  hdr_tee_type :: u32
  hdr_reserved :: u32
  hdr_vendor_id :: bytes
  hdr_user_data :: bytes

record td_report =
  tcb_svn :: bytes
  mr_seam :: bytes
  mr_signer_seam :: bytes
  seam_attributes :: u64
  td_attributes :: u64
  xfam :: u64
  mrtd :: bytes
  mr_config_id :: bytes
  mr_owner :: bytes
  mr_owner_config :: bytes
  rtmr :: "bytes list"
  report_data :: bytes

record quote_signature =
  ecdsa_signature :: bytes
  ecdsa_public_key :: bytes
  cert_data_type :: u16
  cert_data_size :: u32
  qe_report :: bytes
  qe_signature :: bytes
  qe_auth_data_size :: u16
  qe_auth_data :: bytes
  cert_type :: u16
  cert_size :: u32
  cert_data :: bytes

record tdx_quote =
  q_header :: tdx_quote_header
  q_td_report :: td_report
  q_signature_len :: u32
  q_signature :: "quote_signature option"
  q_raw_signature_data :: bytes

record tdx_attestation_claims =
  tc_mrtd :: bytes
  tc_rtmr0 :: bytes
  tc_rtmr1 :: bytes
  tc_rtmr2 :: bytes
  tc_rtmr3 :: bytes
  tc_mr_config_id :: bytes
  tc_mr_owner :: bytes
  tc_mr_seam :: bytes
  tc_debug_enabled :: bool
  tc_td_attributes :: u64
  tc_seam_attributes :: u64
  tc_tcb_svn :: bytes
  tc_report_data :: bytes
  tc_user_data :: bytes
  tc_ephemeral_key :: "bytes option"
  tc_quote_version :: u16
  tc_tee_type :: u32
  tc_att_key_type :: u16
  tc_has_valid_signature :: bool
  tc_signature_present :: bool
  tc_cert_chain_present :: bool

record parsed_tdx_quote =
  pq_version :: u16
  pq_tee_type :: u32
  pq_mrtd :: bytes
  pq_mrconfigid :: bytes
  pq_mrowner :: bytes
  pq_mrownerconfig :: bytes
  pq_rtmrs :: "string \<rightharpoonup> bytes"
  pq_td_attributes :: bytes
  pq_xfam :: bytes
  pq_cpu_svn :: bytes
  pq_report_data :: bytes
  pq_signature_data :: bytes
  pq_debug_enabled :: bool
  pq_security_version :: u64

section \<open>Readers\<close>

definition parse_u16_le :: "bytes \<Rightarrow> nat \<Rightarrow> quote_error + u16 \<times> nat" where
  "parse_u16_le data off =
    (if length data < off + 2 then Inl ShortU16
     else Inr (u16_from_le [data ! off, data ! (off + 1)], off + 2))"

definition parse_u32_le :: "bytes \<Rightarrow> nat \<Rightarrow> quote_error + u32 \<times> nat" where
  "parse_u32_le data off =
    (if length data < off + 4 then Inl ShortU32
     else Inr (u32_from_le [data ! off, data ! (off + 1), data ! (off + 2), data ! (off + 3)],
               off + 4))"

definition parse_u64_le :: "bytes \<Rightarrow> nat \<Rightarrow> quote_error + u64 \<times> nat" where
  "parse_u64_le data off =
    (if length data < off + 8 then Inl ShortU64
     else Inr (u64_from_le [data ! off, data ! (off + 1), data ! (off + 2), data ! (off + 3),
                 data ! (off + 4), data ! (off + 5), data ! (off + 6), data ! (off + 7)],
               off + 8))"

definition parse_bytes :: "nat \<Rightarrow> bytes \<Rightarrow> nat \<Rightarrow> quote_error + bytes \<times> nat" where
  "parse_bytes n data off =
    (if length data < off + n then Inl (ShortBytes n)
     else Inr (subslice data off n, off + n))"

text \<open>The bounds-checked slices of the signature section (\<open>check_bounds\<close> and the slice after it).\<close>

definition sig_take :: "nat \<Rightarrow> bytes \<Rightarrow> nat \<Rightarrow> quote_error + bytes \<times> nat" where
  "sig_take n sig off =
    (if off + n > length sig then Inl SignatureSectionTruncated
     else Inr (subslice sig off n, off + n))"

section \<open>Parsers\<close>

definition header_parse :: "bytes \<Rightarrow> nat \<Rightarrow> quote_error + tdx_quote_header \<times> nat" where
  "header_parse data off =
    (if length data < off + 48 then Inl ShortHeader else
     rbind (parse_u16_le data off) (\<lambda>(version, off).
     rbind (parse_u16_le data off) (\<lambda>(att_key_type, off).
     rbind (parse_u32_le data off) (\<lambda>(tee_type, off).
     rbind (parse_u32_le data off) (\<lambda>(reserved, off).
     rbind (parse_bytes 16 data off) (\<lambda>(vendor_id, off).
     rbind (parse_bytes 20 data off) (\<lambda>(user_data, off).
     Inr (\<lparr>hdr_version = version, hdr_att_key_type = att_key_type, hdr_tee_type = tee_type,
           hdr_reserved = reserved, hdr_vendor_id = vendor_id, hdr_user_data = user_data\<rparr>,
          off))))))))"

definition header_validate :: "tdx_quote_header \<Rightarrow> quote_error + unit" where
  "header_validate h =
    (if hdr_version h \<noteq> QUOTE_VERSION_4 then Inl (UnsupportedQuoteVersion (hdr_version h))
     else if hdr_tee_type h \<noteq> TEE_TYPE_TDX then Inl (InvalidTeeType (hdr_tee_type h))
     else Inr ())"

fun parse_rtmrs :: "nat \<Rightarrow> bytes \<Rightarrow> nat \<Rightarrow> quote_error + bytes list \<times> nat" where
  "parse_rtmrs 0 data off = Inr ([], off)"
| "parse_rtmrs (Suc k) data off =
     rbind (parse_bytes 48 data off) (\<lambda>(r, off).
     rbind (parse_rtmrs k data off) (\<lambda>(rs, off). Inr (r # rs, off)))"

definition td_report_parse :: "bytes \<Rightarrow> nat \<Rightarrow> quote_error + td_report \<times> nat" where
  "td_report_parse data off =
    (if length data < off + 584 then Inl ShortReport else
     rbind (parse_bytes 16 data off) (\<lambda>(v_tcb_svn, off).
     rbind (parse_bytes 48 data off) (\<lambda>(v_mr_seam, off).
     rbind (parse_bytes 48 data off) (\<lambda>(v_mr_signer_seam, off).
     rbind (parse_u64_le data off) (\<lambda>(v_seam_attributes, off).
     rbind (parse_u64_le data off) (\<lambda>(v_td_attributes, off).
     rbind (parse_u64_le data off) (\<lambda>(v_xfam, off).
     rbind (parse_bytes 48 data off) (\<lambda>(v_mrtd, off).
     rbind (parse_bytes 48 data off) (\<lambda>(v_mr_config_id, off).
     rbind (parse_bytes 48 data off) (\<lambda>(v_mr_owner, off).
     rbind (parse_bytes 48 data off) (\<lambda>(v_mr_owner_config, off).
     rbind (parse_rtmrs 4 data off) (\<lambda>(v_rtmr, off).
     rbind (parse_bytes 64 data off) (\<lambda>(v_report_data, off).
     Inr (\<lparr>tcb_svn = v_tcb_svn, mr_seam = v_mr_seam, mr_signer_seam = v_mr_signer_seam,
           seam_attributes = v_seam_attributes, td_attributes = v_td_attributes, xfam = v_xfam,
           mrtd = v_mrtd, mr_config_id = v_mr_config_id, mr_owner = v_mr_owner,
           mr_owner_config = v_mr_owner_config, rtmr = v_rtmr, report_data = v_report_data\<rparr>,
          off))))))))))))))"

definition quote_signature_parse :: "bytes \<Rightarrow> quote_error + quote_signature" where
  "quote_signature_parse sig =
     rbind (sig_take 64 sig 0) (\<lambda>(v_ecdsa_signature, off).
     rbind (sig_take 64 sig off) (\<lambda>(v_ecdsa_public_key, off).
     rbind (sig_take 2 sig off) (\<lambda>(cdt, off).
     rbind (sig_take 4 sig off) (\<lambda>(cds, off).
     rbind (sig_take 384 sig off) (\<lambda>(v_qe_report, off).
     rbind (sig_take 64 sig off) (\<lambda>(v_qe_signature, off).
     rbind (sig_take 2 sig off) (\<lambda>(qas, off).
     rbind (sig_take (unat (u16_from_le qas)) sig off) (\<lambda>(v_qe_auth_data, off).
     rbind
       (if off + 6 \<le> length sig then
          let ct = u16_from_le (subslice sig off 2); off = off + 2;
              cs = u32_from_le (subslice sig off 4); off = off + 4
          in rbind (sig_take (unat cs) sig off) (\<lambda>(cd, off). Inr (ct, cs, cd))
        else Inr (0, 0, []))
       (\<lambda>(v_cert_type, v_cert_size, v_cert_data).
     Inr \<lparr>ecdsa_signature = v_ecdsa_signature, ecdsa_public_key = v_ecdsa_public_key,
          cert_data_type = u16_from_le cdt, cert_data_size = u32_from_le cds,
          qe_report = v_qe_report, qe_signature = v_qe_signature,
          qe_auth_data_size = u16_from_le qas, qe_auth_data = v_qe_auth_data,
          cert_type = v_cert_type, cert_size = v_cert_size, cert_data = v_cert_data\<rparr>)))))))))"

definition tdx_quote_parse :: "bytes \<Rightarrow> quote_error + tdx_quote" where
  "tdx_quote_parse quote_bytes =
     rbind (header_parse quote_bytes 0) (\<lambda>(header, off).
     rbind (header_validate header) (\<lambda>_.
     rbind (td_report_parse quote_bytes off) (\<lambda>(rep, off).
     rbind (parse_u32_le quote_bytes off) (\<lambda>(siglen, off).
     if length quote_bytes < off + unat siglen
     then Inl (TruncatedSignature (unat siglen) (length quote_bytes - off))
     else let raw = subslice quote_bytes off (unat siglen) in
       Inr \<lparr>q_header = header, q_td_report = rep, q_signature_len = siglen,
            q_signature = (if length raw \<ge> 134 then result_ok (quote_signature_parse raw) else None),
            q_raw_signature_data = raw\<rparr>))))"

definition verify_structure :: "tdx_quote \<Rightarrow> quote_error + unit" where
  "verify_structure q =
     rbind (header_validate (q_header q)) (\<lambda>_.
     if list_all (\<lambda>b. b = 0) (mrtd (q_td_report q)) then Inl MrtdAllZeros
     else if 48 + 584 + 4 + unat (q_signature_len q) \<noteq> 48 + 584 + 4 + length (q_raw_signature_data q)
     then Inl (SignatureLengthMismatch (q_signature_len q) (length (q_raw_signature_data q)))
     else Inr ())"

section \<open>Claims\<close>

definition extract_claims :: "tdx_quote \<Rightarrow> tdx_attestation_claims" where
  "extract_claims q =
    (let r = q_td_report q in
     \<lparr>tc_mrtd = mrtd r, tc_rtmr0 = rtmr r ! 0, tc_rtmr1 = rtmr r ! 1, tc_rtmr2 = rtmr r ! 2,
      tc_rtmr3 = rtmr r ! 3, tc_mr_config_id = mr_config_id r, tc_mr_owner = mr_owner r,
      tc_mr_seam = mr_seam r,
      tc_debug_enabled = ((td_attributes r AND 1) \<noteq> 0),
      tc_td_attributes = td_attributes r, tc_seam_attributes = seam_attributes r,
      tc_tcb_svn = tcb_svn r, tc_report_data = report_data r,
      tc_user_data = hdr_user_data (q_header q),
      tc_ephemeral_key =
        (if list_ex (\<lambda>b. b \<noteq> 0) (take 32 (report_data r)) then Some (take 32 (report_data r))
         else None),
      tc_quote_version = hdr_version (q_header q), tc_tee_type = hdr_tee_type (q_header q),
      tc_att_key_type = hdr_att_key_type (q_header q),
      tc_has_valid_signature = (q_signature q \<noteq> None),
      tc_signature_present = (q_raw_signature_data q \<noteq> []),
      tc_cert_chain_present = (case q_signature q of None \<Rightarrow> False | Some s \<Rightarrow> cert_data s \<noteq> [])\<rparr>)"

definition extract_parsed_quote :: "tdx_quote \<Rightarrow> parsed_tdx_quote" where
  "extract_parsed_quote q =
    (let r = q_td_report q in
     \<lparr>pq_version = hdr_version (q_header q), pq_tee_type = hdr_tee_type (q_header q),
      pq_mrtd = mrtd r, pq_mrconfigid = mr_config_id r, pq_mrowner = mr_owner r,
      pq_mrownerconfig = mr_owner_config r,
      pq_rtmrs = [''rtmr0'' \<mapsto> rtmr r ! 0, ''rtmr1'' \<mapsto> rtmr r ! 1,
                  ''rtmr2'' \<mapsto> rtmr r ! 2, ''rtmr3'' \<mapsto> rtmr r ! 3],
      pq_td_attributes = u64_to_le (td_attributes r), pq_xfam = u64_to_le (xfam r),
      pq_cpu_svn = tcb_svn r, pq_report_data = report_data r,
      pq_signature_data = q_raw_signature_data q,
      pq_debug_enabled = ((td_attributes r AND 1) \<noteq> 0),
      pq_security_version = u64_from_le (take 8 (tcb_svn r))\<rparr>)"

text \<open>
  \<open>extract_standardized_claims\<close> moves seven measurements through a \<open>HashMap\<close>, whose iteration
  order is not specified: \<open>order\<close> is that order. \<open>now\<close> is the clock.
\<close>

definition tdx_measurement_entries :: "td_report \<Rightarrow> (string \<times> bytes) list" where
  "tdx_measurement_entries r =
    [(''rtmr0'', rtmr r ! 0), (''rtmr1'', rtmr r ! 1), (''rtmr2'', rtmr r ! 2),
     (''rtmr3'', rtmr r ! 3), (''mr_config_id'', mr_config_id r), (''mr_owner'', mr_owner r),
     (''mr_seam'', mr_seam r)]"

definition tdx_measurement :: "string \<Rightarrow> bytes \<Rightarrow> measurement" where
  "tdx_measurement k v = Measurement v ''sha-384'' (Some k) (Some ''intel'') None"

definition extract_standardized_claims ::
  "u64 \<Rightarrow> ((string \<times> bytes) list \<Rightarrow> (string \<times> bytes) list) \<Rightarrow> tdx_quote \<Rightarrow> standardized_claims" where
  "extract_standardized_claims now order q =
    (let r = q_td_report q;
         level = (if (td_attributes r AND 1) \<noteq> 0 then (1 :: nat) else 3)
     in StandardizedClaims now (Some (report_data r))
          (Some (take 32 (mrtd r))) None (Some ''intel-tdx'') (Some ''tdx'') (Some ''1.0'')
          (if level = 1 then 4 else 0) (Some True)
          None None None
          (tdx_measurement ''application'' (mrtd r)
             # map (\<lambda>(k, v). tdx_measurement k v) (order (tdx_measurement_entries r)))
          None None None None None None None ''urn:nxcc:profile:tdx-v1'' None)"

section \<open>Readers meet their contract\<close>

lemma subslice_2: "off + 2 \<le> length xs \<Longrightarrow> subslice xs off 2 = [xs ! off, xs ! (off + 1)]"
  by (simp add: subslice_def numeral_2_eq_2 take_Suc_conv_app_nth)

lemma subslice_4:
  "off + 4 \<le> length xs \<Longrightarrow>
     subslice xs off 4 = [xs ! off, xs ! (off + 1), xs ! (off + 2), xs ! (off + 3)]"
  by (simp add: subslice_def eval_nat_numeral take_Suc_conv_app_nth)

lemma subslice_8:
  "off + 8 \<le> length xs \<Longrightarrow>
     subslice xs off 8 = [xs ! off, xs ! (off + 1), xs ! (off + 2), xs ! (off + 3),
       xs ! (off + 4), xs ! (off + 5), xs ! (off + 6), xs ! (off + 7)]"
  by (simp add: subslice_def eval_nat_numeral take_Suc_conv_app_nth)

interpretation r16: fixed_width_reader parse_u16_le 2 u16_from_le ShortU16
  by unfold_locales (auto simp: parse_u16_le_def subslice_2)

interpretation r32: fixed_width_reader parse_u32_le 4 u32_from_le ShortU32
  by unfold_locales (auto simp: parse_u32_le_def subslice_4)

interpretation r64: fixed_width_reader parse_u64_le 8 u64_from_le ShortU64
  by unfold_locales (auto simp: parse_u64_le_def subslice_8)

interpretation rbytes: fixed_width_reader "parse_bytes n" n "\<lambda>bs. bs" "ShortBytes n" for n
  by unfold_locales (auto simp: parse_bytes_def)

interpretation rsig: fixed_width_reader "sig_take n" n "\<lambda>bs. bs" SignatureSectionTruncated for n
  by unfold_locales (auto simp: sig_take_def)

lemmas readers_ok [reader_simps] = r16.rd_ok r32.rd_ok r64.rd_ok rbytes.rd_ok rsig.rd_ok

section \<open>The layout of a quote\<close>

text \<open>
  The reference description of a version 4 quote: every field is the slice of the buffer at
  its offset. The parsers are shown equal to it.
\<close>

definition header_at :: "bytes \<Rightarrow> nat \<Rightarrow> tdx_quote_header" where
  "header_at d o0 =
    \<lparr>hdr_version = u16_from_le (subslice d o0 2),
     hdr_att_key_type = u16_from_le (subslice d (o0 + 2) 2),
     hdr_tee_type = u32_from_le (subslice d (o0 + 4) 4),
     hdr_reserved = u32_from_le (subslice d (o0 + 8) 4),
     hdr_vendor_id = subslice d (o0 + 12) 16,
     hdr_user_data = subslice d (o0 + 28) 20\<rparr>"

definition td_report_at :: "bytes \<Rightarrow> nat \<Rightarrow> td_report" where
  "td_report_at d o0 =
    \<lparr>tcb_svn = subslice d o0 16, mr_seam = subslice d (o0 + 16) 48,
     mr_signer_seam = subslice d (o0 + 64) 48,
     seam_attributes = u64_from_le (subslice d (o0 + 112) 8),
     td_attributes = u64_from_le (subslice d (o0 + 120) 8),
     xfam = u64_from_le (subslice d (o0 + 128) 8),
     mrtd = subslice d (o0 + 136) 48, mr_config_id = subslice d (o0 + 184) 48,
     mr_owner = subslice d (o0 + 232) 48, mr_owner_config = subslice d (o0 + 280) 48,
     rtmr = [subslice d (o0 + 328) 48, subslice d (o0 + 376) 48,
             subslice d (o0 + 424) 48, subslice d (o0 + 472) 48],
     report_data = subslice d (o0 + 520) 64\<rparr>"

definition signature_len_at :: "bytes \<Rightarrow> u32" where
  "signature_len_at d = u32_from_le (subslice d 632 4)"

definition quote_at :: "bytes \<Rightarrow> tdx_quote" where
  "quote_at d =
    (let siglen = signature_len_at d; raw = subslice d 636 (unat siglen) in
     \<lparr>q_header = header_at d 0, q_td_report = td_report_at d 48, q_signature_len = siglen,
      q_signature = (if length raw \<ge> 134 then result_ok (quote_signature_parse raw) else None),
      q_raw_signature_data = raw\<rparr>)"

lemma header_parse_ok:
  "off + 48 \<le> length d \<Longrightarrow> header_parse d off = Inr (header_at d off, off + 48)"
  by (simp add: header_parse_def header_at_def reader_simps add.assoc del: add_2_eq_Suc')

lemma header_parse_short: "length d < off + 48 \<Longrightarrow> header_parse d off = Inl ShortHeader"
  by (simp add: header_parse_def)

lemma parse_rtmrs_ok:
  "off + 192 \<le> length d \<Longrightarrow>
     parse_rtmrs 4 d off =
       Inr ([subslice d off 48, subslice d (off + 48) 48, subslice d (off + 96) 48,
             subslice d (off + 144) 48], off + 192)"
  by (simp add: eval_nat_numeral(2,3) reader_simps add.assoc)

lemma td_report_parse_ok:
  "off + 584 \<le> length d \<Longrightarrow> td_report_parse d off = Inr (td_report_at d off, off + 584)"
  by (simp add: td_report_parse_def td_report_at_def reader_simps parse_rtmrs_ok add.assoc)

lemma td_report_parse_short: "length d < off + 584 \<Longrightarrow> td_report_parse d off = Inl ShortReport"
  by (simp add: td_report_parse_def)

lemma tdx_quote_parse_ok:
  assumes "636 + unat (signature_len_at d) \<le> length d"
    and "header_validate (header_at d 0) = Inr ()"
  shows "tdx_quote_parse d = Inr (quote_at d)"
  using assms
  by (simp add: tdx_quote_parse_def header_parse_ok td_report_parse_ok reader_simps
      signature_len_at_def quote_at_def Let_def)

lemma tdx_quote_parse_cases:
  "tdx_quote_parse d =
    (if length d < 48 then Inl ShortHeader else
     case header_validate (header_at d 0) of Inl e \<Rightarrow> Inl e | Inr _ \<Rightarrow>
     if length d < 632 then Inl ShortReport
     else if length d < 636 then Inl ShortU32
     else if length d < 636 + unat (signature_len_at d)
     then Inl (TruncatedSignature (unat (signature_len_at d)) (length d - 636))
     else Inr (quote_at d))"
proof (cases "length d < 48")
  case True
  then show ?thesis by (simp add: tdx_quote_parse_def header_parse_short)
next
  case False
  then have "header_parse d 0 = Inr (header_at d 0, 48)" by (simp add: header_parse_ok)
  moreover have "length d < 632 \<Longrightarrow> td_report_parse d 48 = Inl ShortReport"
    by (simp add: td_report_parse_short)
  moreover have "632 \<le> length d \<Longrightarrow> td_report_parse d 48 = Inr (td_report_at d 48, 632)"
    by (simp add: td_report_parse_ok)
  moreover have "length d < 636 \<Longrightarrow> parse_u32_le d 632 = Inl ShortU32"
    by (simp add: r32.rd_short)
  moreover have "636 \<le> length d \<Longrightarrow> parse_u32_le d 632 = Inr (signature_len_at d, 636)"
    by (simp add: r32.rd_ok signature_len_at_def)
  ultimately show ?thesis using False
    by (cases "header_validate (header_at d 0)"; cases "length d < 632"; cases "length d < 636")
      (auto simp: tdx_quote_parse_def quote_at_def Let_def)
qed

lemma tdx_quote_parse_Inr_iff:
  "tdx_quote_parse d = Inr q \<longleftrightarrow>
     636 + unat (signature_len_at d) \<le> length d \<and> header_validate (header_at d 0) = Inr ()
     \<and> q = quote_at d"
  by (auto simp: tdx_quote_parse_cases split: sum.splits if_splits)

section \<open>What a parsed quote guarantees\<close>

definition td_report_wf :: "td_report \<Rightarrow> bool" where
  "td_report_wf r \<longleftrightarrow>
     length (tcb_svn r) = 16 \<and> length (mr_seam r) = 48 \<and> length (mr_signer_seam r) = 48
     \<and> length (mrtd r) = 48 \<and> length (mr_config_id r) = 48 \<and> length (mr_owner r) = 48
     \<and> length (mr_owner_config r) = 48 \<and> length (rtmr r) = 4
     \<and> list_all (\<lambda>m. length m = 48) (rtmr r) \<and> length (report_data r) = 64"

definition quote_wf :: "tdx_quote \<Rightarrow> bool" where
  "quote_wf q \<longleftrightarrow>
     hdr_version (q_header q) = QUOTE_VERSION_4 \<and> hdr_tee_type (q_header q) = TEE_TYPE_TDX
     \<and> length (hdr_vendor_id (q_header q)) = 16 \<and> length (hdr_user_data (q_header q)) = 20
     \<and> td_report_wf (q_td_report q)
     \<and> length (q_raw_signature_data q) = unat (q_signature_len q)"

lemma header_validate_Inr_iff:
  "header_validate h = Inr u \<longleftrightarrow> hdr_version h = QUOTE_VERSION_4 \<and> hdr_tee_type h = TEE_TYPE_TDX"
  by (simp add: header_validate_def)

lemma td_report_at_wf: "off + 584 \<le> length d \<Longrightarrow> td_report_wf (td_report_at d off)"
  by (simp add: td_report_wf_def td_report_at_def length_subslice)

lemma quote_at_wf:
  assumes "636 + unat (signature_len_at d) \<le> length d"
    and "header_validate (header_at d 0) = Inr ()"
  shows "quote_wf (quote_at d)"
  using assms td_report_at_wf [of 48 d]
  by (simp add: quote_wf_def quote_at_def Let_def header_validate_Inr_iff length_subslice
      header_at_def)

lemma header_at_append: "48 \<le> length d \<Longrightarrow> header_at (d @ e) 0 = header_at d 0"
  by (simp add: header_at_def subslice_append_left)

lemma td_report_at_append: "632 \<le> length d \<Longrightarrow> td_report_at (d @ e) 48 = td_report_at d 48"
  by (simp add: td_report_at_def subslice_append_left)

lemma signature_len_at_append:
  "636 \<le> length d \<Longrightarrow> signature_len_at (d @ e) = signature_len_at d"
  by (simp add: signature_len_at_def subslice_append_left)

lemma quote_at_append:
  "636 + unat (signature_len_at d) \<le> length d \<Longrightarrow> quote_at (d @ e) = quote_at d"
  by (simp add: quote_at_def Let_def header_at_append td_report_at_append
      signature_len_at_append subslice_append_left)

lemma parsed_quote_wf: "tdx_quote_parse d = Inr q \<Longrightarrow> quote_wf q"
  using quote_at_wf by (auto simp: tdx_quote_parse_Inr_iff)

lemma verify_structure_wf:
  "quote_wf q \<Longrightarrow> verify_structure q =
     (if list_all (\<lambda>b. b = 0) (mrtd (q_td_report q)) then Inl MrtdAllZeros else Inr ())"
  by (simp add: quote_wf_def verify_structure_def header_validate_def)

lemma extract_parsed_quote_wf:
  assumes "quote_wf q"
  shows "length (pq_td_attributes (extract_parsed_quote q)) = 8"
    and "pq_debug_enabled (extract_parsed_quote q) = tc_debug_enabled (extract_claims q)"
    and "dom (pq_rtmrs (extract_parsed_quote q)) = {''rtmr0'', ''rtmr1'', ''rtmr2'', ''rtmr3''}"
    and "m \<in> ran (pq_rtmrs (extract_parsed_quote q)) \<Longrightarrow> length m = 48"
  using assms
  by (auto simp: extract_parsed_quote_def extract_claims_def Let_def ran_def quote_wf_def
      td_report_wf_def list_all_length split: if_splits)

text \<open>
  C19: The parser computes the version 4 layout: on every byte string it returns the quote whose
  fields are the slices at their fixed offsets, and it fails with the error of the first check that
  does not hold (short header, wrong version or TEE type, short report, missing signature length,
  truncated signature).
\<close>

theorem tdx_quote_parse_is_layout:
  "tdx_quote_parse d =
    (if length d < 48 then Inl ShortHeader else
     if hdr_version (header_at d 0) \<noteq> QUOTE_VERSION_4
     then Inl (UnsupportedQuoteVersion (hdr_version (header_at d 0))) else
     if hdr_tee_type (header_at d 0) \<noteq> TEE_TYPE_TDX
     then Inl (InvalidTeeType (hdr_tee_type (header_at d 0))) else
     if length d < 632 then Inl ShortReport else
     if length d < 636 then Inl ShortU32 else
     if length d < 636 + unat (signature_len_at d)
     then Inl (TruncatedSignature (unat (signature_len_at d)) (length d - 636))
     else Inr (quote_at d))"
  by (simp add: tdx_quote_parse_cases header_validate_def)

end
