(* ===== verification/Tdx_Simulator.thy ===== *)
theory Tdx_Simulator
  imports Tdx_Quote
begin

text \<open>
  The quote generators of \<open>src/node/attestation/src/tdx/hardware.rs\<close> that are plain code: the
  sanity check on a freshly generated quote and the simulator \<open>TdxSimulator\<close>, and
  \<open>TdxGuest::create_report_data\<close> of \<open>tdx/mod.rs\<close>. The simulator fills most fields from the
  operating system's random source: \<open>sim_draws\<close> holds one draw per \<open>rng.fill\<close>, and a fill of
  \<open>n\<close> bytes takes the first \<open>n\<close> of its draw.
\<close>

unbundle bit_operations_syntax

datatype hw_error =
    QuoteTooSmall nat
  | UnexpectedQuoteVersion u16
  | UnexpectedTeeType u32
  | ReportDataTooLarge nat

definition simple_quote_sanity :: "bytes \<Rightarrow> hw_error + unit" where
  "simple_quote_sanity quote =
    (if length quote < 48 then Inl (QuoteTooSmall (length quote)) else
     let version = u16_from_le [quote ! 0, quote ! 1];
         tee_type = u32_from_le [quote ! 4, quote ! 5, quote ! 6, quote ! 7]
     in if version \<noteq> 4 \<and> version \<noteq> 5 then Inl (UnexpectedQuoteVersion version)
        else if tee_type \<noteq> 0x81 then Inl (UnexpectedTeeType tee_type)
        else Inr ())"

record simulator_config =
  sim_mrtd :: bytes
  sim_td_attributes :: bytes
  sim_debug_enabled :: bool
  sim_security_version :: u32
  sim_quote_version :: u16

definition simulator_default :: simulator_config where
  "simulator_default =
    \<lparr>sim_mrtd = replicate 48 0x42, sim_td_attributes = replicate 8 0, sim_debug_enabled = False,
     sim_security_version = 0, sim_quote_version = 4\<rparr>"

record sim_draws =
  d_reserved :: bytes
  d_vendor_id :: bytes
  d_user20 :: bytes
  d_tcb_svn :: bytes
  d_mr_seam :: bytes
  d_mr_signer_seam :: bytes
  d_seam_attrs :: bytes
  d_td_attrs :: bytes
  d_xfam :: bytes
  d_mrtd :: bytes
  d_mr_config_id :: bytes
  d_mr_owner :: bytes
  d_mr_owner_config :: bytes
  d_rtmr0 :: bytes
  d_rtmr1 :: bytes
  d_rtmr2 :: bytes
  d_rtmr3 :: bytes
  d_report_data :: bytes
  d_sig_data :: bytes

definition draws_wf :: "sim_draws \<Rightarrow> bool" where
  "draws_wf d \<longleftrightarrow>
     length (d_reserved d) = 4 \<and> length (d_vendor_id d) = 16 \<and> length (d_user20 d) = 20
     \<and> length (d_tcb_svn d) = 16 \<and> length (d_mr_seam d) = 48 \<and> length (d_mr_signer_seam d) = 48
     \<and> length (d_seam_attrs d) = 8 \<and> length (d_td_attrs d) = 8 \<and> length (d_xfam d) = 8
     \<and> length (d_mrtd d) = 48 \<and> length (d_mr_config_id d) = 48 \<and> length (d_mr_owner d) = 48
     \<and> length (d_mr_owner_config d) = 48 \<and> length (d_rtmr0 d) = 48 \<and> length (d_rtmr1 d) = 48
     \<and> length (d_rtmr2 d) = 48 \<and> length (d_rtmr3 d) = 48 \<and> length (d_report_data d) = 64
     \<and> 64 \<le> length (d_sig_data d) \<and> length (d_sig_data d) < 192"

text \<open>\<open>dst[off..off + src.len()].copy_from_slice(src)\<close>\<close>

definition copy_into :: "nat \<Rightarrow> bytes \<Rightarrow> bytes \<Rightarrow> bytes" where
  "copy_into off src dst = take off dst @ src @ drop (off + length src) dst"

text \<open>A buffer of \<open>n\<close> bytes that starts with \<open>data\<close> and is filled from the draw after it.\<close>

definition prefix_filled :: "nat \<Rightarrow> bytes \<Rightarrow> bytes \<Rightarrow> bytes" where
  "prefix_filled n data draw = take n data @ take (n - min n (length data)) draw"

definition set_debug_bit :: "bool \<Rightarrow> bytes \<Rightarrow> bytes" where
  "set_debug_bit debug attrs =
    attrs[0 := (if debug then attrs ! 0 OR 1 else attrs ! 0 AND NOT 1)]"

definition mock_mrtd :: "simulator_config \<Rightarrow> sim_draws \<Rightarrow> bytes" where
  "mock_mrtd cfg d =
    (if sim_mrtd cfg = replicate 48 0x42 then d_mrtd d
     else take 44 (sim_mrtd cfg) @ take 4 (d_mrtd d))"

definition mock_body :: "simulator_config \<Rightarrow> sim_draws \<Rightarrow> bytes \<Rightarrow> bytes" where
  "mock_body cfg d rd =
    (copy_into 520 (prefix_filled 64 rd (d_report_data d))
    \<circ> copy_into 472 (d_rtmr3 d) \<circ> copy_into 424 (d_rtmr2 d)
    \<circ> copy_into 376 (d_rtmr1 d) \<circ> copy_into 328 (d_rtmr0 d)
    \<circ> copy_into 280 (d_mr_owner_config d) \<circ> copy_into 232 (d_mr_owner d)
    \<circ> copy_into 184 (d_mr_config_id d) \<circ> copy_into 136 (mock_mrtd cfg d)
    \<circ> copy_into 128 (d_xfam d) \<circ> copy_into 120 (set_debug_bit (sim_debug_enabled cfg) (d_td_attrs d))
    \<circ> copy_into 112 (d_seam_attrs d) \<circ> copy_into 64 (d_mr_signer_seam d)
    \<circ> copy_into 16 (d_mr_seam d) \<circ> copy_into 0 (d_tcb_svn d)) (replicate 584 0)"

definition make_mock_quote :: "simulator_config \<Rightarrow> sim_draws \<Rightarrow> bytes \<Rightarrow> bytes" where
  "make_mock_quote cfg d rd =
     u16_to_le (sim_quote_version cfg) @ [0x02, 0x00] @ u32_to_le 0x81
     @ d_reserved d @ d_vendor_id d @ prefix_filled 20 rd (d_user20 d)
     @ mock_body cfg d rd
     @ u32_to_le (word_of_nat (length (d_sig_data d))) @ d_sig_data d"

definition simulator_generate_quote ::
  "simulator_config \<Rightarrow> sim_draws \<Rightarrow> bytes \<Rightarrow> hw_error + bytes" where
  "simulator_generate_quote cfg d rd =
    (if length rd > 64 then Inl (ReportDataTooLarge (length rd))
     else Inr (make_mock_quote cfg d rd))"

definition create_report_data :: "(bytes \<Rightarrow> bytes) \<Rightarrow> bytes \<Rightarrow> bytes \<Rightarrow> bytes" where
  "create_report_data sha512 user_data ephemeral_key =
    (if length user_data + length ephemeral_key \<le> 64 then
       copy_into (length ephemeral_key) user_data (copy_into 0 ephemeral_key (replicate 64 0))
     else take 64 (sha512 (ephemeral_key @ user_data)))"

section \<open>Reading back what was copied\<close>

lemma length_copy_into [simp]:
  "off + length src \<le> length dst \<Longrightarrow> length (copy_into off src dst) = length dst"
  by (simp add: copy_into_def)

lemma subslice_copy_same:
  "off + n \<le> length dst \<Longrightarrow> length src = n \<Longrightarrow> subslice (copy_into off src dst) off n = src"
  by (simp add: copy_into_def subslice_def)

lemma subslice_copy_before:
  "a + n \<le> off \<Longrightarrow> off + length src \<le> length dst \<Longrightarrow>
     subslice (copy_into off src dst) a n = subslice dst a n"
  by (simp add: copy_into_def subslice_def min_def take_drop)

lemma length_prefix_filled:
  "n \<le> length draw \<Longrightarrow> length (prefix_filled n data draw) = n"
  by (auto simp: prefix_filled_def min_def)

lemma take_prefix_filled:
  "length data \<le> n \<Longrightarrow> take (length data) (prefix_filled n data draw) = data"
  by (simp add: prefix_filled_def)

lemma length_set_debug_bit [simp]: "length (set_debug_bit b attrs) = length attrs"
  by (simp add: set_debug_bit_def)

lemma length_mock_mrtd:
  "draws_wf d \<Longrightarrow> length (sim_mrtd cfg) = 48 \<Longrightarrow> length (mock_mrtd cfg d) = 48"
  by (simp add: mock_mrtd_def draws_wf_def)

lemmas mock_body_simps =
  mock_body_def draws_wf_def length_mock_mrtd length_prefix_filled
  subslice_copy_before subslice_copy_same

lemma length_mock_body:
  assumes "draws_wf d" "length (sim_mrtd cfg) = 48"
  shows "length (mock_body cfg d rd) = 584"
  using assms length_mock_mrtd [OF assms] by (simp add: mock_body_def draws_wf_def length_prefix_filled)

lemma mock_body_slices:
  assumes "draws_wf d" "length (sim_mrtd cfg) = 48"
  shows mock_body_tcb_svn: "subslice (mock_body cfg d rd) 0 16 = d_tcb_svn d"
    and mock_body_attrs:
      "subslice (mock_body cfg d rd) 120 8 = set_debug_bit (sim_debug_enabled cfg) (d_td_attrs d)"
    and mock_body_mrtd: "subslice (mock_body cfg d rd) 136 48 = mock_mrtd cfg d"
    and mock_body_report_data:
      "subslice (mock_body cfg d rd) 520 64 = prefix_filled 64 rd (d_report_data d)"
  using assms length_mock_mrtd [OF assms]
  by (simp_all add: mock_body_simps)

definition mock_header :: "simulator_config \<Rightarrow> sim_draws \<Rightarrow> bytes \<Rightarrow> bytes" where
  "mock_header cfg d rd =
     u16_to_le (sim_quote_version cfg) @ [0x02, 0x00] @ u32_to_le 0x81
     @ d_reserved d @ d_vendor_id d @ prefix_filled 20 rd (d_user20 d)"

lemma make_mock_quote_split:
  "make_mock_quote cfg d rd =
     mock_header cfg d rd @ mock_body cfg d rd
     @ u32_to_le (word_of_nat (length (d_sig_data d))) @ d_sig_data d"
  by (simp add: make_mock_quote_def mock_header_def)

lemma length_mock_header: "draws_wf d \<Longrightarrow> length (mock_header cfg d rd) = 48"
  by (simp add: mock_header_def draws_wf_def length_prefix_filled)

lemma subslice_mock_body:
  assumes "draws_wf d" "length (sim_mrtd cfg) = 48" "a + n \<le> 584"
  shows "subslice (make_mock_quote cfg d rd) (48 + a) n = subslice (mock_body cfg d rd) a n"
  using assms
  by (simp add: make_mock_quote_split subslice_append_right subslice_append_left
      length_mock_header length_mock_body)

lemma mock_header_version:
  "draws_wf d \<Longrightarrow>
    hdr_version (header_at (make_mock_quote cfg d rd) 0) = sim_quote_version cfg"
  by (simp add: header_at_def make_mock_quote_def subslice_zero)

lemma mock_header_tee_type:
  "draws_wf d \<Longrightarrow> hdr_tee_type (header_at (make_mock_quote cfg d rd) 0) = 0x81"
  by (simp add: header_at_def make_mock_quote_def subslice_append_right)
    (simp add: subslice_def)

lemma unat_sig_len: "draws_wf d \<Longrightarrow>
    unat (word_of_nat (length (d_sig_data d)) :: u32) = length (d_sig_data d)"
  by (simp add: draws_wf_def unat_of_nat)

lemma mock_signature_len:
  "draws_wf d \<Longrightarrow> length (sim_mrtd cfg) = 48 \<Longrightarrow>
    signature_len_at (make_mock_quote cfg d rd) = word_of_nat (length (d_sig_data d))"
  by (simp add: signature_len_at_def make_mock_quote_split subslice_append_right
      subslice_append_left length_mock_header length_mock_body subslice_whole)

lemma mock_raw_signature:
  "draws_wf d \<Longrightarrow> length (sim_mrtd cfg) = 48 \<Longrightarrow>
    subslice (make_mock_quote cfg d rd) 636 (length (d_sig_data d)) = d_sig_data d"
  by (simp add: make_mock_quote_split subslice_append_right length_mock_header length_mock_body)
    (simp add: subslice_def)

lemma length_mock_quote:
  "draws_wf d \<Longrightarrow> length (sim_mrtd cfg) = 48 \<Longrightarrow>
    length (make_mock_quote cfg d rd) = 636 + length (d_sig_data d)"
  by (simp add: make_mock_quote_split length_mock_header length_mock_body)

lemma mock_quote_parses:
  assumes "draws_wf d" "length (sim_mrtd cfg) = 48" "sim_quote_version cfg = 4"
  shows "tdx_quote_parse (make_mock_quote cfg d rd) = Inr (quote_at (make_mock_quote cfg d rd))"
  using assms
  by (intro tdx_quote_parse_ok)
    (simp_all add: length_mock_quote mock_signature_len unat_sig_len header_validate_def
      mock_header_version mock_header_tee_type QUOTE_VERSION_4_def TEE_TYPE_TDX_def)

section \<open>The debug bit\<close>

lemma odd_word_of_nat: "odd (word_of_nat n :: u64) \<longleftrightarrow> odd n"
  by transfer simp

lemma odd_unat: "odd (unat (w :: 'a :: len word)) \<longleftrightarrow> odd w"
  using even_of_nat [of "unat w", where 'a = "'a word"] by simp

lemma debug_bit_from_le: "(u64_from_le (b # bs) AND 1 \<noteq> 0) \<longleftrightarrow> odd b"
proof -
  have "(u64_from_le (b # bs) AND 1 \<noteq> 0) \<longleftrightarrow> odd (u64_from_le (b # bs))"
    by (simp add: and_one_eq odd_iff_mod_2_eq_one)
  also have "\<dots> \<longleftrightarrow> odd (unat b + 256 * le_to_nat bs)"
    by (simp only: u64_from_le_def le_to_nat.simps odd_word_of_nat)
  also have "\<dots> \<longleftrightarrow> odd b" by (simp add: odd_unat)
  finally show ?thesis .
qed


lemma odd_set_debug_bit: "odd (set_debug_bit dbg (b # bs) ! 0) \<longleftrightarrow> dbg"
  by (simp add: set_debug_bit_def flip: bit_0) (simp add: bit_simps)

lemma debug_bit_of_attrs:
  assumes "length attrs = 8"
  shows "(u64_from_le (set_debug_bit dbg attrs) AND 1 \<noteq> 0) \<longleftrightarrow> dbg"
proof -
  from assms obtain b bs where at: "attrs = b # bs" by (cases attrs) auto
  then have "set_debug_bit dbg attrs = (set_debug_bit dbg attrs ! 0) # bs"
    by (simp add: set_debug_bit_def)
  with at show ?thesis by (metis debug_bit_from_le odd_set_debug_bit)
qed

lemma mock_quote_fields:
  assumes "draws_wf d" "length (sim_mrtd cfg) = 48"
  shows "report_data (q_td_report (quote_at (make_mock_quote cfg d rd)))
           = prefix_filled 64 rd (d_report_data d)"
    and "mrtd (q_td_report (quote_at (make_mock_quote cfg d rd))) = mock_mrtd cfg d"
    and "q_raw_signature_data (quote_at (make_mock_quote cfg d rd)) = d_sig_data d"
    and "(td_attributes (q_td_report (quote_at (make_mock_quote cfg d rd))) AND 1 \<noteq> 0)
           \<longleftrightarrow> sim_debug_enabled cfg"
proof -
  have b: "a + n \<le> 584 \<Longrightarrow> k = 48 + a \<Longrightarrow>
      subslice (make_mock_quote cfg d rd) k n = subslice (mock_body cfg d rd) a n" for a n k
    using subslice_mock_body [OF assms] by blast
  show "report_data (q_td_report (quote_at (make_mock_quote cfg d rd)))
           = prefix_filled 64 rd (d_report_data d)"
    using mock_body_report_data [OF assms] b [of 520 64]
    by (simp add: quote_at_def td_report_at_def Let_def)
  show "mrtd (q_td_report (quote_at (make_mock_quote cfg d rd))) = mock_mrtd cfg d"
    using mock_body_mrtd [OF assms] b [of 136 48] by (simp add: quote_at_def td_report_at_def Let_def)
  show "q_raw_signature_data (quote_at (make_mock_quote cfg d rd)) = d_sig_data d"
    using assms by (simp add: quote_at_def Let_def mock_signature_len unat_sig_len mock_raw_signature)
  show "(td_attributes (q_td_report (quote_at (make_mock_quote cfg d rd))) AND 1 \<noteq> 0)
           \<longleftrightarrow> sim_debug_enabled cfg"
    using mock_body_attrs [OF assms] b [of 120 8] assms(1)
    by (simp add: quote_at_def td_report_at_def Let_def debug_bit_of_attrs draws_wf_def)
qed

section \<open>The simulator and the parser\<close>

lemma mock_sanity:
  assumes "draws_wf d" "length (sim_mrtd cfg) = 48"
  shows "simple_quote_sanity (make_mock_quote cfg d rd) =
    (if sim_quote_version cfg \<noteq> 4 \<and> sim_quote_version cfg \<noteq> 5
     then Inl (UnexpectedQuoteVersion (sim_quote_version cfg)) else Inr ())"
proof -
  let ?q = "make_mock_quote cfg d rd"
  have len: "636 \<le> length ?q" using assms by (simp add: length_mock_quote)
  have "u16_from_le [?q ! 0, ?q ! 1] = sim_quote_version cfg"
    using mock_header_version [OF assms(1), of cfg rd] len subslice_2 [of 0 ?q]
    by (simp add: header_at_def)
  moreover have "u32_from_le [?q ! 4, ?q ! 5, ?q ! 6, ?q ! 7] = 0x81"
    using mock_header_tee_type [OF assms(1), of cfg rd] len subslice_4 [of 4 ?q]
    by (simp add: header_at_def)
  ultimately show ?thesis using len by (simp add: simple_quote_sanity_def Let_def)
qed

lemma mock_quote_rejected:
  assumes "draws_wf d" "length (sim_mrtd cfg) = 48" "sim_quote_version cfg \<noteq> 4"
  shows "tdx_quote_parse (make_mock_quote cfg d rd) =
    Inl (UnsupportedQuoteVersion (sim_quote_version cfg))"
  using assms
  by (simp add: tdx_quote_parse_cases length_mock_quote header_validate_def mock_header_version
      QUOTE_VERSION_4_def)

text \<open>A fixed assignment of the draws, the input of the witnesses.\<close>

definition sample_draws :: sim_draws where
  "sample_draws =
    \<lparr>d_reserved = replicate 4 1, d_vendor_id = replicate 16 2, d_user20 = replicate 20 3,
     d_tcb_svn = replicate 16 4, d_mr_seam = replicate 48 5, d_mr_signer_seam = replicate 48 6,
     d_seam_attrs = replicate 8 7, d_td_attrs = replicate 8 8, d_xfam = replicate 8 9,
     d_mrtd = replicate 48 10, d_mr_config_id = replicate 48 11, d_mr_owner = replicate 48 12,
     d_mr_owner_config = replicate 48 13, d_rtmr0 = replicate 48 14, d_rtmr1 = replicate 48 15,
     d_rtmr2 = replicate 48 16, d_rtmr3 = replicate 48 17, d_report_data = replicate 64 18,
     d_sig_data = replicate 64 19\<rparr>"

lemma sample_draws_wf: "draws_wf sample_draws"
  by (simp add: draws_wf_def sample_draws_def)

lemma simulator_default_simps [simp]:
  "length (sim_mrtd simulator_default) = 48" "sim_quote_version simulator_default = 4"
  "sim_debug_enabled simulator_default = False"
  by (simp_all add: simulator_default_def)

text \<open>
  A simulated quote of version 4 is read back by the parser: the report data starts with the
  bytes that were asked for, the measurement is the simulator's, the debug claim is the configured
  flag, the signature bytes are those that were drawn, and the structural check accepts the quote
  unless the measurement is all zeros.
\<close>

theorem simulated_quote_round_trip:
  assumes "draws_wf d" "length (sim_mrtd cfg) = 48" "sim_quote_version cfg = 4"
    and "simulator_generate_quote cfg d rd = Inr quote"
  shows "\<exists>q. tdx_quote_parse quote = Inr q
    \<and> take (length rd) (report_data (q_td_report q)) = rd
    \<and> mrtd (q_td_report q) = mock_mrtd cfg d
    \<and> tc_debug_enabled (extract_claims q) = sim_debug_enabled cfg
    \<and> q_raw_signature_data q = d_sig_data d
    \<and> verify_structure q =
        (if list_all (\<lambda>b. b = 0) (mock_mrtd cfg d) then Inl MrtdAllZeros else Inr ())"
proof -
  from assms(4) have rd: "length rd \<le> 64" and q: "quote = make_mock_quote cfg d rd"
    by (auto simp: simulator_generate_quote_def split: if_splits)
  let ?q = "quote_at quote"
  have "tdx_quote_parse quote = Inr ?q" using mock_quote_parses [OF assms(1-3)] q by simp
  moreover have "quote_wf ?q"
    using \<open>tdx_quote_parse quote = Inr ?q\<close> quote_at_wf
    by (simp add: tdx_quote_parse_Inr_iff)
  ultimately show ?thesis
    using mock_quote_fields [OF assms(1,2), of rd] q take_prefix_filled [OF rd]
    by (intro exI [of _ ?q])
      (simp add: extract_claims_def Let_def verify_structure_def quote_wf_def header_validate_def)
qed

theorem simulated_quote_round_trip_witness:
  "\<exists>q. tdx_quote_parse (make_mock_quote simulator_default sample_draws [1, 2, 3]) = Inr q
    \<and> take 3 (report_data (q_td_report q)) = [1, 2, 3]
    \<and> \<not> tc_debug_enabled (extract_claims q) \<and> verify_structure q = Inr ()"
  using simulated_quote_round_trip [of sample_draws simulator_default "[1, 2, 3]"
      "make_mock_quote simulator_default sample_draws [1, 2, 3]"] sample_draws_wf
  by (auto simp: simulator_generate_quote_def mock_mrtd_def simulator_default_def sample_draws_def
      numeral_3_eq_3 list_all_iff)

text \<open>
  C24: A quote that parses is well formed (version 4, TDX, every field of its length, as many
  signature bytes as announced), bytes after the announced signature do not matter, and the
  structural check can then fail for one reason only: an all-zero measurement.
\<close>

theorem parsed_quote_sound:
  assumes "tdx_quote_parse d = Inr q"
  shows "quote_wf q \<and> tdx_quote_parse (d @ extra) = Inr q
    \<and> verify_structure q =
        (if list_all (\<lambda>b. b = 0) (mrtd (q_td_report q)) then Inl MrtdAllZeros else Inr ())"
  using assms parsed_quote_wf [OF assms] verify_structure_wf [OF parsed_quote_wf [OF assms]]
  by (auto simp: tdx_quote_parse_Inr_iff quote_at_append header_at_append signature_len_at_append)

theorem parsed_quote_sound_witness:
  "\<exists>q. tdx_quote_parse (make_mock_quote simulator_default sample_draws [1] @ [9]) = Inr q
     \<and> quote_wf q"
  using parsed_quote_sound
    [OF mock_quote_parses [OF sample_draws_wf, of simulator_default "[1]"], of "[9]"]
  by simp

text \<open>
  The sanity check that the hardware path applies to a fresh quote accepts versions 4 and 5,
  while the parser accepts version 4 only: for every simulated quote the parser accepts, the sanity
  check accepts it, and for version 5 the sanity check accepts a quote that no verifier can parse.
\<close>

theorem sanity_weaker_than_parser:
  assumes "draws_wf d" "length (sim_mrtd cfg) = 48"
  shows "(simple_quote_sanity (make_mock_quote cfg d rd) = Inr () \<longleftrightarrow>
      sim_quote_version cfg = 4 \<or> sim_quote_version cfg = 5)
    \<and> (sim_quote_version cfg \<noteq> 4 \<longrightarrow>
      tdx_quote_parse (make_mock_quote cfg d rd) =
        Inl (UnsupportedQuoteVersion (sim_quote_version cfg)))"
  using mock_sanity [OF assms] mock_quote_rejected [OF assms] by auto

theorem sanity_weaker_than_parser_witness:
  "let cfg = simulator_default\<lparr>sim_quote_version := 5\<rparr> in
     simple_quote_sanity (make_mock_quote cfg sample_draws []) = Inr ()
     \<and> tdx_quote_parse (make_mock_quote cfg sample_draws []) = Inl (UnsupportedQuoteVersion 5)"
  using sanity_weaker_than_parser [OF sample_draws_wf, of "simulator_default\<lparr>sim_quote_version := 5\<rparr>" "[]"]
  by (simp add: simulator_default_def)

text \<open>
  Report data is always 64 bytes, and while key and user data fit it is invertible: it starts
  with the ephemeral key and the user data, so two calls with keys of one length and user data of
  one length agree only on equal inputs.
\<close>

theorem create_report_data_binds:
  assumes "\<And>x. length (sha512 x) = 64"
  shows "length (create_report_data sha512 u k) = 64
    \<and> (length u + length k \<le> 64 \<longrightarrow>
        take (length k) (create_report_data sha512 u k) = k
        \<and> subslice (create_report_data sha512 u k) (length k) (length u) = u)"
  using assms by (auto simp: create_report_data_def copy_into_def subslice_def)

theorem create_report_data_binds_witness:
  "take 2 (create_report_data (\<lambda>_. replicate 64 0) [7] [1, 2]) = [1, 2]
   \<and> subslice (create_report_data (\<lambda>_. replicate 64 0) [7] [1, 2]) 2 1 = [7]"
  using create_report_data_binds [of "\<lambda>_. replicate 64 0" "[7]" "[1, 2]"]
  by (simp add: numeral_2_eq_2)

end
