(* ===== verification/Worker_Types.thy ===== *)
theory Worker_Types
  imports Interface_Types
begin

text \<open>
  Addresses of virtual machines (\<open>types/vm.rs\<close>), worker bundles and manifests
  (\<open>types/worker/mod.rs\<close>) and worker events (\<open>types/worker/events.rs\<close>) of
  \<open>src/node/interface\<close>. JSON, base64 and SHA-512 are the fields of \<open>bundle_ext\<close>. A JSON value
  (\<open>serde_json::Value\<close>) is the type variable of the manifest's user data; instants of the
  \<open>chrono\<close> crate are integers (nanoseconds since the epoch).
\<close>

section \<open>Addresses of virtual machines\<close>

record tcp_address =
  tcp_host :: string
  tcp_port :: u32

record uds_address =
  uds_path :: string

record vsock_address =
  vsock_cid :: u32
  vsock_port :: u32

datatype vm_address = Tcp tcp_address | Uds uds_address | Vsock vsock_address

record proto_tcp =
  ptcp_host :: string
  ptcp_port :: u32

record proto_uds =
  puds_path :: string

record proto_vsock =
  pvs_cid :: u32
  pvs_port :: u32

datatype proto_address_type = PTcp proto_tcp | PUds proto_uds | PVsock proto_vsock

record proto_vm_address =
  address_type :: "proto_address_type option"

definition tcp_of_proto :: "proto_tcp \<Rightarrow> tcp_address" where
  "tcp_of_proto p = \<lparr>tcp_host = ptcp_host p, tcp_port = ptcp_port p\<rparr>"

definition tcp_to_proto :: "tcp_address \<Rightarrow> proto_tcp" where
  "tcp_to_proto a = \<lparr>ptcp_host = tcp_host a, ptcp_port = tcp_port a\<rparr>"

definition uds_of_proto :: "proto_uds \<Rightarrow> uds_address" where
  "uds_of_proto p = \<lparr>uds_path = puds_path p\<rparr>"

definition uds_to_proto :: "uds_address \<Rightarrow> proto_uds" where
  "uds_to_proto a = \<lparr>puds_path = uds_path a\<rparr>"

definition vsock_of_proto :: "proto_vsock \<Rightarrow> vsock_address" where
  "vsock_of_proto p = \<lparr>vsock_cid = pvs_cid p, vsock_port = pvs_port p\<rparr>"

definition vsock_to_proto :: "vsock_address \<Rightarrow> proto_vsock" where
  "vsock_to_proto a = \<lparr>pvs_cid = vsock_cid a, pvs_port = vsock_port a\<rparr>"

definition vm_address_of_proto :: "proto_vm_address \<Rightarrow> conversion_error + vm_address" where
  "vm_address_of_proto p = (case address_type p of
      Some (PTcp t) \<Rightarrow> Inr (Tcp (tcp_of_proto t))
    | Some (PUds u) \<Rightarrow> Inr (Uds (uds_of_proto u))
    | Some (PVsock v) \<Rightarrow> Inr (Vsock (vsock_of_proto v))
    | None \<Rightarrow> Inl (MissingField ''address_type''))"

fun vm_address_to_proto :: "vm_address \<Rightarrow> proto_vm_address" where
  "vm_address_to_proto (Tcp t) = \<lparr>address_type = Some (PTcp (tcp_to_proto t))\<rparr>"
| "vm_address_to_proto (Uds u) = \<lparr>address_type = Some (PUds (uds_to_proto u))\<rparr>"
| "vm_address_to_proto (Vsock v) = \<lparr>address_type = Some (PVsock (vsock_to_proto v))\<rparr>"

lemmas address_defs [proto_simps] =
  tcp_of_proto_def tcp_to_proto_def uds_of_proto_def uds_to_proto_def
  vsock_of_proto_def vsock_to_proto_def vm_address_of_proto_def

interpretation vm_address_codec: codec vm_address_to_proto vm_address_of_proto "\<lambda>_. True"
proof
  show "vm_address_of_proto (vm_address_to_proto a) = Inr a" for a
    by (cases a) (simp_all add: proto_simps)
qed

section \<open>Worker bundles\<close>

record worker_bundle_pointer =
  wbp_source :: string
  wbp_hash :: "bytes option"

record 'v worker_manifest =
  wm_bundle :: worker_bundle_pointer
  wm_identities :: "(secret_id \<times> string) list"
  wm_userdata :: "string \<rightharpoonup> 'v"

record dsse_signature_entry =
  key_id :: "string option"
  dsig :: string

record dsse_envelope =
  dsse_payload :: string
  dsse_payload_type :: string
  dsse_signatures :: "dsse_signature_entry list"

record worker_bundle_payload =
  wb_vm :: string
  wb_executable :: bytes
  wb_metadata :: "(string \<times> string) list"

datatype worker_bundle = WorkerBundle (bundle_bytes: bytes)

record bundle_ext =
  envelope_from_json :: "bytes \<Rightarrow> string + dsse_envelope"
  payload_from_json :: "bytes \<Rightarrow> string + worker_bundle_payload"
  payload_to_json :: "worker_bundle_payload \<Rightarrow> string + bytes"
  b64_encode :: "bytes \<Rightarrow> string"
  b64_decode :: "string \<Rightarrow> string + bytes"
  sha512 :: "bytes \<Rightarrow> bytes"

definition DSSE_WORKER_BUNDLE_PAYLOAD_TYPE :: string where
  "DSSE_WORKER_BUNDLE_PAYLOAD_TYPE = ''application/vnd.nxcc.workerbundlepayload.v1+json''"

definition DSSE_WORK_ORDER_PAYLOAD_TYPE :: string where
  "DSSE_WORK_ORDER_PAYLOAD_TYPE = ''application/vnd.nxcc.workorderpayload.v1+json''"

definition bundle_envelope :: "bundle_ext \<Rightarrow> worker_bundle \<Rightarrow> conversion_error + dsse_envelope" where
  "bundle_envelope ext b = map_err Json (envelope_from_json ext (bundle_bytes b))"

definition bundle_payload ::
  "bundle_ext \<Rightarrow> worker_bundle \<Rightarrow> conversion_error + worker_bundle_payload" where
  "bundle_payload ext b =
    rbind (bundle_envelope ext b) (\<lambda>env.
    if dsse_payload_type env \<noteq> DSSE_WORKER_BUNDLE_PAYLOAD_TYPE
    then Inl (InvalidDssePayloadType DSSE_WORKER_BUNDLE_PAYLOAD_TYPE (dsse_payload_type env))
    else rbind (map_err Base64 (b64_decode ext (dsse_payload env))) (\<lambda>raw.
    map_err Json (payload_from_json ext raw)))"

definition hash_signed_payload :: "bundle_ext \<Rightarrow> worker_bundle \<Rightarrow> conversion_error + bytes" where
  "hash_signed_payload ext b =
    rbind (bundle_payload ext b) (\<lambda>p.
    rbind (map_err Json (payload_to_json ext p)) (\<lambda>raw. Inr (sha512 ext raw)))"

definition get_dsse_signature :: "bundle_ext \<Rightarrow> worker_bundle \<Rightarrow> conversion_error + bytes" where
  "get_dsse_signature ext b =
    rbind (bundle_envelope ext b) (\<lambda>env.
    if dsse_signatures env = []
    then Inl (InvalidValue ''signatures'' ''DSSE envelope has no signatures'')
    else map_err Base64 (b64_decode ext (dsig (dsse_signatures env ! 0))))"

record 'v full_policy_package =
  fpp_manifest :: "'v worker_manifest"
  fpp_bundle :: worker_bundle

section \<open>Events\<close>

datatype mode = ModeRate

datatype catch_up = Skip | Coalesce | Queue

record policy_tuning =
  catch_up_policy :: catch_up
  max_lateness_ms :: "u64 option"
  jitter_budget_ms :: "u64 option"

definition policy_default :: policy_tuning where
  "policy_default = \<lparr>catch_up_policy = Skip, max_lateness_ms = None, jitter_budget_ms = None\<rparr>"

record rate_mode =
  rate_mode_tag :: mode
  period_ms :: u64
  phase_ms :: u64
  start_at :: "int option"
  end_at :: "int option"
  max_occurrences :: "u64 option"
  rate_policy :: "policy_tuning option"

definition rate_mode_new :: "u64 \<Rightarrow> rate_mode" where
  "rate_mode_new p =
    \<lparr>rate_mode_tag = ModeRate, period_ms = p, phase_ms = 0, start_at = None, end_at = None,
     max_occurrences = None, rate_policy = None\<rparr>"

datatype schedule = Rate rate_mode

record web3_event =
  we_chain :: chain_identifier
  we_address :: "bytes list"
  we_topics :: "bytes list list"
  we_gateways :: "string list"

datatype worker_event_kind =
    Launch
  | Web3Event web3_event
  | HttpRequest
  | Scheduled schedule

record worker_event =
  handler :: string
  event_kind :: worker_event_kind

record 'v work_order_payload =
  wo_id :: string
  wo_worker :: "'v worker_manifest"
  wo_events :: "worker_event list"

record proto_web3_event =
  pwe_chain :: "proto_chain option"
  pwe_address :: "string list"
  pwe_topics :: "string list list"
  pwe_gateways :: "string list"

definition web3_event_of_proto ::
  "text_ext \<Rightarrow> proto_web3_event \<Rightarrow> conversion_error + web3_event" where
  "web3_event_of_proto ext p =
    rbind (ok_or (MissingField ''chain'') (pwe_chain p)) (\<lambda>pc.
    rbind (chain_of_proto ext pc) (\<lambda>c.
    rbind (collect (\<lambda>s. map_err (InvalidValue ''address'') (address_parse ext s)) (pwe_address p)) (\<lambda>as.
    rbind (collect (collect (\<lambda>s. map_err (InvalidValue ''topics'') (b256_parse ext s)))
             (pwe_topics p)) (\<lambda>ts.
    Inr \<lparr>we_chain = c, we_address = as, we_topics = ts, we_gateways = pwe_gateways p\<rparr>))))"

definition web3_event_to_proto :: "text_ext \<Rightarrow> web3_event \<Rightarrow> proto_web3_event" where
  "web3_event_to_proto ext e =
    \<lparr>pwe_chain = Some (chain_to_proto (we_chain e)),
     pwe_address = map (address_fmt ext) (we_address e),
     pwe_topics = map (map (b256_fmt ext)) (we_topics e),
     pwe_gateways = we_gateways e\<rparr>"

definition web3_event_wf :: "text_ext \<Rightarrow> web3_event \<Rightarrow> bool" where
  "web3_event_wf ext e \<longleftrightarrow> chain_wf ext (we_chain e)
     \<and> list_all (\<lambda>a. address_parse ext (address_fmt ext a) = Inr a) (we_address e)
     \<and> list_all (list_all (\<lambda>t. b256_parse ext (b256_fmt ext t) = Inr t)) (we_topics e)"

lemma collect_map_id:
  "list_all (\<lambda>a. f (g a) = Inr a) xs \<Longrightarrow> collect f (map g xs) = Inr xs"
  by (induction xs) auto

interpretation web3_event_codec:
  codec "web3_event_to_proto ext" "web3_event_of_proto ext" "web3_event_wf ext" for ext
proof
  fix e assume wf: "web3_event_wf ext e"
  then have "collect (collect (\<lambda>s. map_err (InvalidValue ''topics'') (b256_parse ext s)))
      (map (map (b256_fmt ext)) (we_topics e)) = Inr (we_topics e)"
    by (intro collect_map_id) (auto simp: web3_event_wf_def list_all_iff intro!: collect_map_id)
  moreover from wf have "collect (\<lambda>s. map_err (InvalidValue ''address'') (address_parse ext s))
      (map (address_fmt ext) (we_address e)) = Inr (we_address e)"
    by (intro collect_map_id) (auto simp: web3_event_wf_def list_all_iff)
  ultimately show "web3_event_of_proto ext (web3_event_to_proto ext e) = Inr e"
    using wf by (simp add: web3_event_of_proto_def web3_event_to_proto_def web3_event_wf_def
        chain_codec.dec_enc)
qed

section \<open>Logs\<close>

record web3_log =
  wl_address :: bytes
  wl_topics :: "bytes list"
  wl_data :: bytes
  wl_block_hash :: "bytes option"
  wl_block_number :: "u64 option"
  wl_transaction_hash :: "bytes option"
  wl_transaction_index :: "u64 option"
  wl_log_index :: "u64 option"
  wl_removed :: bool

record proto_web3_log =
  pwl_address :: bytes
  pwl_topics :: "bytes list"
  pwl_data :: bytes
  pwl_block_hash :: bytes
  pwl_block_number :: u64
  pwl_transaction_hash :: bytes
  pwl_transaction_index :: u64
  pwl_log_index :: u64
  pwl_removed :: bool

definition unwrap_or :: "'a \<Rightarrow> 'a option \<Rightarrow> 'a" where
  "unwrap_or d m = (case m of None \<Rightarrow> d | Some x \<Rightarrow> x)"

definition web3_log_to_proto :: "web3_log \<Rightarrow> proto_web3_log" where
  "web3_log_to_proto l =
    \<lparr>pwl_address = wl_address l, pwl_topics = wl_topics l, pwl_data = wl_data l,
     pwl_block_hash = unwrap_or [] (wl_block_hash l),
     pwl_block_number = unwrap_or 0 (wl_block_number l),
     pwl_transaction_hash = unwrap_or [] (wl_transaction_hash l),
     pwl_transaction_index = unwrap_or 0 (wl_transaction_index l),
     pwl_log_index = unwrap_or 0 (wl_log_index l), pwl_removed = wl_removed l\<rparr>"

text \<open>\<open>Address::try_from\<close> and \<open>B256::try_from\<close> on a slice: the length has to be exact.\<close>

definition fixed_try_from :: "string \<Rightarrow> nat \<Rightarrow> bytes \<Rightarrow> conversion_error + bytes" where
  "fixed_try_from field n bs =
    (if length bs = n then Inr bs
     else Inl (InvalidValue field ''could not convert slice to array''))"

definition web3_log_of_proto :: "proto_web3_log \<Rightarrow> conversion_error + web3_log" where
  "web3_log_of_proto p =
    rbind (fixed_try_from ''address'' 20 (pwl_address p)) (\<lambda>a.
    rbind (collect (fixed_try_from ''topics'' 32) (pwl_topics p)) (\<lambda>ts.
    rbind (if pwl_block_hash p = [] then Inr None
           else rbind (fixed_try_from ''block_hash'' 32 (pwl_block_hash p)) (\<lambda>h. Inr (Some h))) (\<lambda>bh.
    rbind (if pwl_transaction_hash p = [] then Inr None
           else rbind (fixed_try_from ''transaction_hash'' 32 (pwl_transaction_hash p))
                  (\<lambda>h. Inr (Some h))) (\<lambda>th.
    Inr \<lparr>wl_address = a, wl_topics = ts, wl_data = pwl_data p, wl_block_hash = bh,
         wl_block_number =
           (if pwl_block_number p = 0 \<and> pwl_block_hash p = [] then None
            else Some (pwl_block_number p)),
         wl_transaction_hash = th,
         wl_transaction_index =
           (if pwl_transaction_index p = 0 \<and> pwl_transaction_hash p = [] then None
            else Some (pwl_transaction_index p)),
         wl_log_index =
           (if pwl_log_index p = 0 \<and> pwl_transaction_hash p = [] then None
            else Some (pwl_log_index p)),
         wl_removed = pwl_removed p\<rparr>))))"

definition web3_log_sized :: "web3_log \<Rightarrow> bool" where
  "web3_log_sized l \<longleftrightarrow> length (wl_address l) = 20 \<and> list_all (\<lambda>t. length t = 32) (wl_topics l)
     \<and> (case wl_block_hash l of None \<Rightarrow> True | Some h \<Rightarrow> length h = 32)
     \<and> (case wl_transaction_hash l of None \<Rightarrow> True | Some h \<Rightarrow> length h = 32)"

text \<open>
  A position survives the wire when it is present exactly if its hash is, or is absent or
  non-zero without it.
\<close>

definition position_survives :: "bytes option \<Rightarrow> u64 option \<Rightarrow> bool" where
  "position_survives h n \<longleftrightarrow> (if h = None then n \<noteq> Some 0 else n \<noteq> None)"

definition web3_log_survives :: "web3_log \<Rightarrow> bool" where
  "web3_log_survives l \<longleftrightarrow>
     position_survives (wl_block_hash l) (wl_block_number l)
     \<and> position_survives (wl_transaction_hash l) (wl_transaction_index l)
     \<and> position_survives (wl_transaction_hash l) (wl_log_index l)"

lemma unwrap_or_simps [simp]: "unwrap_or d None = d" "unwrap_or d (Some x) = x"
  by (simp_all add: unwrap_or_def)

lemma collect_fixed:
  "list_all (\<lambda>t. length t = n) ts \<Longrightarrow> collect (fixed_try_from f n) ts = Inr ts"
  by (induction ts) (auto simp: fixed_try_from_def)

lemma position_back:
  "h \<noteq> Some [] \<Longrightarrow>
     ((if unwrap_or 0 n = (0 :: u64) \<and> unwrap_or [] h = [] then None else Some (unwrap_or 0 n)) = n)
       \<longleftrightarrow> position_survives h n"
  by (cases h; cases n) (auto simp: position_survives_def)

lemma web3_log_back:
  assumes "web3_log_sized l"
  shows "web3_log_of_proto (web3_log_to_proto l) = Inr l \<longleftrightarrow> web3_log_survives l"
proof -
  let ?p = "web3_log_to_proto l"
  have bh: "wl_block_hash l \<noteq> Some []" and th: "wl_transaction_hash l \<noteq> Some []"
    using assms by (auto simp: web3_log_sized_def split: option.splits)
  have hb: "(if pwl_block_hash ?p = [] then Inr None
      else rbind (fixed_try_from f 32 (pwl_block_hash ?p)) (\<lambda>h. Inr (Some h)))
      = Inr (wl_block_hash l)" for f
    using assms by (cases "wl_block_hash l")
      (auto simp: web3_log_to_proto_def fixed_try_from_def web3_log_sized_def)
  have ht: "(if pwl_transaction_hash ?p = [] then Inr None
      else rbind (fixed_try_from f 32 (pwl_transaction_hash ?p)) (\<lambda>h. Inr (Some h)))
      = Inr (wl_transaction_hash l)" for f
    using assms by (cases "wl_transaction_hash l")
      (auto simp: web3_log_to_proto_def fixed_try_from_def web3_log_sized_def)
  have "fixed_try_from ''address'' 20 (pwl_address ?p) = Inr (wl_address l)"
    "collect (fixed_try_from ''topics'' 32) (pwl_topics ?p) = Inr (wl_topics l)"
    using assms by (simp_all add: web3_log_to_proto_def fixed_try_from_def web3_log_sized_def
        collect_fixed)
  then show ?thesis
    unfolding web3_log_of_proto_def web3_log_survives_def
      position_back [OF bh, symmetric] position_back [OF th, symmetric]
    by (simp only: hb ht rbind.simps)
      (cases l, simp add: web3_log_to_proto_def)
qed

interpretation web3_log_codec: codec web3_log_to_proto web3_log_of_proto
  "\<lambda>l. web3_log_sized l \<and> web3_log_survives l"
  by unfold_locales (simp add: web3_log_back)

datatype event_payload = EpWeb3Log web3_log | EpLaunch | EpHttpRequest | EpScheduled | EpPhantom

datatype proto_event_payload =
  PWeb3Log proto_web3_log | PLaunchEvent | PHttpRequest | PScheduledEvent

record event_delivery =
  ed_worker_id :: string
  ed_event_payload :: "proto_event_payload option option"
  ed_handler_name :: string

definition event_payload_of_proto ::
  "proto_event_payload option \<Rightarrow> conversion_error + event_payload" where
  "event_payload_of_proto p = (case p of
      Some (PWeb3Log l) \<Rightarrow> rbind (web3_log_of_proto l) (\<lambda>x. Inr (EpWeb3Log x))
    | Some PLaunchEvent \<Rightarrow> Inr EpLaunch
    | Some PHttpRequest \<Rightarrow> Inr EpHttpRequest
    | Some PScheduledEvent \<Rightarrow> Inr EpScheduled
    | None \<Rightarrow> Inl (MissingField ''payload''))"

text \<open>The conversion to the wire panics on the marker variant: \<open>None\<close>.\<close>

fun event_payload_to_proto :: "event_payload \<Rightarrow> proto_event_payload option option" where
  "event_payload_to_proto (EpWeb3Log l) = Some (Some (PWeb3Log (web3_log_to_proto l)))"
| "event_payload_to_proto EpLaunch = Some (Some PLaunchEvent)"
| "event_payload_to_proto EpHttpRequest = Some (Some PHttpRequest)"
| "event_payload_to_proto EpScheduled = Some (Some PScheduledEvent)"
| "event_payload_to_proto EpPhantom = None"

section \<open>Properties\<close>

text \<open>
  A log whose address, topics and hashes have their sizes comes back from the wire unchanged
  exactly when each of its positions (block number, transaction index, log index) is present with
  its hash, or absent or non-zero without it: a position of zero without its hash is read as
  absent, and an absent position with a hash is read as zero.
\<close>

theorem web3_log_round_trip:
  assumes "web3_log_sized l"
  shows "web3_log_of_proto (web3_log_to_proto l) = Inr l \<longleftrightarrow> web3_log_survives l"
  using assms by (rule web3_log_back)

definition sample_log :: web3_log where
  "sample_log =
    \<lparr>wl_address = replicate 20 1, wl_topics = [replicate 32 2], wl_data = [3],
     wl_block_hash = Some (replicate 32 4), wl_block_number = Some 0,
     wl_transaction_hash = None, wl_transaction_index = None, wl_log_index = Some 7,
     wl_removed = False\<rparr>"

theorem web3_log_round_trip_witness:
  "web3_log_of_proto (web3_log_to_proto sample_log) = Inr sample_log
   \<and> web3_log_of_proto (web3_log_to_proto (sample_log\<lparr>wl_log_index := Some 0\<rparr>))
       \<noteq> Inr (sample_log\<lparr>wl_log_index := Some 0\<rparr>)"
  using web3_log_round_trip [of sample_log]
    web3_log_round_trip [of "sample_log\<lparr>wl_log_index := Some 0\<rparr>"]
  by (simp add: sample_log_def web3_log_sized_def web3_log_survives_def position_survives_def)

text \<open>
  The payload of a worker bundle is used only when the envelope parses, carries the worker
  bundle media type and its base64 payload decodes to the JSON of that payload; a work order
  envelope is never taken for a bundle.
\<close>

theorem bundle_payload_checked:
  assumes "bundle_payload ext b = Inr p"
  shows "\<exists>env raw. envelope_from_json ext (bundle_bytes b) = Inr env
    \<and> dsse_payload_type env = DSSE_WORKER_BUNDLE_PAYLOAD_TYPE
    \<and> dsse_payload_type env \<noteq> DSSE_WORK_ORDER_PAYLOAD_TYPE
    \<and> b64_decode ext (dsse_payload env) = Inr raw \<and> payload_from_json ext raw = Inr p"
  using assms
  by (auto simp: bundle_payload_def bundle_envelope_def result_simps
      DSSE_WORKER_BUNDLE_PAYLOAD_TYPE_def DSSE_WORK_ORDER_PAYLOAD_TYPE_def split: if_splits)

definition sample_bundle_ext :: bundle_ext where
  "sample_bundle_ext =
    \<lparr>envelope_from_json = (\<lambda>bs. if bs = [] then Inl ''EOF'' else
       Inr \<lparr>dsse_payload = ''AA=='', dsse_payload_type = DSSE_WORKER_BUNDLE_PAYLOAD_TYPE,
            dsse_signatures = []\<rparr>),
     payload_from_json = (\<lambda>bs. Inr \<lparr>wb_vm = ''nxcc/workerd'', wb_executable = bs, wb_metadata = []\<rparr>),
     payload_to_json = (\<lambda>p. Inr (wb_executable p)),
     b64_encode = (\<lambda>bs. ''''), b64_decode = (\<lambda>s. if s = ''AA=='' then Inr [0] else Inl ''byte''),
     sha512 = (\<lambda>bs. take 64 (bs @ replicate 64 0))\<rparr>"

theorem bundle_payload_checked_witness:
  "\<exists>env. envelope_from_json sample_bundle_ext [1] = Inr env
    \<and> dsse_payload_type env = DSSE_WORKER_BUNDLE_PAYLOAD_TYPE"
  using bundle_payload_checked [of sample_bundle_ext "WorkerBundle [1]"
      "\<lparr>wb_vm = ''nxcc/workerd'', wb_executable = [0], wb_metadata = []\<rparr>"]
  by (auto simp: sample_bundle_ext_def bundle_payload_def bundle_envelope_def)

end
