(* ===== verification/Freshness.thy ===== *)
theory Freshness
  imports Worker_Types
begin

text \<open>
  Freshness proofs (\<open>src/node/attestation/src/freshness.rs\<close>): the Merkle commitment to a set of
  blocks, its compact form, the service that fetches and verifies proofs and the embedder that
  places them in user data. SHA-256, the clock and the gateway provider are arguments. The gateway
  is a function on a state of its own (\<open>'g\<close>), so two calls may answer differently; a failed
  call is the error's text. \<open>tokio::time::timeout\<close> is the argument \<open>timed_out\<close>.
\<close>

section \<open>Data\<close>

record block_info =
  bi_chain_id :: u64
  bi_chain_name :: string
  bi_block_number :: u64
  bi_block_hash :: bytes
  bi_timestamp :: u64
  bi_fetched_at :: u64

record gateway_config =
  gc_chain_id :: u64
  gc_rpc_url :: string
  gc_ws_url :: "string option"
  gc_name :: string
  gc_is_default :: bool

record block_reference =
  ref_chain_id :: u64
  ref_block_number :: u64

record freshness_config =
  max_block_age_seconds :: u64
  required_chains :: "u64 list"
  min_blocks :: nat
  fc_enabled :: bool
  fetch_timeout_secs :: u64

definition freshness_config_default :: "bool \<Rightarrow> freshness_config" where
  "freshness_config_default env_enabled =
    \<lparr>max_block_age_seconds = 300, required_chains = [1, 137, 56, 10], min_blocks = 2,
     fc_enabled = env_enabled, fetch_timeout_secs = 10\<rparr>"

record chain_config =
  cc_name :: string
  cc_rpc_url :: string
  block_time_seconds :: u64
  confirmations_required :: u64

record freshness_proof =
  fp_blocks :: "block_info list"
  fp_merkle_root :: bytes
  fp_compact :: bytes
  fp_created_at :: u64
  fp_config :: freshness_config

datatype freshness_error =
    InsufficientBlocks nat nat
  | MerkleRootMismatch
  | InsufficientFreshBlocks nat nat
  | NoBlockReturned u64
  | GatewayFailure string
  | BlockTooOld u64 u64 u64 u64
  | CommitmentMismatch
  | CompactTooShort
  | UnsupportedCompactVersion byte
  | InvalidCompactSize nat nat
  | FetchFailed u64 u64

type_synonym 'g gateway = "'g \<Rightarrow> u64 list \<Rightarrow> (string + block_info list) \<times> 'g"

section \<open>The Merkle commitment\<close>

definition block_leaf :: "block_info \<Rightarrow> bytes" where
  "block_leaf b = u64_to_le (bi_chain_id b) @ u64_to_le (bi_block_number b) @ bi_block_hash b"

fun merkle_level :: "(bytes \<Rightarrow> bytes) \<Rightarrow> bytes list \<Rightarrow> bytes list" where
  "merkle_level sha [] = []"
| "merkle_level sha [x] = [sha (x @ x)]"
| "merkle_level sha (x # y # zs) = sha (x @ y) # merkle_level sha zs"

lemma length_merkle_level [simp]: "length (merkle_level sha hs) = (length hs + 1) div 2"
  by (induction sha hs rule: merkle_level.induct) auto

function merkle_reduce :: "(bytes \<Rightarrow> bytes) \<Rightarrow> bytes list \<Rightarrow> bytes list" where
  "merkle_reduce sha hs =
    (if length hs > 1 then merkle_reduce sha (merkle_level sha hs) else hs)"
  by pat_completeness auto
termination by (relation "measure (\<lambda>(sha, hs). length hs)") auto

declare merkle_reduce.simps [simp del]

definition compute_merkle_root :: "(bytes \<Rightarrow> bytes) \<Rightarrow> block_info list \<Rightarrow> bytes" where
  "compute_merkle_root sha blocks =
    (if blocks = [] then replicate 32 0 else
     case merkle_reduce sha (map (\<lambda>b. sha (block_leaf b)) blocks) of
       [] \<Rightarrow> replicate 32 0
     | h # _ \<Rightarrow> h)"

definition create_compact_representation :: "block_info list \<Rightarrow> bytes \<Rightarrow> bytes" where
  "create_compact_representation blocks root =
     1 # word_of_nat (length blocks) # root
     @ concat (map (\<lambda>b. u64_to_le (bi_chain_id b) @ u64_to_le (bi_block_number b)) blocks)"

definition freshness_proof_new ::
  "(bytes \<Rightarrow> bytes) \<Rightarrow> u64 \<Rightarrow> block_info list \<Rightarrow> freshness_config \<Rightarrow> freshness_proof" where
  "freshness_proof_new sha now blocks cfg =
    (let root = compute_merkle_root sha blocks in
     \<lparr>fp_blocks = blocks, fp_merkle_root = root,
      fp_compact = create_compact_representation blocks root, fp_created_at = now,
      fp_config = cfg\<rparr>)"

definition freshness_proof_disabled :: "u64 \<Rightarrow> freshness_proof" where
  "freshness_proof_disabled now =
    \<lparr>fp_blocks = [], fp_merkle_root = replicate 32 0, fp_compact = [], fp_created_at = now,
     fp_config = freshness_config_default False\<rparr>"

definition verify_proof_structure ::
  "(bytes \<Rightarrow> bytes) \<Rightarrow> freshness_proof \<Rightarrow> freshness_error + unit" where
  "verify_proof_structure sha p =
    (if fc_enabled (fp_config p) \<and> length (fp_blocks p) < min_blocks (fp_config p)
     then Inl (InsufficientBlocks (length (fp_blocks p)) (min_blocks (fp_config p)))
     else if compute_merkle_root sha (fp_blocks p) \<noteq> fp_merkle_root p then Inl MerkleRootMismatch
     else Inr ())"

section \<open>The service\<close>

record freshness_service =
  fs_config :: freshness_config
  fs_chain_configs :: "u64 \<rightharpoonup> chain_config"

definition freshness_service_new :: "freshness_config \<Rightarrow> freshness_service" where
  "freshness_service_new cfg = \<lparr>fs_config = cfg, fs_chain_configs = Map.empty\<rparr>"

definition add_chain_config ::
  "u64 \<Rightarrow> chain_config \<Rightarrow> freshness_service \<Rightarrow> freshness_service" where
  "add_chain_config i c s = s\<lparr>fs_chain_configs := (fs_chain_configs s)(i \<mapsto> c)\<rparr>"

definition fetch_chain_block ::
  "'g gateway \<Rightarrow> 'g \<Rightarrow> u64 \<Rightarrow> (freshness_error + block_info) \<times> 'g" where
  "fetch_chain_block gw g c = (case gw g [c] of
      (Inl e, g') \<Rightarrow> (Inl (GatewayFailure e), g')
    | (Inr bs, g') \<Rightarrow> (ok_or (NoBlockReturned c) (find (\<lambda>b. bi_chain_id b = c) bs), g'))"

text \<open>The loop of \<open>fetch_blocks_internal\<close>: a chain that fails is skipped.\<close>

fun fetch_available :: "'g gateway \<Rightarrow> 'g \<Rightarrow> u64 list \<Rightarrow> block_info list \<times> 'g" where
  "fetch_available gw g [] = ([], g)"
| "fetch_available gw g (c # cs) = (case fetch_chain_block gw g c of
      (Inr b, g') \<Rightarrow> (case fetch_available gw g' cs of (bs, g'') \<Rightarrow> (b # bs, g''))
    | (Inl _, g') \<Rightarrow> fetch_available gw g' cs)"

definition fetch_blocks_internal ::
  "freshness_service \<Rightarrow> 'g gateway \<Rightarrow> 'g \<Rightarrow> (freshness_error + block_info list) \<times> 'g" where
  "fetch_blocks_internal s gw g =
    (case fetch_available gw g (required_chains (fs_config s)) of (blocks, g') \<Rightarrow>
     (if length blocks < min_blocks (fs_config s)
      then Inl (InsufficientFreshBlocks (length blocks) (min_blocks (fs_config s)))
      else Inr blocks, g'))"

text \<open>\<open>block_age\<close> is the constant 0 of the source; the warning per chain has no effect.\<close>

fun validate_block_freshness ::
  "freshness_service \<Rightarrow> block_info list \<Rightarrow> freshness_error + unit" where
  "validate_block_freshness s [] = Inr ()"
| "validate_block_freshness s (b # bs) =
    (let block_age = 0 :: u64 in
     if block_age > max_block_age_seconds (fs_config s)
     then Inl (BlockTooOld (bi_block_number b) (bi_chain_id b) block_age
                 (max_block_age_seconds (fs_config s)))
     else validate_block_freshness s bs)"

definition fetch_freshness_proof ::
  "(bytes \<Rightarrow> bytes) \<Rightarrow> u64 \<Rightarrow> bool \<Rightarrow> freshness_service \<Rightarrow> 'g gateway \<Rightarrow> 'g
     \<Rightarrow> freshness_error + freshness_proof" where
  "fetch_freshness_proof sha now timed_out s gw g =
    (if \<not> fc_enabled (fs_config s) then Inr (freshness_proof_disabled now)
     else if timed_out then Inr (freshness_proof_disabled now)
     else case fst (fetch_blocks_internal s gw g) of
         Inr blocks \<Rightarrow> rbind (validate_block_freshness s blocks)
           (\<lambda>_. Inr (freshness_proof_new sha now blocks (fs_config s)))
       | Inl _ \<Rightarrow> Inr (freshness_proof_disabled now))"

text \<open>The loop \<open>for i in 0..num_blocks\<close> of \<open>parse_compact_data\<close>.\<close>

definition parse_ref :: "bytes \<Rightarrow> nat \<Rightarrow> block_reference" where
  "parse_ref data i =
    (let off = 34 + i * 16 in
     \<lparr>ref_chain_id = u64_from_le (subslice data off 8),
      ref_block_number = u64_from_le (subslice data (off + 8) 8)\<rparr>)"

definition parse_compact_data :: "bytes \<Rightarrow> freshness_error + bytes \<times> block_reference list" where
  "parse_compact_data data =
    (if length data < 34 then Inl CompactTooShort
     else if data ! 0 \<noteq> 1 then Inl (UnsupportedCompactVersion (data ! 0))
     else let num_blocks = unat (data ! 1); expected_size = 34 + num_blocks * 16 in
       if length data \<noteq> expected_size then Inl (InvalidCompactSize (length data) expected_size)
       else Inr (subslice data 2 32, map (parse_ref data) [0..<num_blocks]))"

fun fetch_blocks_by_references ::
  "'g gateway \<Rightarrow> 'g \<Rightarrow> block_reference list \<Rightarrow> (freshness_error + block_info list) \<times> 'g" where
  "fetch_blocks_by_references gw g [] = (Inr [], g)"
| "fetch_blocks_by_references gw g (r # rs) = (case fetch_chain_block gw g (ref_chain_id r) of
      (Inr b, g') \<Rightarrow> (case fetch_blocks_by_references gw g' rs of
          (Inr bs, g'') \<Rightarrow> (Inr (b # bs), g'')
        | (Inl e, g'') \<Rightarrow> (Inl e, g''))
    | (Inl _, g') \<Rightarrow> (Inl (FetchFailed (ref_block_number r) (ref_chain_id r)), g'))"

definition verify_freshness_proof ::
  "(bytes \<Rightarrow> bytes) \<Rightarrow> freshness_service \<Rightarrow> 'g gateway \<Rightarrow> 'g \<Rightarrow> freshness_proof
     \<Rightarrow> freshness_error + unit" where
  "verify_freshness_proof sha s gw g p =
    (if \<not> fc_enabled (fp_config p) then Inr () else
     rbind (verify_proof_structure sha p) (\<lambda>_.
     rbind (parse_compact_data (fp_compact p)) (\<lambda>(claimed_root, refs).
     rbind (fst (fetch_blocks_by_references gw g refs)) (\<lambda>actual_blocks.
     rbind (validate_block_freshness s actual_blocks) (\<lambda>_.
     if claimed_root \<noteq> compute_merkle_root sha actual_blocks then Inl CommitmentMismatch
     else Inr ())))))"

section \<open>Embedding in user data\<close>

definition embed_freshness_in_user_data ::
  "(bytes \<Rightarrow> bytes) \<Rightarrow> u64 \<Rightarrow> bool \<Rightarrow> freshness_service \<Rightarrow> 'g gateway \<Rightarrow> 'g \<Rightarrow> bytes \<Rightarrow> nat
     \<Rightarrow> freshness_error + bytes" where
  "embed_freshness_in_user_data sha now timed_out s gw g user_data max_size =
    rbind (fetch_freshness_proof sha now timed_out s gw g) (\<lambda>proof.
    let combined = user_data @ fp_compact proof in
    if length combined \<le> max_size then Inr combined else Inr (sha combined))"

definition reconstruct_proof_from_compact ::
  "(bytes \<Rightarrow> bytes) \<Rightarrow> u64 \<Rightarrow> freshness_service \<Rightarrow> 'g gateway \<Rightarrow> 'g \<Rightarrow> bytes
     \<Rightarrow> (freshness_error + freshness_proof) \<times> 'g" where
  "reconstruct_proof_from_compact sha now s gw g data = (case parse_compact_data data of
      Inl e \<Rightarrow> (Inl e, g)
    | Inr (root, refs) \<Rightarrow> (case fetch_blocks_by_references gw g refs of
          (Inl e, g') \<Rightarrow> (Inl e, g')
        | (Inr blocks, g') \<Rightarrow>
            (Inr ((freshness_proof_new sha now blocks (fs_config s))
               \<lparr>fp_merkle_root := root, fp_compact := data\<rparr>), g')))"

text \<open>The scan over the start positions; \<open>starts\<close> are those still to try.\<close>

fun extract_scan ::
  "(bytes \<Rightarrow> bytes) \<Rightarrow> u64 \<Rightarrow> freshness_service \<Rightarrow> 'g gateway \<Rightarrow> 'g \<Rightarrow> bytes \<Rightarrow> nat list
     \<Rightarrow> freshness_proof option" where
  "extract_scan sha now s gw g ud [] = None"
| "extract_scan sha now s gw g ud (i # starts) =
    (if ud ! i = 1 \<and> i + 1 < length ud \<and> i + (34 + unat (ud ! (i + 1)) * 16) \<le> length ud then
       (case reconstruct_proof_from_compact sha now s gw g
               (subslice ud i (34 + unat (ud ! (i + 1)) * 16)) of
          (Inr proof, _) \<Rightarrow> Some proof
        | (Inl _, g') \<Rightarrow> extract_scan sha now s gw g' ud starts)
     else extract_scan sha now s gw g ud starts)"

definition extract_freshness_from_user_data ::
  "(bytes \<Rightarrow> bytes) \<Rightarrow> u64 \<Rightarrow> freshness_service \<Rightarrow> 'g gateway \<Rightarrow> 'g \<Rightarrow> bytes
     \<Rightarrow> freshness_proof option" where
  "extract_freshness_from_user_data sha now s gw g ud =
    extract_scan sha now s gw g ud [0..<length ud - 34]"

section \<open>The compact form\<close>

definition block_ref :: "block_info \<Rightarrow> block_reference" where
  "block_ref b = \<lparr>ref_chain_id = bi_chain_id b, ref_block_number = bi_block_number b\<rparr>"

definition ref_bytes :: "block_info \<Rightarrow> bytes" where
  "ref_bytes b = u64_to_le (bi_chain_id b) @ u64_to_le (bi_block_number b)"

lemma ref_chain_id_block_ref [simp]: "ref_chain_id (block_ref b) = bi_chain_id b"
  by (simp add: block_ref_def)

lemma length_ref_bytes [simp]: "length (ref_bytes b) = 16"
  by (simp add: ref_bytes_def)

lemma length_concat_ref_bytes: "length (concat (map ref_bytes bs)) = 16 * length bs"
  by (induction bs) auto

lemma subslice_concat_ref:
  "i < length bs \<Longrightarrow> subslice (concat (map ref_bytes bs)) (i * 16) 16 = ref_bytes (bs ! i)"
proof (induction bs arbitrary: i)
  case (Cons b bs)
  show ?case
  proof (cases i)
    case 0
    then show ?thesis by (simp add: subslice_zero)
  next
    case (Suc j)
    then show ?thesis using Cons by (simp add: subslice_append_right)
  qed
qed simp

lemma create_compact_split:
  "create_compact_representation bs root =
     (1 # word_of_nat (length bs) # root) @ concat (map ref_bytes bs)"
  by (simp add: create_compact_representation_def ref_bytes_def [abs_def])

lemma length_create_compact:
  "length root = 32 \<Longrightarrow> length (create_compact_representation bs root) = 34 + 16 * length bs"
  by (simp add: create_compact_split length_concat_ref_bytes)

lemma subslice_subslice:
  "a + n \<le> m \<Longrightarrow> subslice (subslice xs off m) a n = subslice xs (off + a) n"
  by (simp add: subslice_def take_drop min_def add.commute add.left_commute)

lemma parse_ref_create:
  assumes "length root = 32" "i < length bs"
  shows "parse_ref (create_compact_representation bs root) i = block_ref (bs ! i)"
proof -
  let ?d = "create_compact_representation bs root"
  have *: "subslice ?d (34 + i * 16) 16 = ref_bytes (bs ! i)"
    using assms by (simp add: create_compact_split subslice_append_right subslice_concat_ref
        del: append_Cons)
  have "subslice ?d (34 + i * 16) 8 = u64_to_le (bi_chain_id (bs ! i))"
    using subslice_subslice [of 0 8 16 ?d "34 + i * 16"] *
    by (simp add: ref_bytes_def subslice_zero)
  moreover have "subslice ?d (34 + i * 16 + 8) 8 = u64_to_le (bi_block_number (bs ! i))"
    using subslice_subslice [of 8 8 16 ?d "34 + i * 16"] *
    by (simp add: ref_bytes_def subslice_append_right subslice_whole)
  ultimately show ?thesis by (simp add: parse_ref_def block_ref_def Let_def)
qed

lemma unat_block_count: "n < 256 \<Longrightarrow> unat (word_of_nat n :: byte) = n"
  by (simp add: unat_of_nat_byte)

lemma parse_create_compact:
  assumes "length root = 32" "length bs < 256"
  shows "parse_compact_data (create_compact_representation bs root) = Inr (root, map block_ref bs)"
proof -
  let ?d = "create_compact_representation bs root"
  have "map (parse_ref ?d) [0..<length bs] = map block_ref bs"
    using assms(1) by (auto intro: nth_equalityI simp: parse_ref_create)
  moreover have "subslice ?d 2 32 = root" using assms(1)
    by (simp add: create_compact_split subslice_def)
  moreover have "?d ! 0 = 1" "?d ! 1 = word_of_nat (length bs)"
    by (simp_all add: create_compact_split)
  moreover have "length ?d = 34 + length bs * 16" using assms(1) by (simp add: length_create_compact)
  ultimately show ?thesis using assms by (simp add: parse_compact_data_def unat_block_count Let_def)
qed

lemma create_parse_compact:
  assumes "parse_compact_data data = Inr (root, refs)"
  shows "length root = 32 \<and> length refs = unat (data ! 1) \<and> length data = 34 + 16 * length refs"
  using assms by (auto simp: parse_compact_data_def Let_def length_subslice split: if_splits)

section \<open>The Merkle root\<close>

lemma merkle_reduce_ne: "hs \<noteq> [] \<Longrightarrow> \<exists>h. merkle_reduce sha hs = [h]"
proof (induction sha hs rule: merkle_reduce.induct)
  case (1 sha hs)
  show ?case
  proof (cases "length hs > 1")
    case True
    then have "merkle_level sha hs \<noteq> []" using length_merkle_level [of sha hs] by fastforce
    then show ?thesis using 1 True by (simp add: merkle_reduce.simps [of sha hs])
  next
    case False
    with 1(2) obtain h where "hs = [h]" by (cases hs) auto
    then show ?thesis by (simp add: merkle_reduce.simps)
  qed
qed

lemma merkle_level_length_32:
  assumes "digest_size 32 sha"
  shows "list_all (\<lambda>h. length h = 32) (merkle_level sha hs)"
  using assms by (induction sha hs rule: merkle_level.induct) (simp_all add: digest_sizeD)

lemma merkle_reduce_length_32:
  assumes "digest_size 32 sha"
  shows "list_all (\<lambda>h. length h = 32) hs \<Longrightarrow> list_all (\<lambda>h. length h = 32) (merkle_reduce sha hs)"
proof (induction "length hs" arbitrary: hs rule: less_induct)
  case less
  then show ?case
    using merkle_level_length_32 [OF assms, of hs]
    by (cases "length hs > 1") (simp_all add: merkle_reduce.simps [of sha hs])
qed

lemma root_length:
  assumes "digest_size 32 sha"
  shows "length (compute_merkle_root sha bs) = 32"
proof (cases "bs = []")
  case False
  let ?hs = "map (\<lambda>b. sha (block_leaf b)) bs"
  obtain h where h: "merkle_reduce sha ?hs = [h]" using False merkle_reduce_ne [of ?hs] by auto
  have "list_all (\<lambda>h. length h = 32) ?hs" using assms by (simp add: list_all_iff digest_sizeD)
  from merkle_reduce_length_32 [OF assms this] h False show ?thesis
    by (simp add: compute_merkle_root_def)
qed (simp add: compute_merkle_root_def)

text \<open>The byte strings that are hashed on the way to the root.\<close>

fun level_inputs :: "bytes list \<Rightarrow> bytes list" where
  "level_inputs [] = []"
| "level_inputs [x] = [x @ x]"
| "level_inputs (x # y # zs) = (x @ y) # level_inputs zs"

function merkle_inputs :: "(bytes \<Rightarrow> bytes) \<Rightarrow> bytes list \<Rightarrow> bytes list" where
  "merkle_inputs sha hs =
    (if length hs > 1 then level_inputs hs @ merkle_inputs sha (merkle_level sha hs) else [])"
  by pat_completeness auto
termination by (relation "measure (\<lambda>(sha, hs). length hs)") auto

declare merkle_inputs.simps [simp del]

definition root_inputs :: "(bytes \<Rightarrow> bytes) \<Rightarrow> block_info list \<Rightarrow> bytes set" where
  "root_inputs sha bs =
     set (map block_leaf bs) \<union> set (merkle_inputs sha (map (\<lambda>b. sha (block_leaf b)) bs))"

lemma merkle_level_inputs: "merkle_level sha hs = map sha (level_inputs hs)"
  by (induction hs rule: level_inputs.induct) auto

lemma level_inputs_inj:
  assumes "length hs = length hs'" "list_all (\<lambda>h. length h = n) hs"
    "list_all (\<lambda>h. length h = n) hs'" "level_inputs hs = level_inputs hs'"
  shows "hs = hs'"
  using assms
proof (induction hs arbitrary: hs' rule: level_inputs.induct)
  case (2 x)
  then show ?case by (cases hs') auto
next
  case (3 x y zs)
  then obtain x' y' zs' where "hs' = x' # y' # zs'"
    by (metis length_Suc_conv)
  with 3 show ?case by auto
qed simp

lemma map_inj_on_eq:
  "map f xs = map f ys \<Longrightarrow> inj_on f (set xs \<union> set ys) \<Longrightarrow> xs = ys"
  by (metis map_inj_on)

lemma merkle_reduce_step:
  "length hs > 1 \<Longrightarrow> merkle_reduce sha hs = merkle_reduce sha (merkle_level sha hs)"
  by (simp add: merkle_reduce.simps [of sha hs])

lemma merkle_reduce_done: "\<not> length hs > 1 \<Longrightarrow> merkle_reduce sha hs = hs"
  by (simp add: merkle_reduce.simps [of sha hs])

lemma merkle_inputs_step:
  "length hs > 1 \<Longrightarrow>
     set (merkle_inputs sha hs) = set (level_inputs hs) \<union> set (merkle_inputs sha (merkle_level sha hs))"
  by (simp add: merkle_inputs.simps [of sha hs])

lemma merkle_reduce_inj:
  assumes "digest_size 32 sha"
  shows "length hs = length hs' \<Longrightarrow> list_all (\<lambda>h. length h = 32) hs \<Longrightarrow>
    list_all (\<lambda>h. length h = 32) hs' \<Longrightarrow>
    inj_on sha (set (merkle_inputs sha hs) \<union> set (merkle_inputs sha hs')) \<Longrightarrow>
    merkle_reduce sha hs = merkle_reduce sha hs' \<Longrightarrow> hs = hs'"
proof (induction "length hs" arbitrary: hs hs' rule: less_induct)
  case less
  show ?case
  proof (cases "length hs > 1")
    case True
    with less.prems(1) have two: "length hs > 1" "length hs' > 1" by simp_all
    let ?l = "merkle_level sha hs" and ?l' = "merkle_level sha hs'"
    note inj = less.prems(4) [unfolded two [THEN merkle_inputs_step]]
    have "?l = ?l'"
    proof (rule less.hyps)
      show "length ?l < length hs" using two by simp
      show "length ?l = length ?l'" using less.prems(1) by simp
      show "list_all (\<lambda>h. length h = 32) ?l" "list_all (\<lambda>h. length h = 32) ?l'"
        by (rule merkle_level_length_32 [OF assms])+
      show "inj_on sha (set (merkle_inputs sha ?l) \<union> set (merkle_inputs sha ?l'))"
        using inj by (rule inj_on_subset) blast
      show "merkle_reduce sha ?l = merkle_reduce sha ?l'"
        using less.prems(5) by (simp only: two [THEN merkle_reduce_step])
    qed
    moreover have "inj_on sha (set (level_inputs hs) \<union> set (level_inputs hs'))"
      using inj by (rule inj_on_subset) blast
    ultimately have "level_inputs hs = level_inputs hs'"
      unfolding merkle_level_inputs by (rule map_inj_on_eq)
    with less.prems(1-3) show ?thesis by (rule level_inputs_inj)
  next
    case False
    with less.prems(1,5) show ?thesis by (simp add: merkle_reduce_done)
  qed
qed

lemma block_leaf_inj:
  "block_leaf b = block_leaf b' \<longleftrightarrow>
     bi_chain_id b = bi_chain_id b' \<and> bi_block_number b = bi_block_number b'
     \<and> bi_block_hash b = bi_block_hash b'"
  by (auto simp: block_leaf_def u64_to_le_inj)

lemma root_reduce:
  "bs \<noteq> [] \<Longrightarrow>
     merkle_reduce sha (map (\<lambda>b. sha (block_leaf b)) bs) = [compute_merkle_root sha bs]"
  using merkle_reduce_ne [of "map (\<lambda>b. sha (block_leaf b)) bs" sha]
  by (auto simp: compute_merkle_root_def)

lemma root_inj:
  assumes "digest_size 32 sha" "length bs = length bs'"
    and "inj_on sha (root_inputs sha bs \<union> root_inputs sha bs')"
    and "compute_merkle_root sha bs = compute_merkle_root sha bs'"
  shows "map block_leaf bs = map block_leaf bs'"
proof (cases "bs = []")
  case False
  let ?h = "\<lambda>bs. map (\<lambda>b. sha (block_leaf b)) bs"
  have "?h bs = ?h bs'"
  proof (rule merkle_reduce_inj [OF assms(1)])
    show "inj_on sha (set (merkle_inputs sha (?h bs)) \<union> set (merkle_inputs sha (?h bs')))"
      using assms(3) by (rule inj_on_subset) (auto simp: root_inputs_def)
    show "merkle_reduce sha (?h bs) = merkle_reduce sha (?h bs')"
      using False assms(2,4) by (subst (1 2) root_reduce) auto
  qed (use assms(1,2) in \<open>auto simp: list_all_iff digest_sizeD\<close>)
  then have "map sha (map block_leaf bs) = map sha (map block_leaf bs')" by (simp add: comp_def)
  moreover have "inj_on sha (set (map block_leaf bs) \<union> set (map block_leaf bs'))"
    using assms(3) by (rule inj_on_subset) (auto simp: root_inputs_def)
  ultimately show ?thesis by (rule map_inj_on_eq)
qed (use assms(2) in simp)

lemma odd_level_dup:
  "odd (length hs) \<Longrightarrow> merkle_level sha (hs @ [last hs]) = merkle_level sha hs"
proof (induction sha hs rule: merkle_level.induct)
  case (3 sha x y zs)
  then show ?case by (cases zs) auto
qed auto

lemma merkle_reduce_dup:
  assumes "odd (length hs)" "length hs > 1"
  shows "merkle_reduce sha (hs @ [last hs]) = merkle_reduce sha hs"
  using assms(2) odd_level_dup [OF assms(1), of sha]
    merkle_reduce_step [of hs sha] merkle_reduce_step [of "hs @ [last hs]" sha]
  by (cases hs) simp_all

lemma root_dup:
  assumes "odd (length bs)" "length bs > 1"
  shows "compute_merkle_root sha (bs @ [last bs]) = compute_merkle_root sha bs"
proof -
  let ?h = "map (\<lambda>b. sha (block_leaf b))"
  have "bs \<noteq> []" using assms by auto
  then have "?h (bs @ [last bs]) = ?h bs @ [last (?h bs)]" by (simp add: last_map)
  then have "merkle_reduce sha (?h (bs @ [last bs])) = merkle_reduce sha (?h bs)"
    using merkle_reduce_dup [of "?h bs" sha] assms by simp
  with \<open>bs \<noteq> []\<close> show ?thesis by (simp add: compute_merkle_root_def)
qed

section \<open>The service\<close>

lemma validate_ok [simp]: "validate_block_freshness s bs = Inr ()"
  by (induction bs) (simp_all add: Let_def)

lemma fetch_chain_block_chain:
  "fetch_chain_block gw g c = (Inr b, g') \<Longrightarrow> bi_chain_id b = c"
  by (auto simp: fetch_chain_block_def ok_or_Inr_iff find_Some_iff split: prod.splits sum.splits)

lemma length_fetch_available: "length (fst (fetch_available gw g cs)) \<le> length cs"
proof (induction cs arbitrary: g)
  case (Cons c cs)
  show ?case
  proof (cases "fetch_chain_block gw g c")
    case (Pair r g')
    then show ?thesis using Cons.IH [of g']
      by (cases r; cases "fetch_available gw g' cs") auto
  qed
qed simp

text \<open>A gateway that gives the same answer to every call about a chain.\<close>

definition steady :: "'g gateway \<Rightarrow> bool" where
  "steady gw \<longleftrightarrow> (\<forall>g g' cs. fst (gw g cs) = fst (gw g' cs))"

lemma fst_fetch_chain_block:
  "fst (fetch_chain_block gw g c) = (case fst (gw g [c]) of
      Inl e \<Rightarrow> Inl (GatewayFailure e)
    | Inr bs \<Rightarrow> ok_or (NoBlockReturned c) (find (\<lambda>b. bi_chain_id b = c) bs))"
  by (simp add: fetch_chain_block_def split: prod.split sum.split)

lemma steady_fetch: "steady gw \<Longrightarrow> fst (fetch_chain_block gw g c) = fst (fetch_chain_block gw g' c)"
  unfolding fst_fetch_chain_block steady_def by (metis (no_types))

lemma fetch_by_references_steady:
  assumes "steady gw"
    and "\<And>b. b \<in> set bs \<Longrightarrow> fst (fetch_chain_block gw g0 (bi_chain_id b)) = Inr b"
  shows "fst (fetch_blocks_by_references gw g (map block_ref bs)) = Inr bs"
  using assms(2)
proof (induction bs arbitrary: g)
  case (Cons b bs)
  obtain g' where "fetch_chain_block gw g (bi_chain_id b) = (Inr b, g')"
    using steady_fetch [OF assms(1), of g "bi_chain_id b" g0] Cons.prems [of b]
    by (metis list.set_intros(1) prod.collapse)
  moreover have "fst (fetch_blocks_by_references gw g' (map block_ref bs)) = Inr bs"
    using Cons by simp
  ultimately show ?case
    by (cases "fetch_blocks_by_references gw g' (map block_ref bs)") simp
qed simp

lemma fetch_available_blocks:
  assumes "steady gw" "b \<in> set (fst (fetch_available gw g cs))"
  shows "fst (fetch_chain_block gw g0 (bi_chain_id b)) = Inr b"
  using assms(2)
proof (induction cs arbitrary: g)
  case (Cons c cs)
  show ?case
  proof (cases "fetch_chain_block gw g c")
    case (Pair r g')
    show ?thesis
    proof (cases r)
      case (Inr b')
      with Pair have "bi_chain_id b' = c" by (auto dest: fetch_chain_block_chain)
      then have "fst (fetch_chain_block gw g0 (bi_chain_id b')) = Inr b'"
        using steady_fetch [OF assms(1), of g0 c g] Pair Inr by simp
      then show ?thesis using Cons Pair Inr
        by (cases "fetch_available gw g' cs") (use Cons.IH [of g'] in auto)
    qed (use Cons Pair in auto)
  qed
qed simp

lemma fetch_by_references_length:
  "fst (fetch_blocks_by_references gw g refs) = Inr bs \<Longrightarrow> length bs = length refs"
proof (induction refs arbitrary: g bs)
  case (Cons r refs)
  obtain q g' where q: "fetch_chain_block gw g (ref_chain_id r) = (q, g')" by fastforce
  obtain q' g'' where q': "fetch_blocks_by_references gw g' refs = (q', g'')" by fastforce
  show ?case using Cons.IH [of g'] Cons.prems q q'
    by (cases q; cases q') auto
qed simp

lemma verify_Inr_iff:
  "verify_freshness_proof sha s gw g p = Inr () \<longleftrightarrow>
     \<not> fc_enabled (fp_config p) \<or>
     (verify_proof_structure sha p = Inr () \<and>
      (\<exists>root refs blocks. parse_compact_data (fp_compact p) = Inr (root, refs)
         \<and> fst (fetch_blocks_by_references gw g refs) = Inr blocks
         \<and> root = compute_merkle_root sha blocks))"
  by (auto simp: verify_freshness_proof_def rbind_Inr_iff split: if_splits)

lemma fetched_proof_verifies:
  assumes sha: "digest_size 32 sha" and st: "steady gw"
    and few: "length (required_chains (fs_config s)) < 256"
    and ok: "fetch_freshness_proof sha now t s gw g = Inr p"
  shows "verify_freshness_proof sha s' gw g' p = Inr ()"
proof (cases "fc_enabled (fp_config p)")
  case False
  then show ?thesis by (simp add: verify_Inr_iff)
next
  case True
  with ok obtain blocks where bl: "fst (fetch_blocks_internal s gw g) = Inr blocks"
    and p: "p = freshness_proof_new sha now blocks (fs_config s)"
    by (auto simp: fetch_freshness_proof_def freshness_proof_disabled_def
        freshness_config_default_def split: if_splits sum.splits)
  from bl have av: "blocks = fst (fetch_available gw g (required_chains (fs_config s)))"
    and mn: "\<not> length blocks < min_blocks (fs_config s)"
    by (auto simp: fetch_blocks_internal_def split: prod.splits if_splits)
  have "length blocks < 256" using few length_fetch_available [of gw g] av
    by (metis le_less_trans)
  then have "parse_compact_data (fp_compact p) = Inr (compute_merkle_root sha blocks, map block_ref blocks)"
    unfolding p by (simp add: freshness_proof_new_def Let_def parse_create_compact root_length [OF sha])
  moreover have "fst (fetch_blocks_by_references gw g' (map block_ref blocks)) = Inr blocks"
    using st fetch_available_blocks [OF st] av by (intro fetch_by_references_steady) auto
  moreover have "verify_proof_structure sha p = Inr ()"
    using mn by (simp add: p verify_proof_structure_def freshness_proof_new_def Let_def)
  ultimately show ?thesis by (auto simp: verify_Inr_iff)
qed

lemma verify_binds_blocks:
  assumes sha: "digest_size 32 sha" and few: "length bs < 256"
    and en: "fc_enabled (fp_config p)"
    and cp: "fp_compact p = create_compact_representation bs (compute_merkle_root sha bs)"
    and ok: "verify_freshness_proof sha s gw g p = Inr ()"
  shows "\<exists>actual. fst (fetch_blocks_by_references gw g (map block_ref bs)) = Inr actual
    \<and> length actual = length bs \<and> compute_merkle_root sha actual = compute_merkle_root sha bs
    \<and> (inj_on sha (root_inputs sha bs \<union> root_inputs sha actual) \<longrightarrow>
         map block_leaf actual = map block_leaf bs)"
proof -
  have "parse_compact_data (fp_compact p) = Inr (compute_merkle_root sha bs, map block_ref bs)"
    unfolding cp using few by (intro parse_create_compact root_length sha)
  with ok en obtain actual where
    a: "fst (fetch_blocks_by_references gw g (map block_ref bs)) = Inr actual"
      "compute_merkle_root sha bs = compute_merkle_root sha actual"
    by (auto simp: verify_Inr_iff)
  have len: "length actual = length bs" using fetch_by_references_length [OF a(1)] by simp
  have "map block_leaf actual = map block_leaf bs"
    if "inj_on sha (root_inputs sha bs \<union> root_inputs sha actual)"
    using root_inj [OF sha len [symmetric] that a(2)] by simp
  with a len show ?thesis by auto
qed

text \<open>The compact form of no blocks at all.\<close>

lemma empty_compact_verifies:
  assumes "min_blocks cfg \<le> length fake"
  shows "verify_freshness_proof sha s gw g
     \<lparr>fp_blocks = fake, fp_merkle_root = compute_merkle_root sha fake,
      fp_compact = 1 # 0 # replicate 32 0, fp_created_at = t, fp_config = cfg\<rparr> = Inr ()"
proof -
  have "parse_compact_data (1 # 0 # replicate 32 0) = Inr (replicate 32 0, [])"
    using parse_create_compact [of "replicate 32 0" "[]"]
    by (simp add: create_compact_representation_def)
  then show ?thesis using assms
    by (auto simp: verify_Inr_iff verify_proof_structure_def compute_merkle_root_def)
qed

lemma extract_scan_skip:
  "(\<And>i. i \<in> set is \<Longrightarrow> ud ! i \<noteq> 1) \<Longrightarrow>
     extract_scan sha now s gw g ud (is @ js) = extract_scan sha now s gw g ud js"
  by (induction "is") auto

lemma reconstruct_create:
  assumes sha: "digest_size 32 sha" and st: "steady gw" and few: "length bs < 256"
    and known: "\<And>b. b \<in> set bs \<Longrightarrow> fst (fetch_chain_block gw g0 (bi_chain_id b)) = Inr b"
  shows "fst (reconstruct_proof_from_compact sha now s gw g
            (create_compact_representation bs (compute_merkle_root sha bs)))
         = Inr (freshness_proof_new sha now bs (fs_config s))"
proof -
  let ?root = "compute_merkle_root sha bs"
  obtain g' where "fetch_blocks_by_references gw g (map block_ref bs) = (Inr bs, g')"
    using fetch_by_references_steady [OF st known, of bs g] by (metis prod.collapse)
  moreover have "parse_compact_data (create_compact_representation bs ?root)
      = Inr (?root, map block_ref bs)"
    using few by (intro parse_create_compact root_length sha)
  ultimately show ?thesis
    by (simp add: reconstruct_proof_from_compact_def freshness_proof_new_def Let_def)
qed

lemma extract_embedded:
  assumes sha: "digest_size 32 sha" and st: "steady gw"
    and bs: "0 < length bs" "length bs < 256"
    and known: "\<And>b. b \<in> set bs \<Longrightarrow> fst (fetch_chain_block gw g0 (bi_chain_id b)) = Inr b"
    and clean: "1 \<notin> set ud"
  shows "extract_freshness_from_user_data sha now s gw g
      (ud @ create_compact_representation bs (compute_merkle_root sha bs))
      = Some (freshness_proof_new sha now bs (fs_config s))"
proof -
  define c where "c = create_compact_representation bs (compute_merkle_root sha bs)"
  have lc: "length c = 34 + 16 * length bs"
    unfolding c_def by (intro length_create_compact root_length sha)
  have c0: "c ! 0 = 1" "unat (c ! 1) = length bs"
    using bs by (simp_all add: c_def create_compact_split unat_block_count)
  have at: "(ud @ c) ! length ud = 1" "unat ((ud @ c) ! (length ud + 1)) = length bs"
    using c0 by (simp_all add: nth_append)
  have sl: "subslice (ud @ c) (length ud) (34 + length bs * 16) = c"
    using lc by (simp add: subslice_append_right subslice_whole)
  obtain js where split: "[0..<length (ud @ c) - 34] = [0..<length ud] @ length ud # js"
    using lc bs upt_add_eq_append [of 0 "length ud" "16 * length bs"]
    by (simp add: upt_rec [of "length ud" "length ud + 16 * length bs"])
  have "extract_scan sha now s gw g (ud @ c) [0..<length (ud @ c) - 34]
      = extract_scan sha now s gw g (ud @ c) (length ud # js)"
    unfolding split using clean by (intro extract_scan_skip) (auto simp: nth_append in_set_conv_nth)
  also have "\<dots> = Some (freshness_proof_new sha now bs (fs_config s))"
    using reconstruct_create [OF sha st bs(2) known, of now s g] at lc sl
    by (cases "reconstruct_proof_from_compact sha now s gw g c") (simp add: c_def)
  finally show ?thesis by (simp add: extract_freshness_from_user_data_def c_def)
qed

section \<open>Properties\<close>

definition sample_sha :: "bytes \<Rightarrow> bytes" where
  "sample_sha bs = take 32 (bs @ replicate 32 0)"

lemma sample_sha_size: "digest_size 32 sample_sha"
  using digest_size_const [of 32] by (simp add: sample_sha_def [abs_def])

definition sample_block :: "u64 \<Rightarrow> block_info" where
  "sample_block c = \<lparr>bi_chain_id = c, bi_chain_name = ''chain'', bi_block_number = 7,
     bi_block_hash = [1, 2, 3], bi_timestamp = 0, bi_fetched_at = 0\<rparr>"

definition sample_gateway :: "unit gateway" where
  "sample_gateway g cs = (Inr (map sample_block cs), g)"

definition sample_service :: freshness_service where
  "sample_service = freshness_service_new (freshness_config_default True)"

lemma sample_gateway_steady: "steady sample_gateway"
  by (simp add: steady_def sample_gateway_def)

lemma sample_gateway_block: "fetch_chain_block sample_gateway g c = (Inr (sample_block c), g)"
  by (simp add: fetch_chain_block_def sample_gateway_def sample_block_def)

lemma sample_fetch:
  "fetch_freshness_proof sample_sha 9 False sample_service sample_gateway ()
   = Inr (freshness_proof_new sample_sha 9 (map sample_block [1, 137, 56, 10])
        (fs_config sample_service))"
  by (simp add: fetch_freshness_proof_def fetch_blocks_internal_def sample_service_def
      freshness_service_new_def freshness_config_default_def sample_gateway_block)

text \<open>
  A freshness proof that the service hands out verifies: against a gateway that still gives the
  same blocks, every proof that \<open>fetch_freshness_proof\<close> returns (for fewer than 256 required
  chains) is accepted by \<open>verify_freshness_proof\<close>, also when it is the disabled fallback.
\<close>

theorem freshness_complete:
  assumes "digest_size 32 sha" "steady gw" "length (required_chains (fs_config s)) < 256"
    and "fetch_freshness_proof sha now timed_out s gw g = Inr p"
  shows "verify_freshness_proof sha s' gw g' p = Inr ()"
  using assms by (rule fetched_proof_verifies)

theorem freshness_complete_witness:
  "verify_freshness_proof sample_sha sample_service sample_gateway ()
     (freshness_proof_new sample_sha 9 (map sample_block [1, 137, 56, 10])
        (fs_config sample_service)) = Inr ()"
  by (rule freshness_complete [OF sample_sha_size sample_gateway_steady _ sample_fetch])
    (simp add: sample_service_def freshness_service_new_def freshness_config_default_def)



text \<open>
  Writing the compact form and parsing it back gives the root and the block references, for
  fewer than 256 blocks; for 256 blocks the count byte wraps to 0 and the parser rejects the bytes
  by their size.
\<close>

theorem compact_round_trip:
  assumes "length root = 32"
  shows "(length bs < 256 \<longrightarrow>
      parse_compact_data (create_compact_representation bs root) = Inr (root, map block_ref bs))
    \<and> (length bs = 256 \<longrightarrow>
      parse_compact_data (create_compact_representation bs root) = Inl (InvalidCompactSize 4130 34))"
proof -
  have "parse_compact_data (create_compact_representation bs root) = Inl (InvalidCompactSize 4130 34)"
    if n: "length bs = 256"
  proof -
    have "(word_of_nat (length bs) :: byte) = 0" by (simp add: n word_unat_eq_iff)
    then show ?thesis using assms n length_create_compact [OF assms, of bs]
      by (simp add: parse_compact_data_def create_compact_split Let_def)
  qed
  then show ?thesis using parse_create_compact [OF assms] by blast
qed

theorem compact_round_trip_witness:
  "parse_compact_data (create_compact_representation [sample_block 5] (replicate 32 3))
     = Inr (replicate 32 3, [block_ref (sample_block 5)])
   \<and> parse_compact_data (create_compact_representation (replicate 256 (sample_block 5)) (replicate 32 3))
     = Inl (InvalidCompactSize 4130 34)"
  using compact_round_trip [of "replicate 32 3" "[sample_block 5]"]
    compact_round_trip [of "replicate 32 3" "replicate 256 (sample_block 5)"] by simp

text \<open>
  Embedding and extracting: user data without the version byte, followed by the compact form of
  a non-empty set of blocks that the gateway still returns, gives back the proof for these blocks.
\<close>

theorem embed_extract:
  assumes "digest_size 32 sha" "steady gw" "0 < length bs" "length bs < 256" "1 \<notin> set ud"
    and "\<And>b. b \<in> set bs \<Longrightarrow> fst (fetch_chain_block gw g0 (bi_chain_id b)) = Inr b"
  shows "extract_freshness_from_user_data sha now s gw g
      (ud @ fp_compact (freshness_proof_new sha t bs cfg))
      = Some (freshness_proof_new sha now bs (fs_config s))"
  using extract_embedded [OF assms(1-4) assms(6,5)]
  by (simp add: freshness_proof_new_def Let_def)

theorem embed_extract_witness:
  "extract_freshness_from_user_data sample_sha 9 sample_service sample_gateway ()
      ([5, 6] @ fp_compact (freshness_proof_new sample_sha 8 [sample_block 3] (fs_config sample_service)))
   = Some (freshness_proof_new sample_sha 9 [sample_block 3] (fs_config sample_service))"
  by (rule embed_extract [OF sample_sha_size sample_gateway_steady, where g0 = "()"])
    (auto simp: sample_gateway_block sample_block_def)

text \<open>
  The minimum number of blocks is checked on the blocks listed in the proof and not on the
  references in its compact form, and the two are not compared: a proof with enough invented blocks
  and the compact form of no blocks is accepted under every configuration, by every verifier and
  for every gateway.
\<close>

theorem freshness_empty_commitment_accepted:
  assumes "min_blocks cfg \<le> length fake"
  shows "verify_freshness_proof sha s gw g
     \<lparr>fp_blocks = fake, fp_merkle_root = compute_merkle_root sha fake,
      fp_compact = 1 # 0 # replicate 32 0, fp_created_at = t, fp_config = cfg\<rparr> = Inr ()"
  using assms by (rule empty_compact_verifies)

theorem freshness_empty_commitment_accepted_witness:
  "verify_freshness_proof sample_sha sample_service (\<lambda>g cs. (Inl ''down'', g)) ()
     \<lparr>fp_blocks = replicate 2 (sample_block 1),
      fp_merkle_root = compute_merkle_root sample_sha (replicate 2 (sample_block 1)),
      fp_compact = 1 # 0 # replicate 32 0, fp_created_at = 0,
      fp_config = freshness_config_default True\<rparr> = Inr ()"
  by (rule freshness_empty_commitment_accepted) (simp add: freshness_config_default_def)

text \<open>
  The root does not determine the number of blocks: because an odd level repeats its last hash,
  an odd number of at least three blocks and the same blocks with the last one repeated have the
  same root.
\<close>

theorem merkle_root_repeated_last:
  assumes "odd (length bs)" "length bs > 1"
  shows "compute_merkle_root sha (bs @ [last bs]) = compute_merkle_root sha bs"
  using assms by (rule root_dup)

theorem merkle_root_repeated_last_witness:
  "compute_merkle_root sample_sha (map sample_block [1, 2, 3, 3])
   = compute_merkle_root sample_sha (map sample_block [1, 2, 3])"
  using merkle_root_repeated_last [of "map sample_block [1, 2, 3]" sample_sha] by simp

end
