(* ===== verification/Attestation.thy ===== *)
theory Attestation
  imports Tdx_Simulator Freshness
begin

text \<open>
  The attestation service (\<open>src/node/attestation/src/lib.rs\<close>), the binding of user data
  (\<open>user_data_binding.rs\<close>), the two providers (\<open>providers/null.rs\<close>, \<open>providers/tdx_qvl.rs\<close>) and
  the enclave's wrapper (\<open>src/node/enclave/src/attestation.rs\<close>).

  A \<open>Box<dyn AttestationProvider>\<close> is a value of a provider type \<open>'p\<close> together with the table of
  its trait methods (\<open>provider_ops\<close>). CBOR, JSON, SHA-256 and Intel's \<open>dcap-qvl\<close> are the fields
  of \<open>att_ext\<close>; random draws and the clock are arguments. Errors of the \<open>anyhow\<close> kind that the
  code only prints are their texts.
\<close>

unbundle bit_operations_syntax

section \<open>User data\<close>

record user_data =
  ephemeral_public_key :: bytes
  block_hashes :: "block_info list"

record null_evidence =
  ne_userdata_hash :: bytes
  ne_ephemeral_key :: bytes
  ne_nonce :: "bytes option"

record dcap_report =
  dr_mr_td :: bytes
  dr_rt_mr0 :: bytes
  dr_rt_mr1 :: bytes
  dr_rt_mr2 :: bytes
  dr_rt_mr3 :: bytes
  dr_mr_config_id :: bytes
  dr_mr_owner :: bytes
  dr_mr_seam :: bytes
  dr_td_attributes :: bytes
  dr_tee_tcb_svn :: bytes
  dr_report_data :: bytes

datatype dcap_report_kind = TD10 dcap_report | TD15 dcap_report | SgxEnclave

record 'c att_ext =
  sha256 :: "bytes \<Rightarrow> bytes"
  userdata_to_cbor :: "user_data \<Rightarrow> string + bytes"
  userdata_from_cbor :: "bytes \<Rightarrow> string + user_data"
  evidence_to_json :: "null_evidence \<Rightarrow> string + bytes"
  evidence_from_json :: "bytes \<Rightarrow> string + null_evidence"
  get_collateral :: "string \<Rightarrow> bytes \<Rightarrow> string + 'c"
  dcap_verify :: "bytes \<Rightarrow> 'c \<Rightarrow> u64 \<Rightarrow> string + dcap_report_kind \<times> string"

definition user_data_new :: "bytes \<Rightarrow> block_info list \<Rightarrow> user_data" where
  "user_data_new key blocks = \<lparr>ephemeral_public_key = key, block_hashes = blocks\<rparr>"

definition hash_userdata :: "'c att_ext \<Rightarrow> bytes \<Rightarrow> bytes" where
  "hash_userdata ext ud = sha256 ext ud"

section \<open>The null provider\<close>

definition null_evidence_new :: "bytes \<Rightarrow> bytes \<Rightarrow> bytes \<Rightarrow> null_evidence" where
  "null_evidence_new nonce h key =
    \<lparr>ne_userdata_hash = h, ne_ephemeral_key = key, ne_nonce = Some nonce\<rparr>"

definition null_evidence_new_deterministic :: "bytes \<Rightarrow> bytes \<Rightarrow> null_evidence" where
  "null_evidence_new_deterministic h key =
    \<lparr>ne_userdata_hash = h, ne_ephemeral_key = key, ne_nonce = None\<rparr>"

definition extract_ephemeral_key_from_userdata ::
  "'c att_ext \<Rightarrow> bytes \<Rightarrow> string + bytes" where
  "extract_ephemeral_key_from_userdata ext ud =
    rbind (userdata_from_cbor ext ud) (\<lambda>u.
    if length (ephemeral_public_key u) \<noteq> 32 then Inl ''Invalid ephemeral key length''
    else Inr (ephemeral_public_key u))"

text \<open>What a provider draws or reads when it builds claims: the clock and two measurements.\<close>

record claim_draws =
  cd_now :: u64
  cd_platform :: bytes
  cd_application :: bytes

definition create_null_claims :: "claim_draws \<Rightarrow> bytes \<Rightarrow> standardized_claims" where
  "create_null_claims d h =
    StandardizedClaims (cd_now d) (Some h) None None (Some ''nxcc-null'') (Some ''null'')
      (Some ''1.0'') 0 (Some True) (Some ''nxcc-null-attestation'') (Some ''1.0'') None
      [Measurement (cd_platform d) ''sha-256'' (Some ''platform'') (Some ''nxcc'') (Some ''1.0''),
       Measurement (cd_application d) ''sha-384'' (Some ''application'') (Some ''nxcc-null'')
         (Some ''1.0'')]
      None None None None None None None ''urn:nxcc:profile:null-v1'' None"

definition null_verify_attestation ::
  "'c att_ext \<Rightarrow> claim_draws \<Rightarrow> attestation_bundle \<Rightarrow> string + verification_result" where
  "null_verify_attestation ext d bundle =
    (if platform_type (ab_raw bundle) \<noteq> ''null'' then Inr Unsupported else
     case evidence_from_json ext (evidence (ab_raw bundle)) of
       Inl e \<Rightarrow> Inr (Failed (''Failed to parse null attestation evidence: '' @ e))
     | Inr ev \<Rightarrow>
       (case extract_ephemeral_key_from_userdata ext (detached_userdata bundle) of
          Inl _ \<Rightarrow> Inr (Failed ''Failed to parse requester userdata'')
        | Inr key \<Rightarrow>
          let h = hash_userdata ext (detached_userdata bundle) in
          if ne_userdata_hash ev \<noteq> h
          then Inr (Failed ''Userdata hash mismatch in null attestation'')
          else if ne_ephemeral_key ev \<noteq> key
          then Inr (Failed ''Ephemeral key mismatch between evidence and userdata'')
          else Inr (Verified (create_null_claims d h))))"

section \<open>The TDX provider\<close>

text \<open>\<open>str::contains\<close>\<close>

fun str_contains :: "string \<Rightarrow> string \<Rightarrow> bool" where
  "str_contains pat [] = (pat = [])"
| "str_contains pat (c # cs) = (take (length pat) (c # cs) = pat \<or> str_contains pat cs)"

definition claims_of_report :: "dcap_report \<Rightarrow> string \<Rightarrow> tdx_attestation_claims" where
  "claims_of_report r status =
    \<lparr>tc_mrtd = dr_mr_td r, tc_rtmr0 = dr_rt_mr0 r, tc_rtmr1 = dr_rt_mr1 r, tc_rtmr2 = dr_rt_mr2 r,
     tc_rtmr3 = dr_rt_mr3 r, tc_mr_config_id = dr_mr_config_id r, tc_mr_owner = dr_mr_owner r,
     tc_mr_seam = dr_mr_seam r,
     tc_debug_enabled = ((dr_td_attributes r ! 0) AND 1 \<noteq> 0),
     tc_td_attributes = u64_from_le (take 8 (dr_td_attributes r)),
     tc_seam_attributes = 0, tc_tcb_svn = dr_tee_tcb_svn r,
     tc_report_data = dr_report_data r, tc_user_data = [],
     tc_ephemeral_key =
       (if list_ex (\<lambda>b. b \<noteq> 0) (take 32 (dr_report_data r)) then Some (take 32 (dr_report_data r))
        else None),
     tc_quote_version = 4, tc_tee_type = 0x81, tc_att_key_type = 2,
     tc_has_valid_signature = (status = ''UpToDate''), tc_signature_present = True,
     tc_cert_chain_present = True\<rparr>"

definition verify_with_dcap_qvl ::
  "'c att_ext \<Rightarrow> string \<Rightarrow> u64 \<Rightarrow> bytes \<Rightarrow> string + tdx_attestation_claims" where
  "verify_with_dcap_qvl ext pccs_url now quote =
    rbind (map_err (\<lambda>e. ''Failed to get collateral: '' @ e) (get_collateral ext pccs_url quote)) (\<lambda>col.
    rbind (map_err (\<lambda>e. ''Quote verification failed: '' @ e) (dcap_verify ext quote col now))
      (\<lambda>(kind, status). case kind of
        TD10 r \<Rightarrow> Inr (claims_of_report r status)
      | TD15 r \<Rightarrow> Inr (claims_of_report r status)
      | SgxEnclave \<Rightarrow> Inl ''Expected TDX report but got SGX report''))"

definition qvl_measurement_entries :: "tdx_attestation_claims \<Rightarrow> (string \<times> bytes) list" where
  "qvl_measurement_entries c =
    [(''rtmr0'', tc_rtmr0 c), (''rtmr1'', tc_rtmr1 c), (''rtmr2'', tc_rtmr2 c),
     (''rtmr3'', tc_rtmr3 c), (''mr_config_id'', tc_mr_config_id c), (''mr_owner'', tc_mr_owner c),
     (''mr_seam'', tc_mr_seam c), (''tcb_svn'', tc_tcb_svn c)]"

definition qvl_standardized_claims ::
  "u64 \<Rightarrow> ((string \<times> bytes) list \<Rightarrow> (string \<times> bytes) list) \<Rightarrow> tdx_attestation_claims
     \<Rightarrow> standardized_claims" where
  "qvl_standardized_claims now order c =
    (let level = (if tc_debug_enabled c then (1 :: nat) else 3)
     in StandardizedClaims now (Some (tc_report_data c))
          (Some (if length (tc_mrtd c) \<ge> 32 then take 32 (tc_mrtd c) else tc_mrtd c)) None
          (Some ''intel-tdx-qvl'') (Some ''tdx'') (Some ''1.0'')
          (if level = 1 then 4 else 0) (Some True) None None None
          (tdx_measurement ''application'' (tc_mrtd c)
             # map (\<lambda>(k, v). tdx_measurement k v) (order (qvl_measurement_entries c)))
          None None None None None None None ''urn:nxcc:profile:tdx-v1'' None)"

definition tdx_verify_attestation ::
  "'c att_ext \<Rightarrow> string \<Rightarrow> u64 \<Rightarrow> ((string \<times> bytes) list \<Rightarrow> (string \<times> bytes) list)
     \<Rightarrow> attestation_bundle \<Rightarrow> string + verification_result" where
  "tdx_verify_attestation ext pccs_url now order bundle =
    (case verify_with_dcap_qvl ext pccs_url now (evidence (ab_raw bundle)) of
       Inr q \<Rightarrow>
         if length (tc_report_data q) < 32
            \<or> take 32 (tc_report_data q) \<noteq> hash_userdata ext (detached_userdata bundle)
         then Inr (Failed ''Userdata hash mismatch'')
         else Inr (Verified (qvl_standardized_claims now order q))
     | Inl e \<Rightarrow>
         if str_contains ''not available'' e \<or> str_contains ''unsupported'' e
            \<or> str_contains ''collateral'' e
         then Inr Unsupported else Inr (Failed e))"

section \<open>The service\<close>

datatype attestation_error =
    NoProvidersAvailable string
  | AllProvidersFailed string
  | FreshnessRejected freshness_error
  | FreshnessMissing
  | FreshnessFetch freshness_error
  | Cbor string
  | Provider string
  | EphemeralKeyLength
  | EvidenceSerialization string

text \<open>The methods of the trait \<open>AttestationProvider\<close>.\<close>

record 'p provider_ops =
  po_platform_type :: "'p \<Rightarrow> string"
  po_is_available :: "'p \<Rightarrow> bool"
  po_max_user_data_size :: "'p \<Rightarrow> nat"
  po_update_config :: "'p \<Rightarrow> string \<Rightarrow> string + 'p"
  po_generate :: "'p \<Rightarrow> bytes \<Rightarrow> string + raw_attestation"
  po_verify :: "'p \<Rightarrow> attestation_bundle \<Rightarrow> string + verification_result"

record 'p attestation_service =
  as_providers :: "string \<rightharpoonup> 'p list"
  as_freshness :: freshness_service

definition attestation_service_new :: "freshness_config \<Rightarrow> 'p attestation_service" where
  "attestation_service_new cfg =
    \<lparr>as_providers = Map.empty, as_freshness = freshness_service_new cfg\<rparr>"

definition register_provider ::
  "string \<Rightarrow> 'p \<Rightarrow> 'p attestation_service \<Rightarrow> 'p attestation_service" where
  "register_provider platform p s =
    s\<lparr>as_providers := (as_providers s)
        (platform \<mapsto> unwrap_or [] (as_providers s platform) @ [p])\<rparr>"

definition generate_null_attestation ::
  "'c att_ext \<Rightarrow> bytes \<Rightarrow> bytes \<Rightarrow> bytes \<Rightarrow> attestation_error + raw_attestation" where
  "generate_null_attestation ext nonce h key =
    (if length key \<noteq> 32 then Inl EphemeralKeyLength else
     rbind (map_err EvidenceSerialization (evidence_to_json ext (null_evidence_new nonce h key)))
       (\<lambda>bs. Inr \<lparr>platform_type = ''null'', evidence = bs, certificates = None\<rparr>))"

definition select_provider :: "'p provider_ops \<Rightarrow> 'p attestation_service \<Rightarrow> 'p option" where
  "select_provider ops s =
    (let avail = (\<lambda>platform. Option.bind (as_providers s platform) (find (po_is_available ops)))
     in case avail ''tdx'' of Some p \<Rightarrow> Some p | None \<Rightarrow> avail ''null'')"

definition generate_attestation ::
  "'c att_ext \<Rightarrow> 'p provider_ops \<Rightarrow> bytes \<Rightarrow> u64 \<Rightarrow> bool \<Rightarrow> 'g gateway \<Rightarrow> 'g
     \<Rightarrow> 'p attestation_service \<Rightarrow> bytes \<Rightarrow> attestation_error + attestation_bundle" where
  "generate_attestation ext ops nonce now timed_out gw g s key =
    (case select_provider ops s of
       None \<Rightarrow> Inl (NoProvidersAvailable ''No available TEE platform detected'')
     | Some p \<Rightarrow>
       rbind (map_err FreshnessFetch
                (fetch_freshness_proof (sha256 ext) now timed_out (as_freshness s) gw g)) (\<lambda>proof.
       rbind (map_err Cbor (userdata_to_cbor ext (user_data_new key (fp_blocks proof)))) (\<lambda>ud.
       let h = hash_userdata ext ud in
       rbind (if po_platform_type ops p = ''null'' then generate_null_attestation ext nonce h key
              else map_err Provider (po_generate ops p h)) (\<lambda>raw.
       Inr \<lparr>ab_raw = raw, detached_userdata = ud\<rparr>))))"

text \<open>What happens once a provider has accepted the quote and the binding of the user data.\<close>

definition check_freshness ::
  "'c att_ext \<Rightarrow> u64 \<Rightarrow> 'g gateway \<Rightarrow> 'g \<Rightarrow> freshness_service \<Rightarrow> user_data
     \<Rightarrow> attestation_error + unit" where
  "check_freshness ext now gw g fs u =
    (if block_hashes u \<noteq> [] then
       map_err FreshnessRejected
         (verify_freshness_proof (sha256 ext) fs gw g
            (freshness_proof_new (sha256 ext) now (block_hashes u) (fs_config fs)))
     else if fc_enabled (fs_config fs) then Inl FreshnessMissing
     else Inr ())"

fun verify_loop ::
  "'c att_ext \<Rightarrow> 'p provider_ops \<Rightarrow> u64 \<Rightarrow> 'g gateway \<Rightarrow> 'g \<Rightarrow> freshness_service
     \<Rightarrow> attestation_bundle \<Rightarrow> string option \<Rightarrow> 'p list \<Rightarrow> attestation_error + standardized_claims" where
  "verify_loop ext ops now gw g fs bundle last_error [] =
     Inl (AllProvidersFailed (unwrap_or ''All providers failed'' last_error))"
| "verify_loop ext ops now gw g fs bundle last_error (p # ps) =
    (case po_verify ops p bundle of
       Inr (Verified claims) \<Rightarrow>
         rbind (map_err Cbor (userdata_from_cbor ext (detached_userdata bundle))) (\<lambda>u.
         rbind (check_freshness ext now gw g fs u) (\<lambda>_. Inr claims))
     | Inr Unsupported \<Rightarrow> verify_loop ext ops now gw g fs bundle last_error ps
     | Inr (Failed e) \<Rightarrow> Inl (AllProvidersFailed e)
     | Inl e \<Rightarrow> verify_loop ext ops now gw g fs bundle (Some e) ps)"

definition verify_attestation ::
  "'c att_ext \<Rightarrow> 'p provider_ops \<Rightarrow> u64 \<Rightarrow> 'g gateway \<Rightarrow> 'g \<Rightarrow> 'p attestation_service
     \<Rightarrow> attestation_bundle \<Rightarrow> attestation_error + standardized_claims" where
  "verify_attestation ext ops now gw g s bundle =
    (let platform = platform_type (ab_raw bundle) in
     case as_providers s platform of
       None \<Rightarrow> Inl (NoProvidersAvailable platform)
     | Some ps \<Rightarrow> verify_loop ext ops now gw g (as_freshness s) bundle None ps)"

text \<open>An error in the middle keeps the updates of the providers before it.\<close>

fun update_providers ::
  "'p provider_ops \<Rightarrow> string \<Rightarrow> 'p list \<Rightarrow> 'p list \<times> (string + unit)" where
  "update_providers ops json [] = ([], Inr ())"
| "update_providers ops json (p # ps) = (case po_update_config ops p json of
      Inl e \<Rightarrow> (p # ps, Inl e)
    | Inr p' \<Rightarrow> (case update_providers ops json ps of (ps', r) \<Rightarrow> (p' # ps', r)))"

definition update_provider_config ::
  "'p provider_ops \<Rightarrow> string \<Rightarrow> string \<Rightarrow> 'p attestation_service
     \<Rightarrow> 'p attestation_service \<times> (string + unit)" where
  "update_provider_config ops platform json s = (case as_providers s platform of
      None \<Rightarrow> (s, Inr ())
    | Some ps \<Rightarrow> (case update_providers ops json ps of (ps', r) \<Rightarrow>
        (s\<lparr>as_providers := (as_providers s)(platform \<mapsto> ps')\<rparr>, r)))"

section \<open>The enclave's providers\<close>

text \<open>
  The two providers that \<open>PlatformAttestationManager::new\<close> registers. A TDX provider holds its
  \<open>TdxInterface\<close>: whether the hardware is there and how a quote is generated.
\<close>

record tdx_interface =
  hw_available :: bool
  hw_generate_quote :: "bytes \<Rightarrow> string + bytes"

datatype provider = NullAttestationProvider | TdxQvlProvider tdx_interface

record provider_env =
  pe_pccs_url :: string
  pe_draws :: claim_draws
  pe_order :: "(string \<times> bytes) list \<Rightarrow> (string \<times> bytes) list"

fun tdx_generate_attestation :: "tdx_interface \<Rightarrow> bytes \<Rightarrow> string + raw_attestation" where
  "tdx_generate_attestation i h =
     rbind (hw_generate_quote i h)
       (\<lambda>q. Inr \<lparr>platform_type = ''tdx'', evidence = q, certificates = None\<rparr>)"

definition node_provider_ops :: "'c att_ext \<Rightarrow> provider_env \<Rightarrow> provider provider_ops" where
  "node_provider_ops ext env =
    \<lparr>po_platform_type = (\<lambda>p. case p of NullAttestationProvider \<Rightarrow> ''null'' | TdxQvlProvider _ \<Rightarrow> ''tdx''),
     po_is_available = (\<lambda>p. case p of NullAttestationProvider \<Rightarrow> True | TdxQvlProvider i \<Rightarrow> hw_available i),
     po_max_user_data_size = (\<lambda>p. case p of NullAttestationProvider \<Rightarrow> 1024 | TdxQvlProvider _ \<Rightarrow> 64),
     po_update_config = (\<lambda>p _. Inr p),
     po_generate = (\<lambda>p h. case p of
         NullAttestationProvider \<Rightarrow>
           Inl ''Null provider generate_attestation should not be called directly''
       | TdxQvlProvider i \<Rightarrow> tdx_generate_attestation i h),
     po_verify = (\<lambda>p b. case p of
         NullAttestationProvider \<Rightarrow> null_verify_attestation ext (pe_draws env) b
       | TdxQvlProvider _ \<Rightarrow>
           tdx_verify_attestation ext (pe_pccs_url env) (cd_now (pe_draws env)) (pe_order env) b)\<rparr>"

definition platform_service :: "freshness_config \<Rightarrow> tdx_interface \<Rightarrow> provider attestation_service" where
  "platform_service cfg i =
    register_provider ''null'' NullAttestationProvider
      (register_provider ''tdx'' (TdxQvlProvider i) (attestation_service_new cfg))"

definition configure_providers ::
  "'p provider_ops \<Rightarrow> (string \<rightharpoonup> string) \<Rightarrow> 'p attestation_service
     \<Rightarrow> 'p attestation_service \<times> (string + unit)" where
  "configure_providers ops config s = (case config ''qvl'' of
      None \<Rightarrow> (s, Inr ())
    | Some json \<Rightarrow> update_provider_config ops ''tdx'' json s)"

section \<open>The service as a fallback chain\<close>

text \<open>Providers that do not decide: they report the platform as unsupported or fail to answer.\<close>

definition undecided :: "'p provider_ops \<Rightarrow> attestation_bundle \<Rightarrow> 'p \<Rightarrow> bool" where
  "undecided ops b p \<longleftrightarrow> (case po_verify ops p b of Inr r \<Rightarrow> r = Unsupported | Inl _ \<Rightarrow> True)"

lemma verify_loop_skip:
  "list_all (undecided ops b) pre \<Longrightarrow>
     \<exists>l'. verify_loop ext ops now gw g fs b l (pre @ post) = verify_loop ext ops now gw g fs b l' post"
proof (induction pre arbitrary: l)
  case (Cons p pre)
  then show ?case
    by (cases "po_verify ops p b") (auto simp: undecided_def)
qed auto

lemma verify_loop_failed:
  "list_all (undecided ops b) pre \<Longrightarrow> po_verify ops p b = Inr (Failed e) \<Longrightarrow>
     verify_loop ext ops now gw g fs b l (pre @ p # post) = Inl (AllProvidersFailed e)"
  using verify_loop_skip [of ops b pre ext now gw g fs l "p # post"] by fastforce

lemma verify_loop_Inr:
  assumes "verify_loop ext ops now gw g fs b l ps = Inr c"
  shows "\<exists>pre p post u. ps = pre @ p # post \<and> list_all (undecided ops b) pre
    \<and> po_verify ops p b = Inr (Verified c)
    \<and> userdata_from_cbor ext (detached_userdata b) = Inr u
    \<and> check_freshness ext now gw g fs u = Inr ()"
  using assms
proof (induction ps arbitrary: l)
  case (Cons p ps)
  show ?case
  proof (cases "undecided ops b p")
    case True
    then obtain l' where "verify_loop ext ops now gw g fs b l' ps = Inr c"
      using Cons.prems by (auto simp: undecided_def split: sum.splits)
    from Cons.IH [OF this] True show ?thesis
      by (metis append_Cons list.pred_inject(2))
  next
    case False
    then have "po_verify ops p b = Inr (Verified c)
        \<and> (\<exists>u. userdata_from_cbor ext (detached_userdata b) = Inr u
            \<and> check_freshness ext now gw g fs u = Inr ())"
      using Cons.prems
      by (auto simp: undecided_def result_simps split: sum.splits verification_result.splits)
    then show ?thesis
      by (intro exI [of _ "[]"] exI [of _ p] exI [of _ ps]) auto
  qed
qed simp

section \<open>The providers\<close>

lemma platform_service_providers:
  "as_providers (platform_service cfg i) =
     [''tdx'' \<mapsto> [TdxQvlProvider i], ''null'' \<mapsto> [NullAttestationProvider]]"
  by (simp add: platform_service_def register_provider_def attestation_service_new_def)

lemma platform_service_freshness:
  "as_freshness (platform_service cfg i) = freshness_service_new cfg"
  by (simp add: platform_service_def register_provider_def attestation_service_new_def)

lemma null_verified_iff:
  "null_verify_attestation ext d b = Inr (Verified c) \<longleftrightarrow>
     platform_type (ab_raw b) = ''null'' \<and>
     (\<exists>ev u. evidence_from_json ext (evidence (ab_raw b)) = Inr ev
        \<and> userdata_from_cbor ext (detached_userdata b) = Inr u
        \<and> length (ephemeral_public_key u) = 32
        \<and> ne_userdata_hash ev = hash_userdata ext (detached_userdata b)
        \<and> ne_ephemeral_key ev = ephemeral_public_key u
        \<and> c = create_null_claims d (hash_userdata ext (detached_userdata b)))"
  by (auto simp: null_verify_attestation_def extract_ephemeral_key_from_userdata_def Let_def
      rbind_Inl_iff rbind_Inr_iff split: sum.splits if_splits)

definition report_of :: "dcap_report_kind \<Rightarrow> dcap_report option" where
  "report_of k = (case k of TD10 r \<Rightarrow> Some r | TD15 r \<Rightarrow> Some r | SgxEnclave \<Rightarrow> None)"

lemma verify_with_dcap_qvl_Inr_iff:
  "verify_with_dcap_qvl ext url now e = Inr q \<longleftrightarrow>
     (\<exists>col kind status r. get_collateral ext url e = Inr col
        \<and> dcap_verify ext e col now = Inr (kind, status)
        \<and> report_of kind = Some r \<and> q = claims_of_report r status)"
proof (cases "get_collateral ext url e")
  case (Inr col)
  show ?thesis
  proof (cases "dcap_verify ext e col now")
    case verified: (Inr ks)
    obtain kind status where "ks = (kind, status)" by fastforce
    with verified Inr show ?thesis
      by (cases kind) (auto simp: verify_with_dcap_qvl_def report_of_def)
  qed (simp add: Inr verify_with_dcap_qvl_def)
qed (simp add: verify_with_dcap_qvl_def)

lemma tdx_verified_iff:
  "tdx_verify_attestation ext url now order b = Inr (Verified c) \<longleftrightarrow>
     (\<exists>q. verify_with_dcap_qvl ext url now (evidence (ab_raw b)) = Inr q
        \<and> 32 \<le> length (tc_report_data q)
        \<and> take 32 (tc_report_data q) = hash_userdata ext (detached_userdata b)
        \<and> c = qvl_standardized_claims now order q)"
  by (cases "verify_with_dcap_qvl ext url now (evidence (ab_raw b))")
    (auto simp: tdx_verify_attestation_def)

lemma claims_of_report_data [simp]: "tc_report_data (claims_of_report r st) = dr_report_data r"
  by (simp add: claims_of_report_def)

lemma null_claims_fields [simp]:
  "hwmodel (create_null_claims d h) = Some ''null''" "eat_nonce (create_null_claims d h) = Some h"
  by (simp_all add: create_null_claims_def)

lemma qvl_claims_fields [simp]:
  "hwmodel (qvl_standardized_claims now order c) = Some ''tdx''"
  "eat_nonce (qvl_standardized_claims now order c) = Some (tc_report_data c)"
  by (simp_all add: qvl_standardized_claims_def Let_def)

lemma node_ops_simps [simp]:
  "po_verify (node_provider_ops ext env) NullAttestationProvider b
     = null_verify_attestation ext (pe_draws env) b"
  "po_verify (node_provider_ops ext env) (TdxQvlProvider i) b
     = tdx_verify_attestation ext (pe_pccs_url env) (cd_now (pe_draws env)) (pe_order env) b"
  "po_is_available (node_provider_ops ext env) NullAttestationProvider"
  "po_is_available (node_provider_ops ext env) (TdxQvlProvider i) = hw_available i"
  "po_platform_type (node_provider_ops ext env) NullAttestationProvider = ''null''"
  "po_platform_type (node_provider_ops ext env) (TdxQvlProvider i) = ''tdx''"
  "po_generate (node_provider_ops ext env) (TdxQvlProvider i) h = tdx_generate_attestation i h"
  by (simp_all add: node_provider_ops_def)

lemma platform_verify_Inr:
  assumes "verify_attestation ext (node_provider_ops ext env) now gw g (platform_service cfg i) b = Inr c"
  shows "\<exists>u. userdata_from_cbor ext (detached_userdata b) = Inr u
    \<and> check_freshness ext now gw g (freshness_service_new cfg) u = Inr ()
    \<and> ((platform_type (ab_raw b) = ''null''
         \<and> null_verify_attestation ext (pe_draws env) b = Inr (Verified c))
       \<or> (platform_type (ab_raw b) = ''tdx''
         \<and> tdx_verify_attestation ext (pe_pccs_url env) (cd_now (pe_draws env)) (pe_order env) b
             = Inr (Verified c)))"
  using assms
  by (auto simp: verify_attestation_def platform_service_providers platform_service_freshness Let_def
      dest!: verify_loop_Inr split: option.splits if_splits simp: Cons_eq_append_conv)

lemma select_platform_provider:
  "select_provider (node_provider_ops ext env) (platform_service cfg i) =
     Some (if hw_available i then TdxQvlProvider i else NullAttestationProvider)"
  by (simp add: select_provider_def platform_service_providers Let_def)

section \<open>Generating, then verifying\<close>

text \<open>Serialising and reading back, as documented for the serde formats.\<close>

definition serde_ok :: "('a \<Rightarrow> string + bytes) \<Rightarrow> (bytes \<Rightarrow> string + 'a) \<Rightarrow> bool" where
  "serde_ok to from \<longleftrightarrow> (\<forall>x bs. to x = Inr bs \<longrightarrow> from bs = Inr x)"

lemma verify_created_at:
  "verify_freshness_proof sha s gw g (freshness_proof_new sha t blocks cfg)
     = verify_freshness_proof sha s gw g (freshness_proof_new sha t' blocks cfg)"
  by (simp add: verify_freshness_proof_def verify_proof_structure_def freshness_proof_new_def Let_def)

lemma fetched_blocks:
  "fetch_freshness_proof sha now t s gw g = Inr p \<Longrightarrow> fp_blocks p \<noteq> [] \<Longrightarrow>
     p = freshness_proof_new sha now (fp_blocks p) (fs_config s)"
  by (auto simp: fetch_freshness_proof_def freshness_proof_disabled_def freshness_proof_new_def
      Let_def split: if_splits sum.splits)

lemma check_freshness_fetched:
  assumes sha: "digest_size 32 (sha256 ext)" and st: "steady gw"
    and few: "length (required_chains (fs_config fs)) < 256"
    and p: "fetch_freshness_proof (sha256 ext) now t fs gw g = Inr p"
    and some: "fc_enabled (fs_config fs) \<longrightarrow> fp_blocks p \<noteq> []"
  shows "check_freshness ext now' gw g' fs (user_data_new key (fp_blocks p)) = Inr ()"
proof (cases "fp_blocks p = []")
  case True
  then show ?thesis using some by (simp add: check_freshness_def user_data_new_def)
next
  case False
  have "verify_freshness_proof (sha256 ext) fs gw g' p = Inr ()"
    using sha st few p by (rule fetched_proof_verifies)
  then have "verify_freshness_proof (sha256 ext) fs gw g'
      (freshness_proof_new (sha256 ext) now' (fp_blocks p) (fs_config fs)) = Inr ()"
    using fetched_blocks [OF p False] verify_created_at by metis
  with False show ?thesis by (simp add: check_freshness_def user_data_new_def)
qed

lemma generate_null_Inr:
  "generate_null_attestation ext nonce h key = Inr raw \<longleftrightarrow>
     length key = 32 \<and> (\<exists>bs. evidence_to_json ext (null_evidence_new nonce h key) = Inr bs
       \<and> raw = \<lparr>platform_type = ''null'', evidence = bs, certificates = None\<rparr>)"
  by (auto simp: generate_null_attestation_def result_simps)

lemma null_round_trip:
  assumes hw: "\<not> hw_available i"
    and cbor: "serde_ok (userdata_to_cbor ext) (userdata_from_cbor ext)"
    and json: "serde_ok (evidence_to_json ext) (evidence_from_json ext)"
    and sha: "digest_size 32 (sha256 ext)" and st: "steady gw"
    and few: "length (required_chains cfg) < 256"
    and p: "fetch_freshness_proof (sha256 ext) now t (freshness_service_new cfg) gw g = Inr p"
    and some: "fc_enabled cfg \<longrightarrow> fp_blocks p \<noteq> []"
    and gen: "generate_attestation ext (node_provider_ops ext env) nonce now t gw g
                (platform_service cfg i) key = Inr b"
  shows "userdata_from_cbor ext (detached_userdata b) = Inr (user_data_new key (fp_blocks p))
    \<and> verify_attestation ext (node_provider_ops ext env') now' gw g' (platform_service cfg i') b
        = Inr (create_null_claims (pe_draws env') (hash_userdata ext (detached_userdata b)))"
proof -
  from gen hw p obtain ud raw where
    ud: "userdata_to_cbor ext (user_data_new key (fp_blocks p)) = Inr ud"
    and raw: "generate_null_attestation ext nonce (hash_userdata ext ud) key = Inr raw"
    and b: "b = \<lparr>ab_raw = raw, detached_userdata = ud\<rparr>"
    by (auto simp: generate_attestation_def select_platform_provider platform_service_freshness
        Let_def result_simps)
  have u: "userdata_from_cbor ext ud = Inr (user_data_new key (fp_blocks p))"
    using cbor ud by (simp add: serde_ok_def)
  from raw json have "null_verify_attestation ext (pe_draws env') b
      = Inr (Verified (create_null_claims (pe_draws env') (hash_userdata ext ud)))"
    unfolding null_verified_iff using u
    by (auto simp: b generate_null_Inr serde_ok_def user_data_new_def null_evidence_new_def)
  moreover have "platform_type raw = ''null''" using raw by (auto simp: generate_null_Inr)
  moreover have "check_freshness ext now' gw g' (freshness_service_new cfg)
      (user_data_new key (fp_blocks p)) = Inr ()"
    using sha st _ p by (rule check_freshness_fetched) (use few some in \<open>simp_all add: freshness_service_new_def\<close>)
  ultimately show ?thesis using u
    by (simp add: verify_attestation_def b platform_service_providers platform_service_freshness Let_def)
qed

lemma null_forged:
  assumes "userdata_from_cbor ext ud = Inr u" "length (ephemeral_public_key u) = 32"
    and "evidence_from_json ext ev = Inr \<lparr>ne_userdata_hash = hash_userdata ext ud,
           ne_ephemeral_key = ephemeral_public_key u, ne_nonce = n\<rparr>"
    and "check_freshness ext now gw g (freshness_service_new cfg) u = Inr ()"
  shows "verify_attestation ext (node_provider_ops ext env) now gw g (platform_service cfg i)
     \<lparr>ab_raw = \<lparr>platform_type = ''null'', evidence = ev, certificates = c\<rparr>, detached_userdata = ud\<rparr>
     = Inr (create_null_claims (pe_draws env) (hash_userdata ext ud))"
proof -
  let ?b = "\<lparr>ab_raw = \<lparr>platform_type = ''null'', evidence = ev, certificates = c\<rparr>, detached_userdata = ud\<rparr>"
  have "null_verify_attestation ext (pe_draws env) ?b
      = Inr (Verified (create_null_claims (pe_draws env) (hash_userdata ext ud)))"
    unfolding null_verified_iff using assms by auto
  then show ?thesis using assms
    by (simp add: verify_attestation_def platform_service_providers platform_service_freshness Let_def)
qed

section \<open>Properties\<close>

definition sample_report :: "bytes \<Rightarrow> dcap_report" where
  "sample_report q =
    \<lparr>dr_mr_td = replicate 48 1, dr_rt_mr0 = [], dr_rt_mr1 = [], dr_rt_mr2 = [], dr_rt_mr3 = [],
     dr_mr_config_id = [], dr_mr_owner = [], dr_mr_seam = [], dr_td_attributes = replicate 8 0,
     dr_tee_tcb_svn = [], dr_report_data = q\<rparr>"

definition sample_att_ext :: "unit att_ext" where
  "sample_att_ext =
    \<lparr>sha256 = sample_sha,
     userdata_to_cbor = (\<lambda>u. if block_hashes u = [] then Inr (ephemeral_public_key u) else Inl ''io''),
     userdata_from_cbor = (\<lambda>bs. Inr (user_data_new bs [])),
     evidence_to_json = (\<lambda>e. case ne_nonce e of
         Some n \<Rightarrow> (if length (ne_userdata_hash e) = 32 \<and> length (ne_ephemeral_key e) = 32
                   then Inr (ne_userdata_hash e @ ne_ephemeral_key e @ n) else Inl ''io'')
       | None \<Rightarrow> Inl ''io''),
     evidence_from_json = (\<lambda>bs. Inr \<lparr>ne_userdata_hash = take 32 bs,
         ne_ephemeral_key = take 32 (drop 32 bs), ne_nonce = Some (drop 64 bs)\<rparr>),
     get_collateral = (\<lambda>_ _. Inr ()),
     dcap_verify = (\<lambda>q _ _. Inr (TD10 (sample_report q), ''UpToDate''))\<rparr>"

definition sample_env :: provider_env where
  "sample_env = \<lparr>pe_pccs_url = ''url'',
     pe_draws = \<lparr>cd_now = 5, cd_platform = [], cd_application = []\<rparr>, pe_order = (\<lambda>xs. xs)\<rparr>"

definition sample_interface :: tdx_interface where
  "sample_interface = \<lparr>hw_available = False, hw_generate_quote = (\<lambda>_. Inl ''no TDX device'')\<rparr>"

lemma sample_ext_serde:
  "serde_ok (userdata_to_cbor sample_att_ext) (userdata_from_cbor sample_att_ext)"
  "serde_ok (evidence_to_json sample_att_ext) (evidence_from_json sample_att_ext)"
  by (auto simp: serde_ok_def sample_att_ext_def user_data_new_def split: if_splits option.splits)

lemma sample_ext_sha: "digest_size 32 (sha256 sample_att_ext)"
  using sample_sha_size by (simp add: sample_att_ext_def)

lemma sample_generate:
  "generate_attestation sample_att_ext (node_provider_ops sample_att_ext sample_env) [8] 5 False
     sample_gateway () (platform_service (freshness_config_default False) sample_interface)
     (replicate 32 7) =
   Inr \<lparr>ab_raw = \<lparr>platform_type = ''null'',
         evidence = sample_sha (replicate 32 7) @ replicate 32 7 @ [8], certificates = None\<rparr>,
        detached_userdata = replicate 32 7\<rparr>"
  by (simp add: generate_attestation_def select_platform_provider sample_interface_def
      platform_service_freshness freshness_service_new_def freshness_config_default_def
      fetch_freshness_proof_def freshness_proof_disabled_def user_data_new_def hash_userdata_def
      generate_null_attestation_def null_evidence_new_def sample_att_ext_def Let_def
      digest_sizeD [OF sample_sha_size])

text \<open>
  C8: What an accepted attestation proves, for the enclave's own service: its platform is
  \<open>null\<close> or \<open>tdx\<close> and the claims name that platform; the detached user data decodes, and
  SHA-256 of it is what the evidence carries (the null evidence, beside the 32-byte ephemeral key of
  the same user data, or the first 32 bytes of the report data of a TD report that dcap-qvl
  accepted). When freshness is enabled the user data lists blocks and the proof built from them
  verifies.
\<close>

theorem attestation_sound:
  assumes "verify_attestation ext (node_provider_ops ext env) now gw g (platform_service cfg i) b = Inr c"
  shows "\<exists>u. userdata_from_cbor ext (detached_userdata b) = Inr u
    \<and> hwmodel c = Some (platform_type (ab_raw b))
    \<and> (fc_enabled cfg \<longrightarrow> block_hashes u \<noteq> []
        \<and> verify_freshness_proof (sha256 ext) (freshness_service_new cfg) gw g
            (freshness_proof_new (sha256 ext) now (block_hashes u) cfg) = Inr ())
    \<and> ((platform_type (ab_raw b) = ''null'' \<and> length (ephemeral_public_key u) = 32
         \<and> (\<exists>ev. evidence_from_json ext (evidence (ab_raw b)) = Inr ev
              \<and> ne_userdata_hash ev = sha256 ext (detached_userdata b)
              \<and> ne_ephemeral_key ev = ephemeral_public_key u))
       \<or> (platform_type (ab_raw b) = ''tdx''
         \<and> (\<exists>col kind status r. dcap_verify ext (evidence (ab_raw b)) col (cd_now (pe_draws env))
                = Inr (kind, status)
              \<and> report_of kind = Some r \<and> eat_nonce c = Some (dr_report_data r)
              \<and> take 32 (dr_report_data r) = sha256 ext (detached_userdata b))))"
proof -
  from platform_verify_Inr [OF assms] obtain u where u: "userdata_from_cbor ext (detached_userdata b) = Inr u"
    and f: "check_freshness ext now gw g (freshness_service_new cfg) u = Inr ()"
    and cs: "(platform_type (ab_raw b) = ''null''
         \<and> null_verify_attestation ext (pe_draws env) b = Inr (Verified c))
       \<or> (platform_type (ab_raw b) = ''tdx''
         \<and> tdx_verify_attestation ext (pe_pccs_url env) (cd_now (pe_draws env)) (pe_order env) b
             = Inr (Verified c))" by blast
  have fresh: "fc_enabled cfg \<longrightarrow> block_hashes u \<noteq> []
      \<and> verify_freshness_proof (sha256 ext) (freshness_service_new cfg) gw g
          (freshness_proof_new (sha256 ext) now (block_hashes u) cfg) = Inr ()"
    using f by (auto simp: check_freshness_def freshness_service_new_def map_err_Inr_iff split: if_splits)
  from cs show ?thesis
  proof
    assume n: "platform_type (ab_raw b) = ''null''
         \<and> null_verify_attestation ext (pe_draws env) b = Inr (Verified c)"
    then show ?thesis using u fresh
      by (intro exI [of _ u]) (auto simp: null_verified_iff hash_userdata_def)
  next
    assume t: "platform_type (ab_raw b) = ''tdx''
         \<and> tdx_verify_attestation ext (pe_pccs_url env) (cd_now (pe_draws env)) (pe_order env) b
             = Inr (Verified c)"
    then show ?thesis using u fresh
      by (intro exI [of _ u])
        (auto simp: tdx_verified_iff verify_with_dcap_qvl_Inr_iff hash_userdata_def, blast+)
  qed
qed

text \<open>
  On a machine without a TEE, a generated attestation verifies on every other node: the bundle
  binds the caller's key and the fetched blocks, and verification returns the null claims whose
  nonce is the hash of the user data. With freshness enabled this needs that some block was fetched.
\<close>

theorem null_attestation_round_trip:
  assumes "\<not> hw_available i"
    and "serde_ok (userdata_to_cbor ext) (userdata_from_cbor ext)"
    and "serde_ok (evidence_to_json ext) (evidence_from_json ext)"
    and "digest_size 32 (sha256 ext)" and "steady gw"
    and "length (required_chains cfg) < 256"
    and "fetch_freshness_proof (sha256 ext) now t (freshness_service_new cfg) gw g = Inr p"
    and "fc_enabled cfg \<longrightarrow> fp_blocks p \<noteq> []"
    and "generate_attestation ext (node_provider_ops ext env) nonce now t gw g
           (platform_service cfg i) key = Inr b"
  shows "userdata_from_cbor ext (detached_userdata b) = Inr (user_data_new key (fp_blocks p))
    \<and> verify_attestation ext (node_provider_ops ext env') now' gw g' (platform_service cfg i') b
        = Inr (create_null_claims (pe_draws env') (hash_userdata ext (detached_userdata b)))"
  using assms by (rule null_round_trip)

theorem null_attestation_round_trip_witness:
  "verify_attestation sample_att_ext (node_provider_ops sample_att_ext sample_env) 6 sample_gateway ()
     (platform_service (freshness_config_default False) sample_interface)
     \<lparr>ab_raw = \<lparr>platform_type = ''null'',
         evidence = sample_sha (replicate 32 7) @ replicate 32 7 @ [8], certificates = None\<rparr>,
      detached_userdata = replicate 32 7\<rparr>
   = Inr (create_null_claims (pe_draws sample_env) (sample_sha (replicate 32 7)))"
  using null_attestation_round_trip [OF _ sample_ext_serde sample_ext_sha sample_gateway_steady _ _ _
      sample_generate, where p = "freshness_proof_disabled 5" and env' = sample_env and now' = 6
        and g' = "()" and i' = sample_interface]
  by (simp add: sample_interface_def freshness_config_default_def fetch_freshness_proof_def
      freshness_service_new_def freshness_proof_disabled_def hash_userdata_def sample_att_ext_def)

theorem attestation_sound_witness:
  "\<exists>u. userdata_from_cbor sample_att_ext (replicate 32 7) = Inr u
     \<and> length (ephemeral_public_key u) = 32"
proof -
  have "verify_attestation sample_att_ext (node_provider_ops sample_att_ext sample_env) 6 sample_gateway ()
     (platform_service (freshness_config_default False) sample_interface)
     \<lparr>ab_raw = \<lparr>platform_type = ''null'',
         evidence = sample_sha (replicate 32 7) @ replicate 32 7 @ [8], certificates = None\<rparr>,
      detached_userdata = replicate 32 7\<rparr>
   = Inr (create_null_claims (pe_draws sample_env) (hash_userdata sample_att_ext (replicate 32 7)))"
    by (rule null_forged [of _ _ "user_data_new (replicate 32 7) []" _ "Some [8]"])
      (simp_all add: sample_att_ext_def hash_userdata_def user_data_new_def check_freshness_def
        freshness_service_new_def freshness_config_default_def digest_sizeD [OF sample_sha_size])
  from attestation_sound [OF this] show ?thesis by auto
qed

text \<open>
  The fallback chain: a provider's definitive failure ends the verification with its message
  after any number of providers that were unsupported or did not answer, whatever the providers
  behind it would say; and when claims are returned, they come from the first provider that decided.
\<close>

theorem verification_fallback:
  assumes "as_providers s (platform_type (ab_raw b)) = Some ps"
  shows "((\<exists>pre p post. ps = pre @ p # post \<and> list_all (undecided ops b) pre
            \<and> po_verify ops p b = Inr (Failed e)) \<longrightarrow>
         verify_attestation ext ops now gw g s b = Inl (AllProvidersFailed e))
    \<and> (verify_attestation ext ops now gw g s b = Inr c \<longrightarrow>
         (\<exists>pre p post. ps = pre @ p # post \<and> list_all (undecided ops b) pre
            \<and> po_verify ops p b = Inr (Verified c)))"
  using assms verify_loop_failed [of ops b]
  by (auto simp: verify_attestation_def Let_def dest!: verify_loop_Inr)

theorem verification_fallback_witness:
  "verify_attestation sample_att_ext (node_provider_ops sample_att_ext sample_env) 6 sample_gateway ()
     (platform_service (freshness_config_default False) sample_interface)
     \<lparr>ab_raw = \<lparr>platform_type = ''tdx'', evidence = [], certificates = None\<rparr>,
      detached_userdata = []\<rparr>
   = Inl (AllProvidersFailed ''Userdata hash mismatch'')"
proof -
  let ?b = "\<lparr>ab_raw = \<lparr>platform_type = ''tdx'', evidence = [], certificates = None\<rparr>,
      detached_userdata = []\<rparr>"
  have "po_verify (node_provider_ops sample_att_ext sample_env) (TdxQvlProvider sample_interface) ?b
      = Inr (Failed ''Userdata hash mismatch'')"
    by (simp add: tdx_verify_attestation_def verify_with_dcap_qvl_def sample_att_ext_def
        sample_report_def claims_of_report_def)
  moreover have "as_providers (platform_service (freshness_config_default False) sample_interface)
      (platform_type (ab_raw ?b)) = Some ([] @ TdxQvlProvider sample_interface # [])"
    by (simp add: platform_service_providers)
  ultimately show ?thesis
    using verification_fallback [of "platform_service (freshness_config_default False) sample_interface"
        ?b "[TdxQvlProvider sample_interface]" "node_provider_ops sample_att_ext sample_env"
        "''Userdata hash mismatch''" sample_att_ext 6 sample_gateway "()"]
    by (metis append_Nil list.pred_inject(1))
qed

text \<open>
  The null provider checks consistency only: whoever writes user data with a 32-byte key and
  evidence that repeats its hash and key is accepted, without any signature or secret.
\<close>

theorem null_attestation_forgeable:
  assumes "userdata_from_cbor ext ud = Inr u" "length (ephemeral_public_key u) = 32"
    and "evidence_from_json ext ev = Inr \<lparr>ne_userdata_hash = hash_userdata ext ud,
           ne_ephemeral_key = ephemeral_public_key u, ne_nonce = n\<rparr>"
    and "check_freshness ext now gw g (freshness_service_new cfg) u = Inr ()"
  shows "verify_attestation ext (node_provider_ops ext env) now gw g (platform_service cfg i)
     \<lparr>ab_raw = \<lparr>platform_type = ''null'', evidence = ev, certificates = c\<rparr>, detached_userdata = ud\<rparr>
     = Inr (create_null_claims (pe_draws env) (hash_userdata ext ud))"
  using assms by (rule null_forged)

theorem null_attestation_forgeable_witness:
  "verify_attestation sample_att_ext (node_provider_ops sample_att_ext sample_env) 6 sample_gateway ()
     (platform_service (freshness_config_default False) sample_interface)
     \<lparr>ab_raw = \<lparr>platform_type = ''null'',
         evidence = sample_sha (replicate 32 7) @ replicate 32 7, certificates = None\<rparr>,
      detached_userdata = replicate 32 7\<rparr>
   = Inr (create_null_claims (pe_draws sample_env) (hash_userdata sample_att_ext (replicate 32 7)))"
  by (rule null_attestation_forgeable [of _ _ "user_data_new (replicate 32 7) []" _ "Some []"])
    (simp_all add: sample_att_ext_def hash_userdata_def user_data_new_def check_freshness_def
      freshness_service_new_def freshness_config_default_def digest_sizeD [OF sample_sha_size])

end
