(* ===== verification/Crypto_Box.thy ===== *)
theory Crypto_Box
  imports Worker_Types
begin

text \<open>
  The sealed box of secrets (\<open>src/node/enclave/src/crypto.rs\<close>): X25519 key pairs, the derived
  symmetric key, AES-GCM-SIV and the two functions that pack and unpack a \<open>SecretsBox\<close>. The
  curve, the hash, the cipher and CBOR are third-party code and the fields of \<open>crypto_ext\<close>;
  \<open>crypto_correct\<close> states what is documented of them. Keys are 32-byte lists; the random nonce is an
  argument.
\<close>

datatype crypto_error =
    InvalidKeyLength nat nat
  | OperationFailed string
  | Serialization string
  | Deserialization string

type_synonym packed_secret = "secret_id \<times> bytes \<times> u64 \<times> u64"

record crypto_ext =
  x25519_public :: "bytes \<Rightarrow> bytes"
  x25519_dh :: "bytes \<Rightarrow> bytes \<Rightarrow> bytes"
  kdf_sha256 :: "bytes \<Rightarrow> bytes"
  aead_seal :: "bytes \<Rightarrow> bytes \<Rightarrow> bytes \<Rightarrow> bytes \<Rightarrow> string + bytes"
  aead_open :: "bytes \<Rightarrow> bytes \<Rightarrow> bytes \<Rightarrow> bytes \<Rightarrow> string + bytes"
  secrets_to_cbor :: "packed_secret list \<Rightarrow> string + bytes"
  secrets_from_cbor :: "bytes \<Rightarrow> string + packed_secret list"

definition AES_NONCE_SIZE :: nat where "AES_NONCE_SIZE = 12"

section \<open>Keys\<close>

record kx_keypair =
  kx_secret :: bytes
  kx_public :: bytes

definition kx_from_secret :: "crypto_ext \<Rightarrow> bytes \<Rightarrow> kx_keypair" where
  "kx_from_secret ext s = \<lparr>kx_secret = s, kx_public = x25519_public ext s\<rparr>"

definition kx_from_bytes :: "crypto_ext \<Rightarrow> bytes \<Rightarrow> crypto_error + kx_keypair" where
  "kx_from_bytes ext bs =
    (if length bs = 32 then Inr (kx_from_secret ext bs)
     else Inl (InvalidKeyLength 32 (length bs)))"

definition diffie_hellman :: "crypto_ext \<Rightarrow> kx_keypair \<Rightarrow> bytes \<Rightarrow> bytes" where
  "diffie_hellman ext kp their_public = x25519_dh ext (kx_secret kp) their_public"

definition derive_symmetric_key :: "crypto_ext \<Rightarrow> bytes \<Rightarrow> bytes" where
  "derive_symmetric_key ext shared = kdf_sha256 ext shared"

section \<open>Authenticated encryption\<close>

definition encrypt_aead ::
  "crypto_ext \<Rightarrow> bytes \<Rightarrow> bytes \<Rightarrow> bytes \<Rightarrow> bytes \<Rightarrow> crypto_error + bytes \<times> bytes" where
  "encrypt_aead ext nonce key plaintext aad =
    rbind (map_err (\<lambda>e. OperationFailed (''AEAD encryption failed: '' @ e))
             (aead_seal ext key nonce aad plaintext)) (\<lambda>ct. Inr (nonce, ct))"

definition decrypt_aead ::
  "crypto_ext \<Rightarrow> bytes \<Rightarrow> bytes \<Rightarrow> bytes \<Rightarrow> bytes \<Rightarrow> crypto_error + bytes" where
  "decrypt_aead ext key nonce ciphertext aad =
    (if length nonce \<noteq> AES_NONCE_SIZE then Inl (InvalidKeyLength AES_NONCE_SIZE (length nonce))
     else map_err (\<lambda>e. OperationFailed (''AEAD decryption failed: '' @ e))
            (aead_open ext key nonce aad ciphertext))"

section \<open>Boxes\<close>

definition encrypt_secrets_box ::
  "crypto_ext \<Rightarrow> bytes \<Rightarrow> kx_keypair \<Rightarrow> bytes \<Rightarrow> packed_secret list \<Rightarrow> crypto_error + secrets_box" where
  "encrypt_secrets_box ext nonce our recipient secrets =
    (let key = derive_symmetric_key ext (diffie_hellman ext our recipient) in
     rbind (map_err Serialization (secrets_to_cbor ext secrets)) (\<lambda>payload.
     let aad = recipient @ kx_public our in
     rbind (encrypt_aead ext nonce key payload aad) (\<lambda>(n, ct).
     Inr \<lparr>encrypted_payload = n @ ct, sender_public_key = kx_public our,
          box_alg = ''X25519_AES-GCM-SIV'',
          contained_secret_ids = map (\<lambda>(i, _, _, _). i) secrets\<rparr>)))"

definition decrypt_secrets_box ::
  "crypto_ext \<Rightarrow> kx_keypair \<Rightarrow> secrets_box \<Rightarrow> crypto_error + packed_secret list" where
  "decrypt_secrets_box ext our box =
    (if box_alg box \<noteq> ''X25519_AES-GCM-SIV''
     then Inl (OperationFailed (''Unsupported SecretsBox algorithm: '' @ box_alg box))
     else if length (sender_public_key box) \<noteq> 32
     then Inl (InvalidKeyLength 32 (length (sender_public_key box)))
     else let key = derive_symmetric_key ext (diffie_hellman ext our (sender_public_key box)) in
       if length (encrypted_payload box) < AES_NONCE_SIZE
       then Inl (OperationFailed ''Encrypted payload too short'')
       else let nonce = take AES_NONCE_SIZE (encrypted_payload box);
                ct = drop AES_NONCE_SIZE (encrypted_payload box);
                aad = kx_public our @ sender_public_key box
         in rbind (decrypt_aead ext key nonce ct aad) (\<lambda>plain.
            map_err Deserialization (secrets_from_cbor ext plain)))"

section \<open>What is documented of the third-party code\<close>

definition crypto_correct :: "crypto_ext \<Rightarrow> bool" where
  "crypto_correct ext \<longleftrightarrow>
     (\<forall>s. length (x25519_public ext s) = 32)
     \<and> (\<forall>a b. x25519_dh ext a (x25519_public ext b) = x25519_dh ext b (x25519_public ext a))
     \<and> (\<forall>k n aad m c. aead_seal ext k n aad m = Inr c \<longrightarrow> aead_open ext k n aad c = Inr m)
     \<and> (\<forall>xs bs. secrets_to_cbor ext xs = Inr bs \<longrightarrow> secrets_from_cbor ext bs = Inr xs)"

lemma encrypt_Inr_iff:
  "encrypt_secrets_box ext nonce our r xs = Inr box \<longleftrightarrow>
     (\<exists>payload ct. secrets_to_cbor ext xs = Inr payload
       \<and> aead_seal ext (derive_symmetric_key ext (diffie_hellman ext our r)) nonce
           (r @ kx_public our) payload = Inr ct
       \<and> box = \<lparr>encrypted_payload = nonce @ ct, sender_public_key = kx_public our,
                box_alg = ''X25519_AES-GCM-SIV'',
                contained_secret_ids = map (\<lambda>(i, _, _, _). i) xs\<rparr>)"
  by (auto simp: encrypt_secrets_box_def encrypt_aead_def Let_def result_simps)

lemma decrypt_encrypt:
  assumes cc: "crypto_correct ext" and n: "length nonce = 12"
    and enc: "encrypt_secrets_box ext nonce (kx_from_secret ext a) (x25519_public ext b) xs = Inr box"
  shows "decrypt_secrets_box ext (kx_from_secret ext b) box = Inr xs"
proof -
  from enc obtain payload ct where
    p: "secrets_to_cbor ext xs = Inr payload"
    and s: "aead_seal ext (derive_symmetric_key ext (x25519_dh ext a (x25519_public ext b))) nonce
           (x25519_public ext b @ x25519_public ext a) payload = Inr ct"
    and box: "box = \<lparr>encrypted_payload = nonce @ ct, sender_public_key = x25519_public ext a,
                box_alg = ''X25519_AES-GCM-SIV'',
                contained_secret_ids = map (\<lambda>(i, _, _, _). i) xs\<rparr>"
    by (auto simp: encrypt_Inr_iff diffie_hellman_def kx_from_secret_def)
  have "x25519_dh ext b (x25519_public ext a) = x25519_dh ext a (x25519_public ext b)"
    "length (x25519_public ext a) = 32"
    using cc by (simp_all add: crypto_correct_def)
  then have "decrypt_aead ext
      (derive_symmetric_key ext (diffie_hellman ext (kx_from_secret ext b) (x25519_public ext a)))
      nonce ct (x25519_public ext b @ x25519_public ext a) = Inr payload"
    using cc s n
    by (simp add: decrypt_aead_def AES_NONCE_SIZE_def crypto_correct_def diffie_hellman_def
        kx_from_secret_def map_err_Inr_iff)
  moreover have "secrets_from_cbor ext payload = Inr xs" using cc p by (simp add: crypto_correct_def)
  ultimately show ?thesis using n \<open>length (x25519_public ext a) = 32\<close>
    by (simp add: decrypt_secrets_box_def box Let_def AES_NONCE_SIZE_def)
      (simp add: kx_from_secret_def)
qed

section \<open>A model of the third-party code\<close>

text \<open>
  A concrete (and insecure) instance in which every law holds: the public key is the padded secret
  and the shared secret the byte-wise sum. It shows that \<open>crypto_correct\<close> can hold. \<open>known\<close> are
  the lists that the sample CBOR codec can write, one byte each.
\<close>

definition pad32 :: "bytes \<Rightarrow> bytes" where
  "pad32 bs = take 32 (bs @ replicate 32 0)"

definition sample_crypto :: "packed_secret list list \<Rightarrow> crypto_ext" where
  "sample_crypto known =
    \<lparr>x25519_public = pad32,
     x25519_dh = (\<lambda>a p. map (\<lambda>i. pad32 a ! i + p ! i) [0..<32]),
     kdf_sha256 = (\<lambda>s. s),
     aead_seal = (\<lambda>k n aad m. Inr (aad @ m)),
     aead_open = (\<lambda>k n aad c. if take (length aad) c = aad then Inr (drop (length aad) c)
                             else Inl ''aead::Error''),
     secrets_to_cbor = (\<lambda>xs. case find (\<lambda>i. known ! i = xs) [0..<min 256 (length known)] of
         Some i \<Rightarrow> Inr [word_of_nat i] | None \<Rightarrow> Inl ''io''),
     secrets_from_cbor = (\<lambda>bs. if length bs = 1 \<and> unat (bs ! 0) < length known
         then Inr (known ! unat (bs ! 0)) else Inl ''syntax'')\<rparr>"

lemma length_pad32 [simp]: "length (pad32 bs) = 32"
  by (simp add: pad32_def)

lemma pad32_id [simp]: "length bs = 32 \<Longrightarrow> pad32 bs = bs"
  by (simp add: pad32_def)

lemma sample_crypto_correct: "crypto_correct (sample_crypto known)"
  by (auto simp: crypto_correct_def sample_crypto_def add.commute unat_of_nat_byte find_Some_iff
      split: option.splits)

section \<open>Properties\<close>

text \<open>
  C20: A box sealed for a public key opens with its secret key and gives back the secrets, with
  identifiers, data, expiry and generation time, under the documented laws of X25519, AES-GCM-SIV
  and CBOR; it names its sender and lists exactly the identifiers it contains.
\<close>

theorem secrets_box_round_trip:
  assumes "crypto_correct ext" "length nonce = 12"
    and "encrypt_secrets_box ext nonce (kx_from_secret ext a) (x25519_public ext b) xs = Inr box"
  shows "decrypt_secrets_box ext (kx_from_secret ext b) box = Inr xs
    \<and> sender_public_key box = x25519_public ext a
    \<and> contained_secret_ids box = map fst xs"
  using decrypt_encrypt [OF assms] assms(3)
  by (auto simp: encrypt_Inr_iff kx_from_secret_def fst_def split: prod.splits)

definition sample_secret :: packed_secret where
  "sample_secret = (SecretId (ChainId 1) (replicate 20 1) 5, [42], 0, 7)"

theorem secrets_box_round_trip_witness:
  "\<exists>box. encrypt_secrets_box (sample_crypto [[sample_secret]]) (replicate 12 0)
       (kx_from_secret (sample_crypto [[sample_secret]]) [1])
       (x25519_public (sample_crypto [[sample_secret]]) [2]) [sample_secret] = Inr box
     \<and> decrypt_secrets_box (sample_crypto [[sample_secret]])
         (kx_from_secret (sample_crypto [[sample_secret]]) [2]) box = Inr [sample_secret]"
proof -
  let ?x = "sample_crypto [[sample_secret]]"
  have "\<exists>box. encrypt_secrets_box ?x (replicate 12 0) (kx_from_secret ?x [1]) (x25519_public ?x [2])
      [sample_secret] = Inr box"
    by (simp add: encrypt_Inr_iff sample_crypto_def)
  then obtain box where "encrypt_secrets_box ?x (replicate 12 0) (kx_from_secret ?x [1])
      (x25519_public ?x [2]) [sample_secret] = Inr box" by blast
  with secrets_box_round_trip [OF sample_crypto_correct _ this] show ?thesis by auto
qed

text \<open>
  Opening rejects, in this order and with its own error each, another algorithm name, a sender
  key that is not 32 bytes and a payload shorter than a nonce; in particular the box of
  \<open>SecretsBox::new_empty\<close> is rejected by its algorithm name.
\<close>

theorem decrypt_secrets_box_errors:
  "(box_alg box \<noteq> ''X25519_AES-GCM-SIV'' \<longrightarrow>
      decrypt_secrets_box ext kp box
        = Inl (OperationFailed (''Unsupported SecretsBox algorithm: '' @ box_alg box)))
   \<and> (box_alg box = ''X25519_AES-GCM-SIV'' \<and> length (sender_public_key box) \<noteq> 32 \<longrightarrow>
      decrypt_secrets_box ext kp box = Inl (InvalidKeyLength 32 (length (sender_public_key box))))
   \<and> (box_alg box = ''X25519_AES-GCM-SIV'' \<and> length (sender_public_key box) = 32
        \<and> length (encrypted_payload box) < 12 \<longrightarrow>
      decrypt_secrets_box ext kp box = Inl (OperationFailed ''Encrypted payload too short''))"
  by (simp add: decrypt_secrets_box_def AES_NONCE_SIZE_def)

theorem decrypt_secrets_box_errors_witness:
  "decrypt_secrets_box (sample_crypto []) (kx_from_secret (sample_crypto []) [1]) secrets_box_new_empty
     = Inl (OperationFailed ''Unsupported SecretsBox algorithm: X25519_AES-GCM-SIV_Ed25519'')"
  using decrypt_secrets_box_errors
    [of secrets_box_new_empty "sample_crypto []" "kx_from_secret (sample_crypto []) [1]"]
  by (simp add: secrets_box_new_empty_def)

end
