(* ===== verification/Enclave_Secrets.thy ===== *)
theory Enclave_Secrets
  imports Attestation Crypto_Box
begin

text \<open>
  The enclave's store of secrets (\<open>src/node/enclave/src/secrets/mod.rs\<close>): the stored secrets, the
  authorizations that the runner's policy executions grant, and the operations of the service.

  The two \<open>RwLock\<close>ed maps are the state; an operation happens at one instant \<open>now\<close> (the code
  reads the clock at its start and again in each authorization check). The attestation service is
  used through the function \<open>vfy\<close>: \<open>vfy k b\<close> is the answer to the \<open>k\<close>-th call of an
  operation. \<open>own\<close> is the enclave's own fresh attestation (\<open>get_report\<close>). CBOR of identifiers and
  consumers and SHA-256 are the fields of \<open>auth_ext\<close>.
\<close>

section \<open>State\<close>

record stored_secret =
  ss_data :: bytes
  ss_expiry :: u64
  ss_generation :: u64

record secrets =
  kx_keypair_of :: kx_keypair
  secrets_storage :: "secret_id \<rightharpoonup> stored_secret"
  authorizations :: "bytes \<rightharpoonup> u64"

record auth_ext =
  auth_sha256 :: "bytes \<Rightarrow> bytes"
  secret_id_cbor :: "secret_id \<Rightarrow> bytes"
  consumer_cbor :: "consumer_info \<Rightarrow> bytes"
  auth_userdata :: "bytes \<Rightarrow> string + user_data"

type_synonym verifier = "nat \<Rightarrow> attestation_bundle \<Rightarrow> attestation_error + standardized_claims"

definition secrets_new :: "kx_keypair \<Rightarrow> secrets" where
  "secrets_new kp =
    \<lparr>kx_keypair_of = kp, secrets_storage = Map.empty, authorizations = Map.empty\<rparr>"

section \<open>Authorizations\<close>

definition calculate_authorization_id ::
  "auth_ext \<Rightarrow> bytes \<Rightarrow> secret_id \<Rightarrow> consumer_info \<Rightarrow> bytes" where
  "calculate_authorization_id ax key sid ci =
     auth_sha256 ax (secret_id_cbor ax sid @ key @ consumer_cbor ax ci)"

definition store_authorization ::
  "auth_ext \<Rightarrow> policy_execution_report \<Rightarrow> secrets \<Rightarrow> secrets" where
  "store_authorization ax report s =
    (if \<not> pr_decision report then s else
     case auth_userdata ax (detached_userdata (er_attestation (per_env_report (pr_request report)))) of
       Inl _ \<Rightarrow> s
     | Inr u \<Rightarrow>
       let expiry = pr_timestamp report + 3600 in
       s\<lparr>authorizations := foldl (\<lambda>m sid.
           m(calculate_authorization_id ax (ephemeral_public_key u) sid (per_consumer (pr_request report))
             \<mapsto> expiry)) (authorizations s) (per_secret_ids (pr_request report))\<rparr>)"

definition check_authorization ::
  "auth_ext \<Rightarrow> u64 \<Rightarrow> secrets \<Rightarrow> attestation_bundle \<Rightarrow> secret_id \<Rightarrow> consumer_info \<Rightarrow> bool" where
  "check_authorization ax now s b sid ci =
    (case auth_userdata ax (detached_userdata b) of
       Inl _ \<Rightarrow> False
     | Inr u \<Rightarrow> (case authorizations s (calculate_authorization_id ax (ephemeral_public_key u) sid ci) of
          Some expiry \<Rightarrow> expiry > now
        | None \<Rightarrow> False))"

section \<open>Operations\<close>

definition secrets_verify ::
  "verifier \<Rightarrow> nat \<Rightarrow> attestation_bundle \<Rightarrow> attestation_error + bytes" where
  "secrets_verify vfy k b = (case vfy k b of
      Inr _ \<Rightarrow> Inr (detached_userdata b)
    | Inl e \<Rightarrow> Inl e)"

text \<open>\<open>expiry == 0 || expiry > current_time\<close>\<close>

definition unexpired :: "u64 \<Rightarrow> u64 \<Rightarrow> bool" where
  "unexpired now expiry \<longleftrightarrow> expiry = 0 \<or> expiry > now"

text \<open>The inner loop of \<open>put_secrets\<close>: one decrypted secret, and the count of stored ones.\<close>

definition store_packed ::
  "u64 \<Rightarrow> (secret_id \<rightharpoonup> stored_secret) \<times> nat \<Rightarrow> packed_secret
     \<Rightarrow> (secret_id \<rightharpoonup> stored_secret) \<times> nat" where
  "store_packed now acc x = (case acc of (m, n) \<Rightarrow> case x of (sid, data, expiry, gen) \<Rightarrow>
     let new = \<lparr>ss_data = data, ss_expiry = expiry, ss_generation = gen\<rparr> in
     if expiry \<noteq> 0 \<and> expiry \<le> now then (m, n)
     else case m sid of
       Some old \<Rightarrow> if gen > ss_generation old then (m(sid \<mapsto> new), n + 1) else (m, n)
     | None \<Rightarrow> (m(sid \<mapsto> new), n + 1))"

type_synonym put_bundle = "secrets_box \<times> env_report \<times> consumer_info"

text \<open>The first loop: bundles whose attestation verifies, with their user data.\<close>

fun verified_bundles :: "verifier \<Rightarrow> nat \<Rightarrow> put_bundle list \<Rightarrow> (put_bundle \<times> bytes) list" where
  "verified_bundles vfy k [] = []"
| "verified_bundles vfy k ((box, env, ci) # bs) =
    (case secrets_verify vfy k (er_attestation env) of
       Inr ud \<Rightarrow> ((box, env, ci), ud) # verified_bundles vfy (k + 1) bs
     | Inl _ \<Rightarrow> verified_bundles vfy (k + 1) bs)"

text \<open>The body of the second loop.\<close>

definition accept_bundle ::
  "crypto_ext \<Rightarrow> auth_ext \<Rightarrow> u64 \<Rightarrow> secrets \<Rightarrow> put_bundle \<times> bytes \<Rightarrow> packed_secret list option" where
  "accept_bundle cx ax now s vb = (case vb of ((box, env, ci), ud) \<Rightarrow>
    case auth_userdata ax ud of
      Inl _ \<Rightarrow> None
    | Inr u \<Rightarrow>
      if ephemeral_public_key u \<noteq> sender_public_key box then None
      else if \<not> list_all (\<lambda>sid. check_authorization ax now s (er_attestation env) sid ci)
                  (contained_secret_ids box) then None
      else result_ok (decrypt_secrets_box cx (kx_keypair_of s) box))"

definition put_bundle_step ::
  "crypto_ext \<Rightarrow> auth_ext \<Rightarrow> u64 \<Rightarrow> secrets \<times> nat \<Rightarrow> put_bundle \<times> bytes \<Rightarrow> secrets \<times> nat" where
  "put_bundle_step cx ax now acc vb = (case acc of (s, n) \<Rightarrow>
    case accept_bundle cx ax now s vb of
      None \<Rightarrow> (s, n)
    | Some xs \<Rightarrow> (case foldl (store_packed now) (secrets_storage s, n) xs of (m, n') \<Rightarrow>
        (s\<lparr>secrets_storage := m\<rparr>, n')))"

definition put_secrets ::
  "crypto_ext \<Rightarrow> auth_ext \<Rightarrow> u64 \<Rightarrow> verifier \<Rightarrow> put_bundle list \<Rightarrow> secrets \<Rightarrow> secrets \<times> bool" where
  "put_secrets cx ax now vfy bundles s =
    (case foldl (put_bundle_step cx ax now) (s, 0) (verified_bundles vfy 0 bundles) of
       (s', n) \<Rightarrow> (s', n > 0))"

datatype generate_error = ReportFailed attestation_error | SecretExists secret_id | RngFailed string

text \<open>
  The loop of \<open>generate_secrets\<close>; \<open>draw k\<close> is the \<open>k\<close>-th use of the operating system's random
  source. An error leaves the secrets stored before it.
\<close>

fun generate_loop ::
  "auth_ext \<Rightarrow> u64 \<Rightarrow> attestation_bundle \<Rightarrow> (nat \<Rightarrow> string + bytes) \<Rightarrow> nat
     \<Rightarrow> (secret_id \<times> consumer_info) list \<Rightarrow> secrets \<Rightarrow> secrets \<times> (generate_error + unit)" where
  "generate_loop ax now own draw k [] s = (s, Inr ())"
| "generate_loop ax now own draw k ((sid, ci) # rs) s =
    (if \<not> check_authorization ax now s own sid ci then generate_loop ax now own draw k rs s
     else if secrets_storage s sid \<noteq> None then (s, Inl (SecretExists sid))
     else case draw k of
       Inl e \<Rightarrow> (s, Inl (RngFailed e))
     | Inr data \<Rightarrow> generate_loop ax now own draw (k + 1) rs
         (s\<lparr>secrets_storage := (secrets_storage s)(sid \<mapsto>
             \<lparr>ss_data = data, ss_expiry = 0, ss_generation = now\<rparr>)\<rparr>))"

definition generate_secrets ::
  "auth_ext \<Rightarrow> u64 \<Rightarrow> attestation_error + attestation_bundle \<Rightarrow> (nat \<Rightarrow> string + bytes)
     \<Rightarrow> (secret_id \<times> consumer_info) list \<Rightarrow> secrets \<Rightarrow> secrets \<times> (generate_error + unit)" where
  "generate_secrets ax now own draw rs s = (case own of
      Inl e \<Rightarrow> (s, Inl (ReportFailed e))
    | Inr b \<Rightarrow> generate_loop ax now b draw 0 rs s)"

definition get_secrets_for_local_worker ::
  "auth_ext \<Rightarrow> u64 \<Rightarrow> attestation_error + attestation_bundle \<Rightarrow> secrets
     \<Rightarrow> (secret_id \<times> string) list \<Rightarrow> consumer_info \<Rightarrow> attestation_error + (string \<rightharpoonup> bytes)" where
  "get_secrets_for_local_worker ax now own s ids ci =
    rbind own (\<lambda>b. Inr (foldl (\<lambda>m (sid, name).
      if check_authorization ax now s b sid ci then
        (case secrets_storage s sid of
           Some x \<Rightarrow> if unexpired now (ss_expiry x) then m(name \<mapsto> ss_data x) else m
         | None \<Rightarrow> m)
      else m) Map.empty ids))"

datatype get_error =
    RequesterAttestation attestation_error
  | RequesterUserdata string
  | RequesterKeyLength nat
  | BoxEncryption crypto_error

fun collect_packed ::
  "auth_ext \<Rightarrow> u64 \<Rightarrow> secrets \<Rightarrow> attestation_bundle \<Rightarrow> (secret_id \<times> consumer_info) list
     \<Rightarrow> packed_secret list" where
  "collect_packed ax now s b [] = []"
| "collect_packed ax now s b ((sid, ci) # rs) =
    (if \<not> check_authorization ax now s b sid ci then collect_packed ax now s b rs
     else case secrets_storage s sid of
       Some x \<Rightarrow>
         if unexpired now (ss_expiry x)
         then (sid, ss_data x, ss_expiry x, ss_generation x) # collect_packed ax now s b rs
         else collect_packed ax now s b rs
     | None \<Rightarrow> collect_packed ax now s b rs)"

definition get_secrets ::
  "crypto_ext \<Rightarrow> auth_ext \<Rightarrow> u64 \<Rightarrow> verifier \<Rightarrow> bytes \<Rightarrow> secrets
     \<Rightarrow> (secret_id \<times> consumer_info) list \<Rightarrow> env_report \<Rightarrow> get_error + secrets_box" where
  "get_secrets cx ax now vfy nonce s requests env =
    rbind (map_err RequesterAttestation (secrets_verify vfy 0 (er_attestation env))) (\<lambda>ud.
    rbind (map_err RequesterUserdata (auth_userdata ax ud)) (\<lambda>u.
    if length (ephemeral_public_key u) \<noteq> 32
    then Inl (RequesterKeyLength (length (ephemeral_public_key u)))
    else map_err BoxEncryption
      (encrypt_secrets_box cx nonce (kx_keypair_of s) (ephemeral_public_key u)
         (collect_packed ax now s (er_attestation env) requests))))"

definition check_secrets ::
  "u64 \<Rightarrow> secrets \<Rightarrow> secret_id list \<Rightarrow> (secret_id \<times> bool \<times> u64) list" where
  "check_secrets now s ids = map (\<lambda>i. case secrets_storage s i of
      Some x \<Rightarrow> (i, unexpired now (ss_expiry x), ss_expiry x)
    | None \<Rightarrow> (i, False, 0)) ids"

section \<open>The store only moves forward\<close>

definition storage_le ::
  "(secret_id \<rightharpoonup> stored_secret) \<Rightarrow> (secret_id \<rightharpoonup> stored_secret) \<Rightarrow> bool" where
  "storage_le m m' \<longleftrightarrow> (\<forall>i x. m i = Some x \<longrightarrow>
     (\<exists>y. m' i = Some y \<and> (y = x \<or> ss_generation x < ss_generation y)))"

lemma storage_le_refl [simp]: "storage_le m m"
  by (auto simp: storage_le_def)

lemma storage_leD:
  assumes "storage_le m m'" "m i = Some x"
  obtains y where "m' i = Some y" "y = x \<or> ss_generation x < ss_generation y"
  using assms unfolding storage_le_def by blast

lemma storage_le_trans:
  assumes "storage_le m m'" "storage_le m' m''"
  shows "storage_le m m''"
  unfolding storage_le_def
proof (intro allI impI)
  fix i x assume "m i = Some x"
  with assms(1) obtain y where y: "m' i = Some y" "y = x \<or> ss_generation x < ss_generation y"
    by (rule storage_leD)
  from assms(2) y(1) obtain z where "m'' i = Some z" "z = y \<or> ss_generation y < ss_generation z"
    by (rule storage_leD)
  with y(2) show "\<exists>z. m'' i = Some z \<and> (z = x \<or> ss_generation x < ss_generation z)"
    using order.strict_trans [of "ss_generation x" "ss_generation y" "ss_generation z"] by blast
qed

lemma storage_le_antisym:
  assumes "storage_le m m'" "storage_le m' m"
  shows "m = m'"
proof
  fix i
  show "m i = m' i"
  proof (cases "m i")
    case None
    then show ?thesis using assms(2) by (metis not_None_eq option.distinct(1) storage_leD)
  next
    case (Some x)
    with assms(1) obtain y where y: "m' i = Some y" "y = x \<or> ss_generation x < ss_generation y"
      by (rule storage_leD)
    from assms(2) y(1) obtain z where "m i = Some z" "z = y \<or> ss_generation y < ss_generation z"
      by (rule storage_leD)
    with y Some show ?thesis by auto
  qed
qed

lemma storage_le_new: "m i = None \<Longrightarrow> storage_le m (m(i \<mapsto> x))"
  by (auto simp: storage_le_def)

lemma storage_le_newer:
  "m i = Some old \<Longrightarrow> ss_generation old < ss_generation x \<Longrightarrow> storage_le m (m(i \<mapsto> x))"
  by (auto simp: storage_le_def)

lemma store_packed_cases:
  "store_packed now (m, n) x = (m, n) \<or>
   (\<exists>i new. store_packed now (m, n) x = (m(i \<mapsto> new), n + 1)
      \<and> unexpired now (ss_expiry new)
      \<and> x = (i, ss_data new, ss_expiry new, ss_generation new)
      \<and> (\<forall>old. m i = Some old \<longrightarrow> ss_generation old < ss_generation new))"
proof -
  obtain i d e g where x: "x = (i, d, e, g)" by (metis prod_cases4)
  let ?new = "\<lparr>ss_data = d, ss_expiry = e, ss_generation = g\<rparr>"
  show ?thesis
    by (cases "e \<noteq> 0 \<and> e \<le> now"; cases "m i")
      (auto simp: store_packed_def x unexpired_def not_le Let_def intro!: exI [of _ ?new])
qed

lemma store_packed_le: "storage_le m (fst (store_packed now (m, n) x))"
  using store_packed_cases [of now m n x]
  by (auto simp: storage_le_def)

text \<open>
  One step of the inner loop and one of the outer loop keep or raise the count, and the count says
  exactly whether the store changed.
\<close>

definition counted :: "('a \<rightharpoonup> 'b) \<times> nat \<Rightarrow> ('a \<rightharpoonup> 'b) \<times> nat \<Rightarrow> bool" where
  "counted a b \<longleftrightarrow> snd a \<le> snd b \<and> (snd b = snd a \<longleftrightarrow> fst b = fst a)"

lemma store_packed_counted: "counted acc (store_packed now acc x)"
proof (cases acc)
  case (Pair m n)
  have "m(i \<mapsto> new) \<noteq> m"
    if "\<forall>old. m i = Some old \<longrightarrow> ss_generation old < ss_generation new"
    for i and new :: stored_secret
    using that by (metis fun_upd_same less_irrefl)
  then show ?thesis using store_packed_cases [of now m n x] unfolding Pair counted_def by auto
qed

lemma store_all:
  "storage_le (fst acc) (fst (foldl (store_packed now) acc xs))
   \<and> counted acc (foldl (store_packed now) acc xs)"
proof (induction xs arbitrary: acc)
  case Nil
  then show ?case by (simp add: counted_def)
next
  case (Cons x xs)
  let ?a = "store_packed now acc x"
  have le: "storage_le (fst acc) (fst ?a)" "storage_le (fst ?a) (fst (foldl (store_packed now) ?a xs))"
    using store_packed_le [of "fst acc" now "snd acc" x] Cons.IH by simp_all
  have c: "counted acc ?a" "counted ?a (foldl (store_packed now) ?a xs)"
    using store_packed_counted Cons.IH by blast+
  have "fst (foldl (store_packed now) ?a xs) = fst acc \<Longrightarrow> fst ?a = fst acc"
    using le storage_le_antisym by fastforce
  with c have "counted acc (foldl (store_packed now) ?a xs)"
    by (auto simp: counted_def)
  with le storage_le_trans show ?case by (auto intro: storage_le_trans)
qed

lemma put_bundle_step_frame:
  "kx_keypair_of (fst (put_bundle_step cx ax now acc vb)) = kx_keypair_of (fst acc)
   \<and> authorizations (fst (put_bundle_step cx ax now acc vb)) = authorizations (fst acc)"
  by (auto simp: put_bundle_step_def split: prod.split option.split)

lemma put_bundle_step_store:
  "storage_le (secrets_storage (fst acc)) (secrets_storage (fst (put_bundle_step cx ax now acc vb)))
   \<and> counted (secrets_storage (fst acc), snd acc)
       (secrets_storage (fst (put_bundle_step cx ax now acc vb)),
        snd (put_bundle_step cx ax now acc vb))"
proof (cases acc)
  case (Pair s n)
  show ?thesis
  proof (cases "accept_bundle cx ax now s vb")
    case None
    then show ?thesis by (simp add: Pair put_bundle_step_def counted_def)
  next
    case (Some xs)
    obtain m n' where f: "foldl (store_packed now) (secrets_storage s, n) xs = (m, n')" by fastforce
    then show ?thesis using store_all [of "(secrets_storage s, n)" now xs]
      by (simp add: Pair put_bundle_step_def Some)
  qed
qed

lemma put_all_store:
  "storage_le (secrets_storage (fst acc))
     (secrets_storage (fst (foldl (put_bundle_step cx ax now) acc vbs)))
   \<and> counted (secrets_storage (fst acc), snd acc)
       (secrets_storage (fst (foldl (put_bundle_step cx ax now) acc vbs)),
        snd (foldl (put_bundle_step cx ax now) acc vbs))"
proof (induction vbs arbitrary: acc)
  case Nil
  then show ?case by (simp add: counted_def)
next
  case (Cons vb vbs)
  let ?a = "put_bundle_step cx ax now acc vb"
  let ?e = "foldl (put_bundle_step cx ax now) ?a vbs"
  have le: "storage_le (secrets_storage (fst acc)) (secrets_storage (fst ?a))"
    "storage_le (secrets_storage (fst ?a)) (secrets_storage (fst ?e))"
    using put_bundle_step_store Cons.IH by blast+
  have c: "counted (secrets_storage (fst acc), snd acc) (secrets_storage (fst ?a), snd ?a)"
    "counted (secrets_storage (fst ?a), snd ?a) (secrets_storage (fst ?e), snd ?e)"
    using put_bundle_step_store Cons.IH by blast+
  have "secrets_storage (fst ?e) = secrets_storage (fst acc) \<Longrightarrow>
      secrets_storage (fst ?a) = secrets_storage (fst acc)"
    using le storage_le_antisym by fastforce
  with c have "counted (secrets_storage (fst acc), snd acc) (secrets_storage (fst ?e), snd ?e)"
    by (auto simp: counted_def)
  with le show ?case by (auto intro: storage_le_trans)
qed

lemma put_all_frame:
  "kx_keypair_of (fst (foldl (put_bundle_step cx ax now) acc vbs)) = kx_keypair_of (fst acc)
   \<and> authorizations (fst (foldl (put_bundle_step cx ax now) acc vbs)) = authorizations (fst acc)"
  by (induction vbs arbitrary: acc) (simp_all add: put_bundle_step_frame)

lemma put_secrets_store:
  "storage_le (secrets_storage s) (secrets_storage (fst (put_secrets cx ax now vfy bs s)))"
  "snd (put_secrets cx ax now vfy bs s) \<longleftrightarrow>
     secrets_storage (fst (put_secrets cx ax now vfy bs s)) \<noteq> secrets_storage s"
  using put_all_store [of "(s, 0)" cx ax now "verified_bundles vfy 0 bs"]
  by (auto simp: put_secrets_def counted_def split: prod.split)

lemma put_secrets_frame:
  "kx_keypair_of (fst (put_secrets cx ax now vfy bs s)) = kx_keypair_of s"
  "authorizations (fst (put_secrets cx ax now vfy bs s)) = authorizations s"
  using put_all_frame [of cx ax now "(s, 0)" "verified_bundles vfy 0 bs"]
  by (auto simp: put_secrets_def split: prod.split)

section \<open>What a changed secret proves\<close>

lemma store_packed_changed:
  assumes "fst (store_packed now acc x) i \<noteq> fst acc i"
  obtains new where "fst (store_packed now acc x) i = Some new" "unexpired now (ss_expiry new)"
    "x = (i, ss_data new, ss_expiry new, ss_generation new)"
proof -
  from store_packed_cases [of now "fst acc" "snd acc" x] assms obtain j new where
    e: "store_packed now acc x = ((fst acc)(j \<mapsto> new), snd acc + 1)" "unexpired now (ss_expiry new)"
      "x = (j, ss_data new, ss_expiry new, ss_generation new)"
    by fastforce
  with assms have "j = i" by (cases "j = i") auto
  with e that show thesis by simp
qed

lemma store_all_changed:
  "fst (foldl (store_packed now) acc xs) i \<noteq> fst acc i \<Longrightarrow>
     \<exists>new. fst (foldl (store_packed now) acc xs) i = Some new \<and> unexpired now (ss_expiry new)
       \<and> (i, ss_data new, ss_expiry new, ss_generation new) \<in> set xs"
proof (induction xs arbitrary: acc)
  case (Cons x xs)
  let ?a = "store_packed now acc x"
  show ?case
  proof (cases "fst (foldl (store_packed now) ?a xs) i = fst ?a i")
    case True
    then have "fst ?a i \<noteq> fst acc i" using Cons.prems by simp
    then obtain new where "fst ?a i = Some new" "unexpired now (ss_expiry new)"
      "x = (i, ss_data new, ss_expiry new, ss_generation new)"
      by (rule store_packed_changed)
    then show ?thesis using True by (intro exI [of _ new]) simp
  next
    case False
    from Cons.IH [OF this] show ?thesis by auto
  qed
qed simp

lemma check_authorization_cong:
  "authorizations s' = authorizations s \<Longrightarrow>
     check_authorization ax now s' b sid ci = check_authorization ax now s b sid ci"
  by (cases "auth_userdata ax (detached_userdata b)") (simp_all add: check_authorization_def)

lemma accept_bundle_cong:
  assumes "authorizations s' = authorizations s" "kx_keypair_of s' = kx_keypair_of s"
  shows "accept_bundle cx ax now s' vb = accept_bundle cx ax now s vb"
proof -
  have "check_authorization ax now s' = check_authorization ax now s"
    by (intro ext check_authorization_cong assms)
  then show ?thesis by (simp only: accept_bundle_def assms)
qed

lemma put_all_changed:
  "secrets_storage (fst (foldl (put_bundle_step cx ax now) acc vbs)) i
      \<noteq> secrets_storage (fst acc) i \<Longrightarrow>
   \<exists>vb \<in> set vbs. \<exists>xs new. accept_bundle cx ax now (fst acc) vb = Some xs
     \<and> secrets_storage (fst (foldl (put_bundle_step cx ax now) acc vbs)) i = Some new
     \<and> unexpired now (ss_expiry new)
     \<and> (i, ss_data new, ss_expiry new, ss_generation new) \<in> set xs"
proof (induction vbs arbitrary: acc)
  case (Cons vb vbs)
  let ?a = "put_bundle_step cx ax now acc vb"
  have fr: "accept_bundle cx ax now (fst ?a) v = accept_bundle cx ax now (fst acc) v" for v
    using put_bundle_step_frame [of cx ax now acc vb] by (intro accept_bundle_cong) auto
  show ?case
  proof (cases "secrets_storage (fst (foldl (put_bundle_step cx ax now) ?a vbs)) i
      = secrets_storage (fst ?a) i")
    case True
    then have ne: "secrets_storage (fst ?a) i \<noteq> secrets_storage (fst acc) i" using Cons.prems by simp
    then obtain xs where xs: "accept_bundle cx ax now (fst acc) vb = Some xs"
      by (cases "accept_bundle cx ax now (fst acc) vb")
        (auto simp: put_bundle_step_def split: prod.splits)
    then have st: "secrets_storage (fst ?a)
        = fst (foldl (store_packed now) (secrets_storage (fst acc), snd acc) xs)"
      by (auto simp: put_bundle_step_def split: prod.splits)
    from store_all_changed [of now "(secrets_storage (fst acc), snd acc)" xs i] ne
    show ?thesis unfolding st [symmetric] using True xs by auto
  next
    case False
    from Cons.IH [OF this] show ?thesis unfolding fr by auto
  qed
qed simp

lemma verified_bundles_sub:
  "((box, env, ci), ud) \<in> set (verified_bundles vfy k bs) \<Longrightarrow>
     (box, env, ci) \<in> set bs \<and> ud = detached_userdata (er_attestation env)
     \<and> (\<exists>j c. vfy j (er_attestation env) = Inr c)"
proof (induction vfy k bs rule: verified_bundles.induct)
  case (2 vfy k box' env' ci' bs)
  then show ?case
    by (cases "vfy k (er_attestation env')") (auto simp: secrets_verify_def)
qed simp

lemma accept_bundle_Some_iff:
  "accept_bundle cx ax now s ((box, env, ci), ud) = Some xs \<longleftrightarrow>
     (\<exists>u. auth_userdata ax ud = Inr u \<and> ephemeral_public_key u = sender_public_key box
       \<and> list_all (\<lambda>sid. check_authorization ax now s (er_attestation env) sid ci)
           (contained_secret_ids box)
       \<and> decrypt_secrets_box cx (kx_keypair_of s) box = Inr xs)"
  by (auto simp: accept_bundle_def result_ok_def split: sum.splits if_splits)

lemma put_secrets_changed:
  assumes "secrets_storage (fst (put_secrets cx ax now vfy bs s)) i \<noteq> secrets_storage s i"
  shows "\<exists>box env ci u xs new. (box, env, ci) \<in> set bs
    \<and> (\<exists>j c. vfy j (er_attestation env) = Inr c)
    \<and> auth_userdata ax (detached_userdata (er_attestation env)) = Inr u
    \<and> ephemeral_public_key u = sender_public_key box
    \<and> (\<forall>sid \<in> set (contained_secret_ids box).
         check_authorization ax now s (er_attestation env) sid ci)
    \<and> decrypt_secrets_box cx (kx_keypair_of s) box = Inr xs
    \<and> secrets_storage (fst (put_secrets cx ax now vfy bs s)) i = Some new
    \<and> unexpired now (ss_expiry new)
    \<and> (i, ss_data new, ss_expiry new, ss_generation new) \<in> set xs"
proof -
  have st: "secrets_storage (fst (put_secrets cx ax now vfy bs s))
      = secrets_storage (fst (foldl (put_bundle_step cx ax now) (s, 0) (verified_bundles vfy 0 bs)))"
    by (simp add: put_secrets_def split: prod.split)
  from put_all_changed [of cx ax now "(s, 0)" "verified_bundles vfy 0 bs" i] assms obtain vb xs new where
    vb: "vb \<in> set (verified_bundles vfy 0 bs)" "accept_bundle cx ax now s vb = Some xs"
    and new: "secrets_storage (fst (put_secrets cx ax now vfy bs s)) i = Some new"
      "unexpired now (ss_expiry new)" "(i, ss_data new, ss_expiry new, ss_generation new) \<in> set xs"
    unfolding st by auto
  obtain p ud where "vb = (p, ud)" by fastforce
  moreover obtain box env ci where "p = (box, env, ci)" by (cases p)
  ultimately have e: "vb = ((box, env, ci), ud)" by simp
  from verified_bundles_sub [OF vb(1) [unfolded e]] vb(2) [unfolded e accept_bundle_Some_iff] new
  show ?thesis by (auto simp: list_all_iff, blast)
qed

section \<open>Generation\<close>

definition generated_from ::
  "auth_ext \<Rightarrow> u64 \<Rightarrow> attestation_bundle \<Rightarrow> secrets \<Rightarrow> (secret_id \<times> consumer_info) list
     \<Rightarrow> (secret_id \<rightharpoonup> stored_secret) \<Rightarrow> bool" where
  "generated_from ax now own s rs m' \<longleftrightarrow>
     (\<forall>i x. secrets_storage s i = Some x \<longrightarrow> m' i = Some x)
     \<and> (\<forall>i y. secrets_storage s i = None \<longrightarrow> m' i = Some y \<longrightarrow>
          ss_expiry y = 0 \<and> ss_generation y = now
          \<and> (\<exists>ci. (i, ci) \<in> set rs \<and> check_authorization ax now s own i ci))"

lemma generated_from_mono:
  "generated_from ax now own s rs m \<Longrightarrow> set rs \<subseteq> set rs' \<Longrightarrow> generated_from ax now own s rs' m"
  unfolding generated_from_def by blast

lemma generated_from_step:
  assumes g: "generated_from ax now own (s\<lparr>secrets_storage := (secrets_storage s)(sid \<mapsto> new)\<rparr>) rs m"
    and none: "secrets_storage s sid = None" and auth: "check_authorization ax now s own sid ci"
    and new: "ss_expiry new = 0" "ss_generation new = now"
  shows "generated_from ax now own s ((sid, ci) # rs) m"
  unfolding generated_from_def
proof (intro conjI allI impI)
  let ?s = "s\<lparr>secrets_storage := (secrets_storage s)(sid \<mapsto> new)\<rparr>"
  show "m i = Some x" if "secrets_storage s i = Some x" for i x
    using g none that unfolding generated_from_def by (cases "i = sid") auto
  have c: "check_authorization ax now ?s own i c = check_authorization ax now s own i c" for i c
    by (rule check_authorization_cong) simp
  fix i y assume i: "secrets_storage s i = None" "m i = Some y"
  have "ss_expiry y = 0 \<and> ss_generation y = now
      \<and> (\<exists>c. (i, c) \<in> set ((sid, ci) # rs) \<and> check_authorization ax now s own i c)"
  proof (cases "i = sid")
    case True
    with g i have "y = new" unfolding generated_from_def by auto
    with True auth new show ?thesis by auto
  next
    case False
    with i(1) have "secrets_storage ?s i = None" by simp
    with g i(2) have "ss_expiry y = 0 \<and> ss_generation y = now
        \<and> (\<exists>c. (i, c) \<in> set rs \<and> check_authorization ax now ?s own i c)"
      unfolding generated_from_def by blast
    then show ?thesis unfolding c by auto
  qed
  then show "ss_expiry y = 0" "ss_generation y = now"
    "\<exists>c. (i, c) \<in> set ((sid, ci) # rs) \<and> check_authorization ax now s own i c" by blast+
qed

lemma generate_loop_spec:
  "generated_from ax now own s rs (secrets_storage (fst (generate_loop ax now own draw k rs s)))
   \<and> authorizations (fst (generate_loop ax now own draw k rs s)) = authorizations s
   \<and> kx_keypair_of (fst (generate_loop ax now own draw k rs s)) = kx_keypair_of s"
proof (induction ax now own draw k rs s rule: generate_loop.induct)
  case (1 ax now own draw k s)
  then show ?case by (simp add: generated_from_def)
next
  case (2 ax now own draw k sid ci rs s)
  show ?case
  proof (cases "check_authorization ax now s own sid ci")
    case False
    then show ?thesis using 2(1) by (auto intro: generated_from_mono)
  next
    case auth: True
    show ?thesis
    proof (cases "secrets_storage s sid")
      case (Some x)
      then show ?thesis using auth by (auto simp: generated_from_def)
    next
      case None
      show ?thesis
      proof (cases "draw k")
        case (Inl e)
        then show ?thesis using auth None by (auto simp: generated_from_def)
      next
        case (Inr data)
        let ?s = "s\<lparr>secrets_storage := (secrets_storage s)(sid \<mapsto>
             \<lparr>ss_data = data, ss_expiry = 0, ss_generation = now\<rparr>)\<rparr>"
        have step: "generate_loop ax now own draw k ((sid, ci) # rs) s
            = generate_loop ax now own draw (k + 1) rs ?s"
          using auth None Inr by simp
        from 2(2) [OF _ _ Inr] auth None have
          ih: "generated_from ax now own ?s rs
                 (secrets_storage (fst (generate_loop ax now own draw (k + 1) rs ?s)))"
            "authorizations (fst (generate_loop ax now own draw (k + 1) rs ?s)) = authorizations s"
            "kx_keypair_of (fst (generate_loop ax now own draw (k + 1) rs ?s)) = kx_keypair_of s"
          by simp_all
        show ?thesis unfolding step using ih(2,3) generated_from_step [OF ih(1) None auth] by simp
      qed
    qed
  qed
qed

lemma generate_loop_ok:
  "generate_loop ax now own draw k rs s = (s', Inr ()) \<Longrightarrow>
     (sid, ci) \<in> set rs \<Longrightarrow> check_authorization ax now s own sid ci \<Longrightarrow>
     secrets_storage s sid = None \<and> (\<exists>x. secrets_storage s' sid = Some x)"
proof (induction ax now own draw k rs s rule: generate_loop.induct)
  case (2 ax now own draw k sid' ci' rs s)
  show ?case
  proof (cases "check_authorization ax now s own sid' ci'")
    case False
    then show ?thesis using 2 by auto
  next
    case auth: True
    with 2(3) obtain data where none: "secrets_storage s sid' = None" and d: "draw k = Inr data"
      by (auto split: if_splits sum.splits)
    let ?s = "s\<lparr>secrets_storage := (secrets_storage s)(sid' \<mapsto>
         \<lparr>ss_data = data, ss_expiry = 0, ss_generation = now\<rparr>)\<rparr>"
    have run: "generate_loop ax now own draw (k + 1) rs ?s = (s', Inr ())"
      using 2(3) auth none d by simp
    have kept: "\<exists>x. secrets_storage s' sid' = Some x"
      using generate_loop_spec [of ax now own ?s rs draw "k + 1"] run
      by (auto simp: generated_from_def)
    have c: "check_authorization ax now ?s own sid ci"
      using 2(5) check_authorization_cong [of ?s s ax now own sid ci] by simp
    show ?thesis
    proof (cases "(sid, ci) \<in> set rs")
      case True
      from 2(2) [OF _ _ d run True c] auth none show ?thesis by (auto split: if_splits)
    next
      case False
      with 2(4) none kept show ?thesis by auto
    qed
  qed
qed simp

section \<open>Authorizations and their origin\<close>

definition report_grants ::
  "auth_ext \<Rightarrow> policy_execution_report \<Rightarrow> bytes \<Rightarrow> u64 \<Rightarrow> bool" where
  "report_grants ax r h e \<longleftrightarrow> pr_decision r \<and> e = pr_timestamp r + 3600
     \<and> (\<exists>u sid. auth_userdata ax (detached_userdata (er_attestation (per_env_report (pr_request r)))) = Inr u
          \<and> sid \<in> set (per_secret_ids (pr_request r))
          \<and> h = calculate_authorization_id ax (ephemeral_public_key u) sid (per_consumer (pr_request r)))"

lemma foldl_insert_lookup:
  "foldl (\<lambda>m x. m(f x \<mapsto> e)) m xs h = (if h \<in> f ` set xs then Some e else m h)"
  by (induction xs arbitrary: m) auto

lemma store_authorization_lookup:
  "authorizations (store_authorization ax r s) h =
     (if report_grants ax r h (pr_timestamp r + 3600) then Some (pr_timestamp r + 3600)
      else authorizations s h)"
  by (auto simp: store_authorization_def report_grants_def foldl_insert_lookup Let_def
      split: sum.splits)

lemma store_authorization_frame [simp]:
  "secrets_storage (store_authorization ax r s) = secrets_storage s"
  "kx_keypair_of (store_authorization ax r s) = kx_keypair_of s"
  by (auto simp: store_authorization_def Let_def split: sum.split)

section \<open>The service as a machine\<close>

datatype secrets_op =
    PutSecrets u64 verifier "put_bundle list"
  | GenerateSecrets u64 "attestation_error + attestation_bundle" "nat \<Rightarrow> string + bytes"
      "(secret_id \<times> consumer_info) list"
  | StoreAuthorization policy_execution_report

fun secrets_step :: "crypto_ext \<Rightarrow> auth_ext \<Rightarrow> secrets \<Rightarrow> secrets_op \<Rightarrow> secrets" where
  "secrets_step cx ax s (PutSecrets now vfy bs) = fst (put_secrets cx ax now vfy bs s)"
| "secrets_step cx ax s (GenerateSecrets now own draw rs) = fst (generate_secrets ax now own draw rs s)"
| "secrets_step cx ax s (StoreAuthorization r) = store_authorization ax r s"

lemma generated_le: "generated_from ax now own s rs m' \<Longrightarrow> storage_le (secrets_storage s) m'"
  by (auto simp: generated_from_def storage_le_def)

lemma generate_secrets_frame:
  "authorizations (fst (generate_secrets ax now own draw rs s)) = authorizations s
   \<and> kx_keypair_of (fst (generate_secrets ax now own draw rs s)) = kx_keypair_of s
   \<and> storage_le (secrets_storage s) (secrets_storage (fst (generate_secrets ax now own draw rs s)))"
proof (cases own)
  case (Inr b)
  then show ?thesis using generate_loop_spec [of ax now b s rs draw 0] generated_le
    by (auto simp: generate_secrets_def)
qed (simp add: generate_secrets_def)

interpretation secrets_mono: monotone_machine "secrets_step cx ax"
  "\<lambda>s t. storage_le (secrets_storage s) (secrets_storage t)" for cx ax
proof
  show "storage_le (secrets_storage s) (secrets_storage (secrets_step cx ax s op))" for s op
    using put_secrets_store(1) generate_secrets_frame by (cases op) auto
qed (auto intro: storage_le_trans)

text \<open>Every authorization in force comes from an approved policy execution of the run.\<close>

fun op_reports :: "secrets_op list \<Rightarrow> policy_execution_report list" where
  "op_reports [] = []"
| "op_reports (StoreAuthorization r # ops) = r # op_reports ops"
| "op_reports (_ # ops) = op_reports ops"

lemma op_reports_append: "op_reports (a @ b) = op_reports a @ op_reports b"
  by (induction a rule: op_reports.induct) auto

lemma secrets_step_auth:
  "authorizations (secrets_step cx ax s op) h = Some e \<Longrightarrow>
     authorizations s h = Some e \<or> (\<exists>r \<in> set (op_reports [op]). report_grants ax r h e)"
  using put_secrets_frame(2) generate_secrets_frame
  by (cases op) (auto simp: store_authorization_lookup split: if_splits)

lemma authorization_origin:
  "authorizations (foldl (secrets_step cx ax) (secrets_new kp) ops) h = Some e \<Longrightarrow>
     \<exists>r \<in> set (op_reports ops). report_grants ax r h e"
proof (induction ops rule: rev_induct)
  case Nil
  then show ?case by (simp add: secrets_new_def)
next
  case (snoc op ops)
  then show ?case
    using secrets_step_auth [of cx ax "foldl (secrets_step cx ax) (secrets_new kp) ops" op h e]
    by (auto simp: op_reports_append)
qed

section \<open>Release\<close>

lemma collect_packed_iff:
  "(sid, d, e, g) \<in> set (collect_packed ax now s b rs) \<longleftrightarrow>
     (\<exists>ci x. (sid, ci) \<in> set rs \<and> check_authorization ax now s b sid ci
        \<and> secrets_storage s sid = Some x \<and> unexpired now (ss_expiry x)
        \<and> d = ss_data x \<and> e = ss_expiry x \<and> g = ss_generation x)"
proof (induction rs)
  case (Cons r rs)
  obtain i c where r: "r = (i, c)" by fastforce
  show ?case
  proof (cases "check_authorization ax now s b i c \<and>
      (\<exists>x. secrets_storage s i = Some x \<and> unexpired now (ss_expiry x))")
    case True
    then obtain x where x: "secrets_storage s i = Some x" "unexpired now (ss_expiry x)"
      and c: "check_authorization ax now s b i c" by blast
    then have "collect_packed ax now s b (r # rs)
        = (i, ss_data x, ss_expiry x, ss_generation x) # collect_packed ax now s b rs"
      by (simp add: r)
    then show ?thesis using Cons.IH x c by (auto simp: r)
  next
    case False
    then have "collect_packed ax now s b (r # rs) = collect_packed ax now s b rs"
      by (auto simp: r split: option.split)
    then show ?thesis using Cons.IH False by (auto simp: r)
  qed
qed simp

lemma get_secrets_Inr_iff:
  "get_secrets cx ax now vfy nonce s rs env = Inr box \<longleftrightarrow>
     (\<exists>c u. vfy 0 (er_attestation env) = Inr c
        \<and> auth_userdata ax (detached_userdata (er_attestation env)) = Inr u
        \<and> length (ephemeral_public_key u) = 32
        \<and> encrypt_secrets_box cx nonce (kx_keypair_of s) (ephemeral_public_key u)
            (collect_packed ax now s (er_attestation env) rs) = Inr box)"
proof (cases "vfy 0 (er_attestation env)")
  case (Inr c)
  show ?thesis
  proof (cases "auth_userdata ax (detached_userdata (er_attestation env))")
    case u: (Inr u)
    then show ?thesis by (simp add: get_secrets_def secrets_verify_def Inr map_err_Inr_iff)
  qed (simp add: get_secrets_def secrets_verify_def Inr)
qed (simp add: get_secrets_def secrets_verify_def)

lemma get_secrets_contents:
  assumes cc: "crypto_correct cx" and n: "length nonce = 12"
    and kp: "kx_keypair_of s = kx_from_secret cx a"
    and u: "auth_userdata ax (detached_userdata (er_attestation env)) = Inr u"
      "ephemeral_public_key u = x25519_public cx b"
    and ok: "get_secrets cx ax now vfy nonce s rs env = Inr box"
  shows "decrypt_secrets_box cx (kx_from_secret cx b) box
           = Inr (collect_packed ax now s (er_attestation env) rs)"
  using ok u kp by (auto simp: get_secrets_Inr_iff intro: decrypt_encrypt [OF cc n])

lemma local_worker_lookup:
  assumes "get_secrets_for_local_worker ax now own s ids ci = Inr m" "m name = Some d"
  shows "\<exists>b sid x. own = Inr b \<and> (sid, name) \<in> set ids \<and> check_authorization ax now s b sid ci
     \<and> secrets_storage s sid = Some x \<and> unexpired now (ss_expiry x) \<and> d = ss_data x"
proof -
  from assms(1) obtain b where b: "own = Inr b" by (cases own) (auto simp: get_secrets_for_local_worker_def)
  let ?f = "\<lambda>m (sid, name). if check_authorization ax now s b sid ci then
        (case secrets_storage s sid of
           Some x \<Rightarrow> if unexpired now (ss_expiry x) then m(name \<mapsto> ss_data x) else m
         | None \<Rightarrow> m) else m"
  have "foldl ?f m0 ids name = Some d \<Longrightarrow> m0 name = Some d \<or>
      (\<exists>sid x. (sid, name) \<in> set ids \<and> check_authorization ax now s b sid ci
        \<and> secrets_storage s sid = Some x \<and> unexpired now (ss_expiry x) \<and> d = ss_data x)" for m0
  proof (induction ids arbitrary: m0)
    case (Cons p ids)
    obtain i n where p: "p = (i, n)" by fastforce
    have step: "?f m0 p name = Some d \<Longrightarrow> m0 name = Some d \<or>
        (n = name \<and> check_authorization ax now s b i ci
          \<and> (\<exists>x. secrets_storage s i = Some x \<and> unexpired now (ss_expiry x) \<and> d = ss_data x))"
      by (auto simp: p split: if_splits option.splits)
    from Cons.IH [of "?f m0 p"] Cons.prems step show ?case by (auto simp: p)
  qed simp
  from this [of Map.empty] assms b show ?thesis
    by (auto simp: get_secrets_for_local_worker_def)
qed

section \<open>Single bundles\<close>

lemma decrypt_ignores_ids:
  "decrypt_secrets_box cx kp (box\<lparr>contained_secret_ids := ids\<rparr>) = decrypt_secrets_box cx kp box"
  by (simp add: decrypt_secrets_box_def Let_def)

lemma put_single:
  assumes "vfy 0 (er_attestation env) = Inr c"
  shows "put_secrets cx ax now vfy [(box, env, ci)] s =
    (case accept_bundle cx ax now s ((box, env, ci), detached_userdata (er_attestation env)) of
       None \<Rightarrow> (s, False)
     | Some xs \<Rightarrow> (case foldl (store_packed now) (secrets_storage s, 0) xs of
         (m, n) \<Rightarrow> (s\<lparr>secrets_storage := m\<rparr>, n > 0)))"
  using assms
  by (simp add: put_secrets_def secrets_verify_def put_bundle_step_def split: option.split prod.split)

lemma put_unlisted:
  assumes cc: "crypto_correct cx" and n: "length nonce = 12"
    and kp: "kx_keypair_of s = kx_from_secret cx b"
    and enc: "encrypt_secrets_box cx nonce (kx_from_secret cx a) (x25519_public cx b)
                [(sid, data, 0, gen)] = Inr box"
    and v: "vfy 0 (er_attestation env) = Inr c"
    and u: "auth_userdata ax (detached_userdata (er_attestation env)) = Inr u"
      "ephemeral_public_key u = x25519_public cx a"
    and none: "authorizations s = Map.empty" "secrets_storage s sid = None"
  shows "put_secrets cx ax now vfy [(box, env, ci)] s = (s, False)"
    and "put_secrets cx ax now vfy [(box\<lparr>contained_secret_ids := []\<rparr>, env, ci)] s
      = (s\<lparr>secrets_storage := (secrets_storage s)(sid \<mapsto>
            \<lparr>ss_data = data, ss_expiry = 0, ss_generation = gen\<rparr>)\<rparr>, True)"
proof -
  have dec: "decrypt_secrets_box cx (kx_keypair_of s) box = Inr [(sid, data, 0, gen)]"
    unfolding kp using cc n enc by (rule decrypt_encrypt)
  have box: "contained_secret_ids box = [sid]" "sender_public_key box = x25519_public cx a"
    using enc by (auto simp: encrypt_Inr_iff kx_from_secret_def)
  show "put_secrets cx ax now vfy [(box, env, ci)] s = (s, False)"
    unfolding put_single [where vfy = vfy, OF v] using u none box
    by (simp add: accept_bundle_def check_authorization_def)
  show "put_secrets cx ax now vfy [(box\<lparr>contained_secret_ids := []\<rparr>, env, ci)] s
      = (s\<lparr>secrets_storage := (secrets_storage s)(sid \<mapsto>
            \<lparr>ss_data = data, ss_expiry = 0, ss_generation = gen\<rparr>)\<rparr>, True)"
    unfolding put_single [where vfy = vfy, OF v] using u none box dec
    by (simp add: accept_bundle_def decrypt_ignores_ids store_packed_def)
qed

section \<open>Properties\<close>

subsection \<open>Sample inputs of the witnesses\<close>

definition sample_auth :: auth_ext where
  "sample_auth = \<lparr>auth_sha256 = (\<lambda>bs. bs), secret_id_cbor = identity_address,
     consumer_cbor = bundle_hash, auth_userdata = (\<lambda>bs. Inr (user_data_new (pad32 bs) []))\<rparr>"

definition sample_verifier :: verifier where
  "sample_verifier k b = Inr (create_null_claims (pe_draws sample_env) [])"

definition sample_cx :: crypto_ext where
  "sample_cx = sample_crypto [[], [sample_secret]]"

definition sample_sid :: secret_id where "sample_sid = fst sample_secret"

definition sample_consumer :: consumer_info where "sample_consumer = ConsumerInfo [3] [4]"

definition sample_env_report :: "bytes \<Rightarrow> env_report" where
  "sample_env_report ud =
    \<lparr>er_attestation = \<lparr>ab_raw = \<lparr>platform_type = ''null'', evidence = [], certificates = None\<rparr>,
       detached_userdata = ud\<rparr>, er_operator_signature = None\<rparr>"

definition sample_policy_report :: "bytes \<Rightarrow> policy_execution_report" where
  "sample_policy_report ud =
    \<lparr>pr_request = \<lparr>per_secret_ids = [sample_sid], per_consumer = sample_consumer,
       per_env_report = sample_env_report ud, per_claims = None\<rparr>,
     pr_decision = True, pr_timestamp = 100\<rparr>"

definition sample_secrets :: secrets where
  "sample_secrets = \<lparr>kx_keypair_of = kx_from_secret sample_cx [2],
     secrets_storage = [sample_sid \<mapsto> \<lparr>ss_data = [42], ss_expiry = 0, ss_generation = 7\<rparr>],
     authorizations = Map.empty\<rparr>"

lemma sample_cx_correct: "crypto_correct sample_cx"
  by (simp add: sample_cx_def sample_crypto_correct)

lemmas sample_simps =
  sample_auth_def sample_verifier_def sample_sid_def sample_consumer_def sample_env_report_def
  sample_policy_report_def sample_secrets_def sample_secret_def

lemma sample_seal:
  "\<exists>box. encrypt_secrets_box sample_cx (replicate 12 0) (kx_from_secret sample_cx [1])
     (x25519_public sample_cx [2]) [sample_secret] = Inr box"
  by (simp add: encrypt_Inr_iff sample_cx_def sample_crypto_def sample_secret_def)

lemma sample_granted:
  "check_authorization sample_auth 200
     (store_authorization sample_auth (sample_policy_report [1]) sample_secrets)
     (er_attestation (sample_env_report [1])) sample_sid sample_consumer"
  by (simp add: check_authorization_def store_authorization_def sample_simps Let_def user_data_new_def)

subsection \<open>Properties\<close>

text \<open>
  C4: Soundness of \<open>put_secrets\<close>: whenever the stored secret of an identifier changes, one of the
  given bundles was attested (its report verified, and the attested ephemeral key is the box's
  sender key), every identifier that its box lists was authorized for that report and consumer, the
  box decrypted with the enclave's key, and the new secret is one of the decrypted ones and not
  expired.
\<close>

theorem put_secrets_sound:
  assumes "secrets_storage (fst (put_secrets cx ax now vfy bs s)) i \<noteq> secrets_storage s i"
  shows "\<exists>box env ci u xs new. (box, env, ci) \<in> set bs
    \<and> (\<exists>j c. vfy j (er_attestation env) = Inr c)
    \<and> auth_userdata ax (detached_userdata (er_attestation env)) = Inr u
    \<and> ephemeral_public_key u = sender_public_key box
    \<and> (\<forall>sid \<in> set (contained_secret_ids box).
         check_authorization ax now s (er_attestation env) sid ci)
    \<and> decrypt_secrets_box cx (kx_keypair_of s) box = Inr xs
    \<and> secrets_storage (fst (put_secrets cx ax now vfy bs s)) i = Some new
    \<and> unexpired now (ss_expiry new)
    \<and> (i, ss_data new, ss_expiry new, ss_generation new) \<in> set xs"
  using assms by (rule put_secrets_changed)

text \<open>
  \<open>put_secrets\<close> returns true exactly when it changed the store, and leaves keys and
  authorizations alone.
\<close>

theorem put_secrets_reports_change:
  "(snd (put_secrets cx ax now vfy bs s) \<longleftrightarrow>
      secrets_storage (fst (put_secrets cx ax now vfy bs s)) \<noteq> secrets_storage s)
   \<and> kx_keypair_of (fst (put_secrets cx ax now vfy bs s)) = kx_keypair_of s
   \<and> authorizations (fst (put_secrets cx ax now vfy bs s)) = authorizations s"
  using put_secrets_store(2) put_secrets_frame by auto

text \<open>
  C6: Over every sequence of operations (putting, generating, storing authorizations) no secret is
  lost, and a secret is only ever replaced by one with a strictly later generation time.
\<close>

theorem secrets_never_roll_back:
  assumes "secrets_storage s i = Some x"
  shows "\<exists>y. secrets_storage (foldl (secrets_step cx ax) s ops) i = Some y
    \<and> (y = x \<or> ss_generation x < ss_generation y)"
  using secrets_mono.run_le [of s cx ax ops] assms by (auto elim: storage_leD)

theorem secrets_never_roll_back_witness:
  "\<exists>y. secrets_storage (foldl (secrets_step sample_cx sample_auth) sample_secrets
        [StoreAuthorization (sample_policy_report [1]), PutSecrets 5 sample_verifier []]) sample_sid
       = Some y \<and> (ss_data y = [42] \<or> 7 < ss_generation y)"
  using secrets_never_roll_back [of sample_secrets sample_sid
      "\<lparr>ss_data = [42], ss_expiry = 0, ss_generation = 7\<rparr>" sample_cx sample_auth
      "[StoreAuthorization (sample_policy_report [1]), PutSecrets 5 sample_verifier []]"]
  by (auto simp: sample_secrets_def)

text \<open>
  C5: Release: a box is produced only for a requester whose report verified and whose attested
  32-byte key it is sealed for, and the requester's secret key opens it to exactly the requested
  secrets that are authorized for this report and consumer, stored and not expired, with their data,
  expiry and generation time.
\<close>

theorem get_secrets_releases_authorized:
  assumes "crypto_correct cx" "length nonce = 12" "kx_keypair_of s = kx_from_secret cx a"
    and "auth_userdata ax (detached_userdata (er_attestation env)) = Inr u"
    and "ephemeral_public_key u = x25519_public cx b"
    and "get_secrets cx ax now vfy nonce s rs env = Inr box"
  shows "(\<exists>c. vfy 0 (er_attestation env) = Inr c)
    \<and> (\<exists>xs. decrypt_secrets_box cx (kx_from_secret cx b) box = Inr xs
        \<and> contained_secret_ids box = map fst xs
        \<and> set xs = {(sid, ss_data x, ss_expiry x, ss_generation x) | sid ci x.
             (sid, ci) \<in> set rs \<and> check_authorization ax now s (er_attestation env) sid ci
             \<and> secrets_storage s sid = Some x \<and> unexpired now (ss_expiry x)})"
proof -
  let ?xs = "collect_packed ax now s (er_attestation env) rs"
  have "set ?xs = {(sid, ss_data x, ss_expiry x, ss_generation x) | sid ci x.
             (sid, ci) \<in> set rs \<and> check_authorization ax now s (er_attestation env) sid ci
             \<and> secrets_storage s sid = Some x \<and> unexpired now (ss_expiry x)}"
    by (auto simp: collect_packed_iff, blast)
  moreover have "contained_secret_ids box = map fst ?xs"
    using assms(6) by (auto simp: get_secrets_Inr_iff encrypt_Inr_iff fst_def)
  ultimately show ?thesis
    using get_secrets_contents [OF assms] assms(6) by (auto simp: get_secrets_Inr_iff)
qed

theorem get_secrets_releases_authorized_witness:
  "let s = store_authorization sample_auth (sample_policy_report [1]) sample_secrets in
   \<exists>box. get_secrets sample_cx sample_auth 200 sample_verifier (replicate 12 0) s
       [(sample_sid, sample_consumer)] (sample_env_report [1]) = Inr box
     \<and> (\<exists>xs. decrypt_secrets_box sample_cx (kx_from_secret sample_cx [1]) box = Inr xs
          \<and> set xs = {sample_secret})"
proof -
  let ?s = "store_authorization sample_auth (sample_policy_report [1]) sample_secrets"
  let ?r = "[(sample_sid, sample_consumer)]"
  have st: "secrets_storage ?s sample_sid = Some \<lparr>ss_data = [42], ss_expiry = 0, ss_generation = 7\<rparr>"
    by (simp add: sample_secrets_def)
  have packed: "collect_packed sample_auth 200 ?s (er_attestation (sample_env_report [1])) ?r = [sample_secret]"
    using sample_granted st by (simp add: unexpired_def sample_sid_def sample_secret_def)
  have kp: "kx_keypair_of ?s = kx_from_secret sample_cx [2]" by (simp add: sample_secrets_def)
  have u: "auth_userdata sample_auth (detached_userdata (er_attestation (sample_env_report [1])))
      = Inr (user_data_new (pad32 [1]) [])"
    by (simp add: sample_auth_def sample_env_report_def)
  have "\<exists>box. encrypt_secrets_box sample_cx (replicate 12 0) (kx_from_secret sample_cx [2])
      (pad32 [1]) [sample_secret] = Inr box"
    by (simp add: encrypt_Inr_iff sample_cx_def sample_crypto_def sample_secret_def)
  then obtain box where box: "get_secrets sample_cx sample_auth 200 sample_verifier (replicate 12 0) ?s
      ?r (sample_env_report [1]) = Inr box"
    unfolding get_secrets_Inr_iff packed kp
    by (auto simp: u sample_verifier_def user_data_new_def)
  have eq: "{(sid, ss_data x, ss_expiry x, ss_generation x) | sid ci x.
             (sid, ci) \<in> set ?r
             \<and> check_authorization sample_auth 200 ?s (er_attestation (sample_env_report [1])) sid ci
             \<and> secrets_storage ?s sid = Some x \<and> unexpired 200 (ss_expiry x)} = {sample_secret}"
    using sample_granted st by (auto simp: unexpired_def sample_sid_def sample_secret_def)
  show ?thesis
    using get_secrets_releases_authorized [OF sample_cx_correct _ kp u _ box, of "[1]"] box
    unfolding eq by (auto simp: user_data_new_def sample_cx_def sample_crypto_def Let_def)
qed

text \<open>
  Generation: no stored secret is overwritten; every new one was requested and authorized for the
  enclave itself, does not expire and carries the current time; on success every authorized request
  was for an absent secret and is now stored, and an error (a secret that exists, or a failing random
  source) still leaves these guarantees for the secrets stored before it.
\<close>

theorem generate_secrets_spec:
  assumes "generate_secrets ax now (Inr own) draw rs s = (s', r)"
  shows "(\<forall>i x. secrets_storage s i = Some x \<longrightarrow> secrets_storage s' i = Some x)
    \<and> (\<forall>i y. secrets_storage s i = None \<longrightarrow> secrets_storage s' i = Some y \<longrightarrow>
          ss_expiry y = 0 \<and> ss_generation y = now
          \<and> (\<exists>ci. (i, ci) \<in> set rs \<and> check_authorization ax now s own i ci))
    \<and> (r = Inr () \<longrightarrow> (\<forall>(i, ci) \<in> set rs. check_authorization ax now s own i ci \<longrightarrow>
          secrets_storage s i = None \<and> (\<exists>y. secrets_storage s' i = Some y)))
    \<and> authorizations s' = authorizations s"
proof -
  from assms have g: "generate_loop ax now own draw 0 rs s = (s', r)"
    by (simp add: generate_secrets_def)
  have spec: "generated_from ax now own s rs (secrets_storage s')" "authorizations s' = authorizations s"
    using generate_loop_spec [of ax now own s rs draw 0] by (simp_all add: g)
  have "secrets_storage s i = None \<and> (\<exists>y. secrets_storage s' i = Some y)"
    if "r = Inr ()" "(i, ci) \<in> set rs" "check_authorization ax now s own i ci" for i ci
    using g that by (intro generate_loop_ok) auto
  with spec show ?thesis unfolding generated_from_def by blast
qed

theorem generate_secrets_spec_witness:
  "secrets_storage (fst (generate_secrets sample_auth 9 (Inr (er_attestation (sample_env_report [1])))
     (\<lambda>_. Inr (replicate 32 5)) [(sample_sid, sample_consumer)] sample_secrets)) sample_sid
   = Some \<lparr>ss_data = [42], ss_expiry = 0, ss_generation = 7\<rparr>"
  using generate_secrets_spec [of sample_auth 9 "er_attestation (sample_env_report [1])"
      "\<lambda>_. Inr (replicate 32 5)" "[(sample_sid, sample_consumer)]" sample_secrets, OF surjective_pairing]
  by (simp add: sample_secrets_def)

text \<open>
  The life of an authorization: after an approved report has been stored, an attestation with the
  same ephemeral key is authorized for each of the report's secrets and its consumer exactly before
  the report's time plus one hour (in 64-bit arithmetic); a refused report, or one whose user data
  does not parse, changes nothing.
\<close>

theorem authorization_window:
  assumes "auth_userdata ax (detached_userdata (er_attestation (per_env_report (pr_request r)))) = Inr u"
    and "auth_userdata ax (detached_userdata b) = Inr u'"
    and "ephemeral_public_key u' = ephemeral_public_key u"
    and "sid \<in> set (per_secret_ids (pr_request r))"
  shows "(pr_decision r \<longrightarrow>
      (check_authorization ax now (store_authorization ax r s) b sid (per_consumer (pr_request r))
         \<longleftrightarrow> now < pr_timestamp r + 3600))
    \<and> (\<not> pr_decision r \<longrightarrow> store_authorization ax r s = s)"
proof -
  let ?h = "calculate_authorization_id ax (ephemeral_public_key u) sid (per_consumer (pr_request r))"
  have "pr_decision r \<Longrightarrow> authorizations (store_authorization ax r s) ?h = Some (pr_timestamp r + 3600)"
    using assms(1,4) unfolding store_authorization_lookup report_grants_def by auto
  then show ?thesis using assms(2,3)
    by (simp add: check_authorization_def) (simp add: store_authorization_def)
qed

theorem authorization_window_witness:
  "check_authorization sample_auth 3699 (store_authorization sample_auth (sample_policy_report [1]) sample_secrets)
     (er_attestation (sample_env_report [1])) sample_sid sample_consumer
   \<and> \<not> check_authorization sample_auth 3700 (store_authorization sample_auth (sample_policy_report [1]) sample_secrets)
     (er_attestation (sample_env_report [1])) sample_sid sample_consumer"
proof -
  have w: "check_authorization sample_auth t (store_authorization sample_auth (sample_policy_report [1]) sample_secrets)
     (er_attestation (sample_env_report [1])) sample_sid sample_consumer \<longleftrightarrow> t < 3700" for t
    using authorization_window [of sample_auth "sample_policy_report [1]" "user_data_new (pad32 [1]) []"
        "er_attestation (sample_env_report [1])" "user_data_new (pad32 [1]) []" sample_sid t sample_secrets]
    by (simp add: sample_simps)
  show ?thesis unfolding w by simp
qed

text \<open>
  C7: Provenance: in every run that starts with an empty service, an attestation is authorized for a
  secret and a consumer only if the run contains an approved policy execution for the same ephemeral
  key, the same secret and the same consumer, less than an hour before, provided that no two of the
  triples in question have the same authorization id.
\<close>

theorem authorization_provenance:
  assumes run: "s = foldl (secrets_step cx ax) (secrets_new kp) ops"
    and auth: "check_authorization ax now s b sid ci"
    and u: "auth_userdata ax (detached_userdata b) = Inr u"
    and inj: "inj_on (\<lambda>(k, i, c). calculate_authorization_id ax k i c)
        ({(ephemeral_public_key u, sid, ci)} \<union>
         {(ephemeral_public_key u', i, per_consumer (pr_request r)) | u' i r.
            r \<in> set (op_reports ops)
            \<and> auth_userdata ax (detached_userdata (er_attestation (per_env_report (pr_request r)))) = Inr u'
            \<and> i \<in> set (per_secret_ids (pr_request r))})"
  shows "\<exists>r \<in> set (op_reports ops). pr_decision r \<and> now < pr_timestamp r + 3600
    \<and> sid \<in> set (per_secret_ids (pr_request r)) \<and> per_consumer (pr_request r) = ci
    \<and> (\<exists>u'. auth_userdata ax (detached_userdata (er_attestation (per_env_report (pr_request r)))) = Inr u'
          \<and> ephemeral_public_key u' = ephemeral_public_key u)"
proof -
  let ?h = "calculate_authorization_id ax (ephemeral_public_key u) sid ci"
  from auth u obtain e where e: "authorizations s ?h = Some e" "now < e"
    by (auto simp: check_authorization_def split: option.splits)
  from authorization_origin [OF e(1) [unfolded run]] obtain r where
    r: "r \<in> set (op_reports ops)" "report_grants ax r ?h e" by blast
  then obtain u' i where g: "pr_decision r" "e = pr_timestamp r + 3600"
    "auth_userdata ax (detached_userdata (er_attestation (per_env_report (pr_request r)))) = Inr u'"
    "i \<in> set (per_secret_ids (pr_request r))"
    "?h = calculate_authorization_id ax (ephemeral_public_key u') i (per_consumer (pr_request r))"
    by (auto simp: report_grants_def)
  have "(ephemeral_public_key u, sid, ci) = (ephemeral_public_key u', i, per_consumer (pr_request r))"
    using inj by (rule inj_onD) (use r g in auto)
  with r g e(2) show ?thesis by (intro bexI [of _ r]) auto
qed

theorem authorization_provenance_witness:
  "\<exists>r \<in> set (op_reports [StoreAuthorization (sample_policy_report [1])]).
     pr_decision r \<and> sample_sid \<in> set (per_secret_ids (pr_request r))"
proof -
  let ?s = "foldl (secrets_step sample_cx sample_auth) (secrets_new (kx_from_secret sample_cx [2]))
      [StoreAuthorization (sample_policy_report [1])]"
  have "check_authorization sample_auth 200 ?s (er_attestation (sample_env_report [1])) sample_sid
      sample_consumer"
    by (simp add: check_authorization_def store_authorization_def sample_simps secrets_new_def
        user_data_new_def)
  from authorization_provenance [OF refl this, of "user_data_new (pad32 [1]) []"] show ?thesis
    by (auto simp: sample_simps user_data_new_def inj_on_def)
qed

text \<open>
  The list of identifiers in a box is not protected by its encryption, and \<open>put_secrets\<close> checks
  authorization for the listed identifiers only: an attested sender without any authorization is
  refused when the box lists its secret, but when the same box is sent with an empty list the
  secret is stored.
\<close>

theorem put_secrets_unlisted_identifier:
  assumes "crypto_correct cx" "length nonce = 12" "kx_keypair_of s = kx_from_secret cx b"
    and "encrypt_secrets_box cx nonce (kx_from_secret cx a) (x25519_public cx b)
           [(sid, data, 0, gen)] = Inr box"
    and "vfy 0 (er_attestation env) = Inr c"
    and "auth_userdata ax (detached_userdata (er_attestation env)) = Inr u"
    and "ephemeral_public_key u = x25519_public cx a"
    and "authorizations s = Map.empty" "secrets_storage s sid = None"
  shows "put_secrets cx ax now vfy [(box, env, ci)] s = (s, False)
    \<and> put_secrets cx ax now vfy [(box\<lparr>contained_secret_ids := []\<rparr>, env, ci)] s
      = (s\<lparr>secrets_storage := (secrets_storage s)(sid \<mapsto>
            \<lparr>ss_data = data, ss_expiry = 0, ss_generation = gen\<rparr>)\<rparr>, True)"
  using put_unlisted [where vfy = vfy, OF assms] by blast

theorem put_secrets_unlisted_identifier_witness:
  "\<exists>box. put_secrets sample_cx sample_auth 5 sample_verifier
      [(box, sample_env_report [1], sample_consumer)] (secrets_new (kx_from_secret sample_cx [2]))
      = (secrets_new (kx_from_secret sample_cx [2]), False)
    \<and> snd (put_secrets sample_cx sample_auth 5 sample_verifier
      [(box\<lparr>contained_secret_ids := []\<rparr>, sample_env_report [1], sample_consumer)]
      (secrets_new (kx_from_secret sample_cx [2])))"
proof -
  from sample_seal obtain box where "encrypt_secrets_box sample_cx (replicate 12 0)
     (kx_from_secret sample_cx [1]) (x25519_public sample_cx [2])
     [(SecretId (ChainId 1) (replicate 20 1) 5, [42], 0, 7)] = Inr box"
    by (auto simp: sample_secret_def)
  from put_secrets_unlisted_identifier [OF sample_cx_correct _ _ this, of "secrets_new (kx_from_secret sample_cx [2])"
      sample_verifier "sample_env_report [1]" "create_null_claims (pe_draws sample_env) []" sample_auth
      "user_data_new (pad32 [1]) []" 5 sample_consumer]
  show ?thesis
    by (auto simp: secrets_new_def sample_verifier_def sample_auth_def sample_env_report_def
        user_data_new_def sample_cx_def sample_crypto_def)
qed

text \<open>
  A local worker receives, under each of its names, only secrets that are listed under that name,
  authorized for the enclave's own attestation and the worker's consumer, stored and not expired.
\<close>

theorem local_worker_secrets_authorized:
  assumes "get_secrets_for_local_worker ax now own s ids ci = Inr m" "m name = Some d"
  shows "\<exists>b sid x. own = Inr b \<and> (sid, name) \<in> set ids \<and> check_authorization ax now s b sid ci
     \<and> secrets_storage s sid = Some x \<and> unexpired now (ss_expiry x) \<and> d = ss_data x"
  using assms by (rule local_worker_lookup)

theorem local_worker_secrets_authorized_witness:
  "\<exists>sid x. secrets_storage sample_secrets sid = Some x \<and> [42] = ss_data x"
  using local_worker_secrets_authorized [of sample_auth 200 "Inr (er_attestation (sample_env_report [1]))"
      "store_authorization sample_auth (sample_policy_report [1]) sample_secrets"
      "[(sample_sid, ''KEY'')]" sample_consumer "[''KEY'' \<mapsto> [42]]" "''KEY''" "[42]"] sample_granted
  by (auto simp: get_secrets_for_local_worker_def sample_secrets_def unexpired_def)

theorem put_secrets_sound_witness:
  "\<exists>box xs. decrypt_secrets_box sample_cx (kx_from_secret sample_cx [2]) box = Inr xs
     \<and> sample_sid \<in> fst ` set xs"
proof -
  from sample_seal obtain box where box: "encrypt_secrets_box sample_cx (replicate 12 0)
     (kx_from_secret sample_cx [1]) (x25519_public sample_cx [2])
     [(SecretId (ChainId 1) (replicate 20 1) 5, [42], 0, 7)] = Inr box"
    by (auto simp: sample_secret_def)
  let ?s = "secrets_new (kx_from_secret sample_cx [2])"
  let ?b = "[(box\<lparr>contained_secret_ids := []\<rparr>, sample_env_report [1], sample_consumer)]"
  have "put_secrets sample_cx sample_auth 5 sample_verifier ?b ?s
      = (?s\<lparr>secrets_storage := (secrets_storage ?s)(sample_sid \<mapsto>
            \<lparr>ss_data = [42], ss_expiry = 0, ss_generation = 7\<rparr>)\<rparr>, True)"
    unfolding sample_sid_def sample_secret_def fst_conv
    by (rule put_unlisted(2) [OF sample_cx_correct _ _ box, where u = "user_data_new (pad32 [1]) []"
          and c = "create_null_claims (pe_draws sample_env) []"])
      (simp_all add: secrets_new_def sample_verifier_def sample_auth_def sample_env_report_def
        user_data_new_def sample_cx_def sample_crypto_def)
  then have "secrets_storage (fst (put_secrets sample_cx sample_auth 5 sample_verifier ?b ?s)) sample_sid
      \<noteq> secrets_storage ?s sample_sid" by (simp add: secrets_new_def)
  from put_secrets_sound [OF this] show ?thesis by (force simp: secrets_new_def)
qed

end
