(* ===== verification/Enclave_Runner.thy ===== *)
theory Enclave_Runner
  imports Enclave_Secrets
begin

text \<open>
  The enclave's runner (\<open>src/node/enclave/src/runner\<close>: \<open>mod.rs\<close>, \<open>management.rs\<close>,
  \<open>execution.rs\<close>, \<open>vm_client.rs\<close>, \<open>error.rs\<close>): attached virtual machines, the maps of running and
  dead workers, the event queue and its processing task, policy execution.

  A VM behind a \<open>VmClient\<close> is a value of a type \<open>'v\<close> with the table \<open>vm_ops\<close> of its remote
  calls; each call may change it. The four \<open>RwLock\<close>ed maps and the unbounded channel are the state
  and one operation is one step. HTTP messages, log lines and worker states pass through
  unchanged and are byte strings, texts and integers. Instants are milliseconds;
  \<open>duration_since\<close> saturates at zero as the subtraction of \<open>nat\<close> does.
\<close>

section \<open>State\<close>

datatype client_error = GrpcNotFound string | GrpcStatus string | ClientConnection string

datatype runner_error =
    VmNotAttached string
  | WorkerNotFound string
  | VmConnection client_error
  | RunnerDeserialization string
  | PolicyExecutionFailed string
  | Internal string
  | TlsConfig string
  | WorkerStartFailed string
  | UnsupportedVmAddress string
  | EventSendError string

record 'v vm_ops =
  vm_start :: "'v \<Rightarrow> string \<Rightarrow> bytes \<Rightarrow> string \<Rightarrow> (string \<rightharpoonup> bytes) \<Rightarrow> (client_error + string) \<times> 'v"
  vm_stop :: "'v \<Rightarrow> string \<Rightarrow> (client_error + unit) \<times> 'v"
  vm_invoke :: "'v \<Rightarrow> string \<Rightarrow> string \<Rightarrow> bytes \<Rightarrow> (client_error + bytes) \<times> 'v"
  vm_invoke_http :: "'v \<Rightarrow> string \<Rightarrow> bytes \<Rightarrow> (client_error + bytes) \<times> 'v"
  vm_probe :: "'v \<Rightarrow> string \<Rightarrow> (client_error + int \<times> string) \<times> 'v"
  vm_logs :: "'v \<Rightarrow> string \<Rightarrow> (client_error + string) \<times> 'v"
  vm_stream :: "'v \<Rightarrow> string \<Rightarrow> u32 \<Rightarrow> bool \<Rightarrow> (client_error + string list) \<times> 'v"

type_synonym queued_event = "string \<times> string \<times> bytes"

record 'v runner =
  vms :: "string \<rightharpoonup> 'v"
  worker_map :: "string \<rightharpoonup> string"
  dead_worker_map :: "string \<rightharpoonup> string \<times> nat"
  r_secrets :: secrets
  event_queue :: "queued_event list"
  queue_open :: bool

definition runner_new :: "secrets \<Rightarrow> 'v runner" where
  "runner_new s =
    \<lparr>vms = Map.empty, worker_map = Map.empty, dead_worker_map = Map.empty, r_secrets = s,
     event_queue = [], queue_open = True\<rparr>"

record 'j runner_ext =
  contexts_to_json :: "policy_execution_context list \<Rightarrow> bytes"
  bools_from_json :: "bytes \<Rightarrow> string + bool list"
  invocation_to_json :: "string \<Rightarrow> event_payload \<Rightarrow> string + bytes"
  userdata_to_json :: "(string \<rightharpoonup> 'j) \<Rightarrow> string + string"
  conversion_text :: "conversion_error \<Rightarrow> string"
  attestation_text :: "attestation_error \<Rightarrow> string"

section \<open>Remote calls\<close>

text \<open>\<open>vms_guard.get_mut(&vm_id).ok_or_else(...)?\<close> and a call on the client.\<close>

definition call_vm ::
  "'v runner \<Rightarrow> string \<Rightarrow> ('v \<Rightarrow> (client_error + 'a) \<times> 'v)
     \<Rightarrow> 'v runner \<times> (runner_error + (client_error + 'a))" where
  "call_vm s vm_id f = (case vms s vm_id of
      None \<Rightarrow> (s, Inl (VmNotAttached vm_id))
    | Some c \<Rightarrow> (case f c of (r, c') \<Rightarrow> (s\<lparr>vms := (vms s)(vm_id \<mapsto> c')\<rparr>, Inr r)))"

text \<open>The result of a call whose client errors become \<open>VmConnection\<close>.\<close>

definition connection_result :: "runner_error + (client_error + 'a) \<Rightarrow> runner_error + 'a" where
  "connection_result r = rbind r (\<lambda>x. map_err VmConnection x)"

section \<open>Management\<close>

record 'v connect_ext =
  ce_tls :: "string + unit"
  ce_uds :: bool
  ce_vsock :: bool
  ce_parse_socket :: "string \<Rightarrow> u32 \<Rightarrow> string + unit"
  ce_connect :: "vm_address \<Rightarrow> client_error + 'v"

definition attach_vm ::
  "'v connect_ext \<Rightarrow> string \<Rightarrow> vm_address \<Rightarrow> 'v runner \<Rightarrow> 'v runner \<times> (runner_error + bool)" where
  "attach_vm ce vm_id address s =
    (let client =
       rbind (map_err TlsConfig (ce_tls ce)) (\<lambda>_.
       rbind (case address of
           Tcp t \<Rightarrow> map_err (\<lambda>e. Internal (''Invalid TCP address: '' @ e))
                      (ce_parse_socket ce (tcp_host t) (tcp_port t))
         | Uds u \<Rightarrow> if ce_uds ce then Inr ()
                    else Inl (UnsupportedVmAddress (''UDS address type not supported in this build: ''
                                @ uds_path u))
         | Vsock v \<Rightarrow> if ce_vsock ce then Inr ()
                      else Inl (UnsupportedVmAddress ''VSOCK address type not supported in this build''))
         (\<lambda>_. map_err VmConnection (ce_connect ce address)))
     in case client of
       Inr c \<Rightarrow> (s\<lparr>vms := (vms s)(vm_id \<mapsto> c)\<rparr>, Inr True)
     | Inl e \<Rightarrow> (s, Inl e))"

definition detach_vm :: "string \<Rightarrow> 'v runner \<Rightarrow> 'v runner \<times> (runner_error + unit)" where
  "detach_vm vm_id s =
    (if vms s vm_id \<noteq> None then
       (s\<lparr>vms := (vms s)(vm_id := None),
          worker_map := (\<lambda>w. case worker_map s w of
              Some v \<Rightarrow> if v \<noteq> vm_id then Some v else None
            | None \<Rightarrow> None)\<rparr>, Inr ())
     else (s, Inr ()))"

text \<open>The first half of \<open>run_worker\<close>: the payload and the secrets of the worker.\<close>

definition prepare_worker ::
  "'j runner_ext \<Rightarrow> bundle_ext \<Rightarrow> auth_ext \<Rightarrow> u64 \<Rightarrow> attestation_error + attestation_bundle
     \<Rightarrow> secrets \<Rightarrow> 'j worker_manifest \<Rightarrow> worker_bundle
     \<Rightarrow> runner_error + worker_bundle_payload \<times> (string \<rightharpoonup> bytes)" where
  "prepare_worker rx bx ax now own sec manifest bundle =
    (let de = (\<lambda>e. RunnerDeserialization (conversion_text rx e)) in
     rbind (map_err de (bundle_payload bx bundle)) (\<lambda>payload.
     rbind (if wm_identities manifest = [] then Inr Map.empty else
            rbind (map_err de (hash_signed_payload bx bundle)) (\<lambda>h.
            rbind (map_err de (get_dsse_signature bx bundle)) (\<lambda>sg.
            map_err (\<lambda>e. Internal (''Failed to get secrets for worker: '' @ attestation_text rx e))
              (get_secrets_for_local_worker ax now own sec (wm_identities manifest)
                 (ConsumerInfo h sg)))))
       (\<lambda>secrets_for_vm. Inr (payload, secrets_for_vm))))"

definition start_error :: "client_error \<Rightarrow> runner_error" where
  "start_error e = (case e of
      GrpcNotFound m \<Rightarrow> WorkerStartFailed m
    | GrpcStatus m \<Rightarrow> WorkerStartFailed m
    | ClientConnection _ \<Rightarrow> VmConnection e)"

definition run_worker ::
  "'j runner_ext \<Rightarrow> bundle_ext \<Rightarrow> auth_ext \<Rightarrow> 'v vm_ops \<Rightarrow> u64 \<Rightarrow> attestation_error + attestation_bundle
     \<Rightarrow> string \<Rightarrow> string \<Rightarrow> 'j worker_manifest \<Rightarrow> worker_bundle \<Rightarrow> 'v runner
     \<Rightarrow> 'v runner \<times> (runner_error + string)" where
  "run_worker rx bx ax ops now own worker_id vm_id manifest bundle s =
    (case prepare_worker rx bx ax now own (r_secrets s) manifest bundle of
       Inl e \<Rightarrow> (s, Inl e)
     | Inr (payload, secrets_for_vm) \<Rightarrow>
         let json = (case userdata_to_json rx (wm_userdata manifest) of Inr j \<Rightarrow> j | Inl _ \<Rightarrow> [])
         in (case call_vm s vm_id
                (\<lambda>c. vm_start ops c worker_id (wb_executable payload) json secrets_for_vm) of
           (s', Inl e) \<Rightarrow> (s', Inl e)
         | (s', Inr (Inr instance_id)) \<Rightarrow>
             (s'\<lparr>worker_map := (worker_map s')(instance_id \<mapsto> vm_id)\<rparr>, Inr instance_id)
         | (s', Inr (Inl e)) \<Rightarrow> (s', Inl (start_error e))))"

text \<open>\<open>worker_map.get(&worker_id).cloned().ok_or_else(...)?\<close>\<close>

definition worker_vm :: "'v runner \<Rightarrow> string \<Rightarrow> runner_error + string" where
  "worker_vm s worker_id = ok_or (WorkerNotFound worker_id) (worker_map s worker_id)"

definition bury_worker :: "nat \<Rightarrow> string \<Rightarrow> string \<Rightarrow> 'v runner \<Rightarrow> 'v runner" where
  "bury_worker now worker_id vm_id s =
    s\<lparr>worker_map := (worker_map s)(worker_id := None),
      dead_worker_map := (dead_worker_map s)(worker_id \<mapsto> (vm_id, now))\<rparr>"

definition terminate_worker ::
  "'v vm_ops \<Rightarrow> nat \<Rightarrow> string \<Rightarrow> 'v runner \<Rightarrow> 'v runner \<times> (runner_error + unit)" where
  "terminate_worker ops now worker_id s = (case worker_vm s worker_id of
      Inl e \<Rightarrow> (s, Inl e)
    | Inr vm_id \<Rightarrow> (case call_vm s vm_id (\<lambda>c. vm_stop ops c worker_id) of
        (s', Inl e) \<Rightarrow> (s', Inl e)
      | (s', Inr (Inr _)) \<Rightarrow> (bury_worker now worker_id vm_id s', Inr ())
      | (s', Inr (Inl (GrpcNotFound _))) \<Rightarrow> (bury_worker now worker_id vm_id s', Inr ())
      | (s', Inr (Inl e)) \<Rightarrow> (s', Inl (VmConnection e))))"

definition check_worker_status ::
  "'v vm_ops \<Rightarrow> string \<Rightarrow> 'v runner \<Rightarrow> 'v runner \<times> (runner_error + int \<times> string)" where
  "check_worker_status ops worker_id s = (case worker_vm s worker_id of
      Inl e \<Rightarrow> (s, Inl e)
    | Inr vm_id \<Rightarrow> (case call_vm s vm_id (\<lambda>c. vm_probe ops c worker_id) of
        (s', r) \<Rightarrow> (s', connection_result r)))"

definition get_worker_vm_id :: "'v runner \<Rightarrow> string \<Rightarrow> string option" where
  "get_worker_vm_id s worker_id = (case worker_map s worker_id of
      Some vm_id \<Rightarrow> Some vm_id
    | None \<Rightarrow> map_option fst (dead_worker_map s worker_id))"

definition get_worker_logs ::
  "'v vm_ops \<Rightarrow> string \<Rightarrow> 'v runner \<Rightarrow> 'v runner \<times> (runner_error + string)" where
  "get_worker_logs ops worker_id s = (case get_worker_vm_id s worker_id of
      None \<Rightarrow> (s, Inl (WorkerNotFound worker_id))
    | Some vm_id \<Rightarrow> (case call_vm s vm_id (\<lambda>c. vm_logs ops c worker_id) of
        (s', r) \<Rightarrow> (s', connection_result r)))"

definition stream_worker_logs ::
  "'v vm_ops \<Rightarrow> string \<Rightarrow> u32 \<Rightarrow> bool \<Rightarrow> 'v runner \<Rightarrow> 'v runner \<times> (runner_error + string list)" where
  "stream_worker_logs ops worker_id tail_lines follow s = (case get_worker_vm_id s worker_id of
      None \<Rightarrow> (s, Inl (WorkerNotFound worker_id))
    | Some vm_id \<Rightarrow> (case call_vm s vm_id (\<lambda>c. vm_stream ops c worker_id tail_lines follow) of
        (s', r) \<Rightarrow> (s', connection_result r)))"

text \<open>One tick of the cleanup task: dead workers are kept for less than five minutes.\<close>

definition cleanup_dead_workers :: "nat \<Rightarrow> 'v runner \<Rightarrow> 'v runner" where
  "cleanup_dead_workers now s =
    s\<lparr>dead_worker_map := (\<lambda>w. case dead_worker_map s w of
        Some (v, t) \<Rightarrow> if now - t < 300000 then Some (v, t) else None
      | None \<Rightarrow> None)\<rparr>"

section \<open>Execution\<close>

text \<open>The first loop of \<open>execute_policy\<close>: claims are added where the attestation verifies.\<close>

fun enhance_contexts ::
  "verifier \<Rightarrow> nat \<Rightarrow> policy_execution_request list \<Rightarrow> policy_execution_request list" where
  "enhance_contexts vfy k [] = []"
| "enhance_contexts vfy k (c # cs) =
    (case vfy k (er_attestation (per_env_report c)) of
       Inr claims \<Rightarrow> c\<lparr>per_claims := Some claims\<rparr>
     | Inl _ \<Rightarrow> c) # enhance_contexts vfy (k + 1) cs"

fun grant_contexts ::
  "auth_ext \<Rightarrow> u64 \<Rightarrow> (policy_execution_request \<times> bool) list \<Rightarrow> secrets
     \<Rightarrow> secrets \<times> policy_execution_request list" where
  "grant_contexts ax now [] s = (s, [])"
| "grant_contexts ax now ((c, ok) # cs) s =
    (if ok then
       (case grant_contexts ax now cs
               (store_authorization ax \<lparr>pr_request = c, pr_decision = True, pr_timestamp = now\<rparr> s) of
          (s', sat) \<Rightarrow> (s', c # sat))
     else grant_contexts ax now cs s)"

definition execute_policy ::
  "'j runner_ext \<Rightarrow> auth_ext \<Rightarrow> 'v vm_ops \<Rightarrow> verifier \<Rightarrow> u64 \<Rightarrow> string
     \<Rightarrow> policy_execution_request list \<Rightarrow> 'v runner
     \<Rightarrow> 'v runner \<times> (runner_error + policy_execution_request list)" where
  "execute_policy rx ax ops vfy now worker_id contexts s =
    (let contexts = enhance_contexts vfy 0 contexts in
     case worker_vm s worker_id of
       Inl e \<Rightarrow> (s, Inl e)
     | Inr vm_id \<Rightarrow>
       let sanitized = map (\<lambda>c. for_policy_worker c
             (detached_userdata (er_attestation (per_env_report c)))) contexts;
           payload = contexts_to_json rx sanitized
       in case call_vm s vm_id (\<lambda>c. vm_invoke ops c worker_id ''_policy'' payload) of
         (s', r) \<Rightarrow>
           (case rbind (connection_result r)
                   (\<lambda>out. map_err RunnerDeserialization (bools_from_json rx out)) of
              Inl e \<Rightarrow> (s', Inl e)
            | Inr results \<Rightarrow>
                if length results \<noteq> length contexts
                then (s', Inl (PolicyExecutionFailed ''Mismatched result count''))
                else case grant_contexts ax now (zip contexts results) (r_secrets s') of
                  (sec, sat) \<Rightarrow> (s'\<lparr>r_secrets := sec\<rparr>, Inr sat)))"

text \<open>Events before a failing one stay in the queue.\<close>

fun deliver_batch_events ::
  "'j runner_ext \<Rightarrow> (string \<times> string \<times> event_payload) list \<Rightarrow> 'v runner
     \<Rightarrow> 'v runner \<times> (runner_error + unit)" where
  "deliver_batch_events rx [] s = (s, Inr ())"
| "deliver_batch_events rx ((worker_id, hnd, ev) # evs) s =
    (case invocation_to_json rx hnd ev of
       Inl e \<Rightarrow> (s, Inl (Internal (''Failed to serialize VmEventInvocation: '' @ e)))
     | Inr bs \<Rightarrow>
         if queue_open s then
           deliver_batch_events rx evs (s\<lparr>event_queue := event_queue s @ [(worker_id, hnd, bs)]\<rparr>)
         else (s, Inl (EventSendError ''channel closed'')))"

text \<open>One round of the event processing task; the outcome of the call is only logged.\<close>

definition process_event :: "'v vm_ops \<Rightarrow> 'v runner \<Rightarrow> 'v runner" where
  "process_event ops s = (case event_queue s of
      [] \<Rightarrow> s
    | (worker_id, hnd, bs) # rest \<Rightarrow>
        let s = s\<lparr>event_queue := rest\<rparr> in
        (case worker_map s worker_id of
           None \<Rightarrow> s
         | Some vm_id \<Rightarrow> fst (call_vm s vm_id (\<lambda>c. vm_invoke ops c worker_id hnd bs))))"

definition invoke_http_worker ::
  "'v vm_ops \<Rightarrow> string \<Rightarrow> bytes \<Rightarrow> 'v runner \<Rightarrow> 'v runner \<times> (runner_error + bytes)" where
  "invoke_http_worker ops worker_id req s = (case worker_vm s worker_id of
      Inl e \<Rightarrow> (s, Inl e)
    | Inr vm_id \<Rightarrow> (case call_vm s vm_id (\<lambda>c. vm_invoke_http ops c worker_id req) of
        (s', r) \<Rightarrow> (s', connection_result r)))"

section \<open>The maps stay consistent\<close>

text \<open>Every worker that is mapped runs on an attached VM.\<close>

definition runner_inv :: "'v runner \<Rightarrow> bool" where
  "runner_inv s \<longleftrightarrow> ran (worker_map s) \<subseteq> dom (vms s)"

lemma runner_invD: "runner_inv s \<Longrightarrow> worker_map s w = Some v \<Longrightarrow> \<exists>c. vms s v = Some c"
  by (auto simp: runner_inv_def ran_def)

lemma runner_invI: "(\<And>w v. worker_map s w = Some v \<Longrightarrow> vms s v \<noteq> None) \<Longrightarrow> runner_inv s"
  by (auto simp: runner_inv_def ran_def)

lemma runner_new_inv: "runner_inv (runner_new sec)"
  by (simp add: runner_inv_def runner_new_def)

lemma call_vm_frame:
  assumes "call_vm s v f = (s', r)"
  shows "dom (vms s') = dom (vms s)" "worker_map s' = worker_map s"
    "dead_worker_map s' = dead_worker_map s" "r_secrets s' = r_secrets s"
    "event_queue s' = event_queue s" "queue_open s' = queue_open s"
    "r = Inl e \<Longrightarrow> s' = s \<and> vms s v = None \<and> e = VmNotAttached v"
    "r = Inr x \<Longrightarrow> vms s v \<noteq> None"
  using assms by (auto simp: call_vm_def split: option.splits prod.splits if_splits)

lemma call_vm_inv: "runner_inv s \<Longrightarrow> call_vm s v f = (s', r) \<Longrightarrow> runner_inv s'"
  using call_vm_frame(1,2) [of s v f s' r] by (simp add: runner_inv_def)

lemma attach_vm_inv: "runner_inv s \<Longrightarrow> runner_inv (fst (attach_vm ce v a s))"
  by (auto simp: attach_vm_def Let_def runner_inv_def ran_def split: sum.splits)

lemma detach_vm_inv: "runner_inv s \<Longrightarrow> runner_inv (fst (detach_vm v s))"
  by (intro runner_invI) (auto simp: detach_vm_def dest: runner_invD split: option.splits if_splits)

lemma map_worker_inv:
  "runner_inv s \<Longrightarrow> vms s v \<noteq> None \<Longrightarrow> runner_inv (s\<lparr>worker_map := (worker_map s)(w \<mapsto> v)\<rparr>)"
  by (intro runner_invI) (auto dest: runner_invD split: if_splits)

lemma bury_worker_inv: "runner_inv s \<Longrightarrow> runner_inv (bury_worker now w v s)"
  by (intro runner_invI) (auto simp: bury_worker_def dest: runner_invD split: if_splits)

lemma run_worker_inv:
  assumes "runner_inv s"
  shows "runner_inv (fst (run_worker rx bx ax ops now own w v m b s))"
proof (cases "prepare_worker rx bx ax now own (r_secrets s) m b")
  case (Inr p)
  obtain payload sec where p: "p = (payload, sec)" by fastforce
  let ?j = "case userdata_to_json rx (wm_userdata m) of Inr j \<Rightarrow> j | Inl _ \<Rightarrow> []"
  let ?f = "\<lambda>c. vm_start ops c w (wb_executable payload) ?j sec"
  obtain s' r where c: "call_vm s v ?f = (s', r)" by fastforce
  have i: "runner_inv s'" using assms c by (rule call_vm_inv)
  have "vms s' v \<noteq> None" if "r = Inr x" for x
    using call_vm_frame(1) [OF c] call_vm_frame(8) [OF c that] by (metis domIff)
  then show ?thesis using c i map_worker_inv [OF i, of v]
    by (auto simp: run_worker_def Inr p Let_def split: sum.splits)
qed (use assms in \<open>simp add: run_worker_def\<close>)

lemma terminate_worker_inv:
  assumes "runner_inv s"
  shows "runner_inv (fst (terminate_worker ops now w s))"
proof (cases "worker_vm s w")
  case (Inr v)
  obtain s' r where c: "call_vm s v (\<lambda>c. vm_stop ops c w) = (s', r)" by fastforce
  have "runner_inv s'" using assms c by (rule call_vm_inv)
  then show ?thesis using c bury_worker_inv
    by (auto simp: terminate_worker_def Inr split: sum.splits client_error.splits unit.splits)
qed (use assms in \<open>simp add: terminate_worker_def\<close>)

lemma connection_ops_inv:
  assumes "runner_inv s"
  shows "runner_inv (fst (check_worker_status ops w s))"
    and "runner_inv (fst (invoke_http_worker ops w req s))"
    and "runner_inv (fst (get_worker_logs ops w s))"
    and "runner_inv (fst (stream_worker_logs ops w n fl s))"
  using assms call_vm_inv [OF assms]
  by (auto simp: check_worker_status_def invoke_http_worker_def get_worker_logs_def
      stream_worker_logs_def split: sum.split option.split prod.split)

lemma grant_contexts_spec:
  "grant_contexts ax now cs s =
     (foldl (\<lambda>s c. store_authorization ax \<lparr>pr_request = c, pr_decision = True, pr_timestamp = now\<rparr> s) s
        (map fst (filter snd cs)), map fst (filter snd cs))"
  by (induction ax now cs s rule: grant_contexts.induct) auto

lemma execute_policy_cases:
  assumes "execute_policy rx ax ops vfy now w cs s = (s', r)"
  shows "worker_map s' = worker_map s \<and> dead_worker_map s' = dead_worker_map s
      \<and> event_queue s' = event_queue s \<and> queue_open s' = queue_open s \<and> dom (vms s') = dom (vms s)"
    and "\<And>e. r = Inl e \<Longrightarrow> r_secrets s' = r_secrets s"
    and "\<And>sat. r = Inr sat \<Longrightarrow> \<exists>results. length results = length cs
      \<and> sat = map fst (filter snd (zip (enhance_contexts vfy 0 cs) results))
      \<and> r_secrets s' = foldl (\<lambda>s c. store_authorization ax
            \<lparr>pr_request = c, pr_decision = True, pr_timestamp = now\<rparr> s) (r_secrets s) sat"
proof -
  let ?cs = "enhance_contexts vfy 0 cs"
  have len: "length (enhance_contexts vfy k cs) = length cs" for k
    by (induction vfy k cs rule: enhance_contexts.induct) auto
  have all: "(worker_map s' = worker_map s \<and> dead_worker_map s' = dead_worker_map s
      \<and> event_queue s' = event_queue s \<and> queue_open s' = queue_open s \<and> dom (vms s') = dom (vms s))
    \<and> (\<forall>e. r = Inl e \<longrightarrow> r_secrets s' = r_secrets s)
    \<and> (\<forall>sat. r = Inr sat \<longrightarrow> (\<exists>results. length results = length cs
      \<and> sat = map fst (filter snd (zip ?cs results))
      \<and> r_secrets s' = foldl (\<lambda>s c. store_authorization ax
            \<lparr>pr_request = c, pr_decision = True, pr_timestamp = now\<rparr> s) (r_secrets s) sat))"
  proof (cases "worker_vm s w")
    case (Inl e)
    then show ?thesis using assms by (auto simp: execute_policy_def)
  next
    case (Inr v)
    let ?p = "contexts_to_json rx (map (\<lambda>c. for_policy_worker c
             (detached_userdata (er_attestation (per_env_report c)))) ?cs)"
    obtain s1 q where c: "call_vm s v (\<lambda>c. vm_invoke ops c w ''_policy'' ?p) = (s1, q)" by fastforce
    note fr = call_vm_frame(1-6) [OF c]
    let ?out = "rbind (connection_result q) (\<lambda>out. map_err RunnerDeserialization (bools_from_json rx out))"
    show ?thesis
    proof (cases ?out)
      case (Inl e)
      then show ?thesis using assms Inr c fr by (auto simp: execute_policy_def)
    next
      case out: (Inr results)
      show ?thesis
      proof (cases "length results = length ?cs")
        case True
        let ?sat = "map fst (filter snd (zip ?cs results))"
        have "s' = s1\<lparr>r_secrets := foldl (\<lambda>s c. store_authorization ax
            \<lparr>pr_request = c, pr_decision = True, pr_timestamp = now\<rparr> s) (r_secrets s) ?sat\<rparr>"
          and "r = Inr ?sat"
          using assms Inr c out True fr(4)
          by (simp_all add: execute_policy_def grant_contexts_spec Let_def)
        with fr True len [of 0] show ?thesis by (simp, intro exI [of _ results], simp)
      next
        case False
        then have "s' = s1" and "\<exists>e. r = Inl e"
          using assms Inr c out by (auto simp: execute_policy_def Let_def)
        with fr show ?thesis by force
      qed
    qed
  qed
  from all show "worker_map s' = worker_map s \<and> dead_worker_map s' = dead_worker_map s
      \<and> event_queue s' = event_queue s \<and> queue_open s' = queue_open s \<and> dom (vms s') = dom (vms s)"
    by blast
  from all show "\<And>e. r = Inl e \<Longrightarrow> r_secrets s' = r_secrets s" by blast
  from all show "\<And>sat. r = Inr sat \<Longrightarrow> \<exists>results. length results = length cs
      \<and> sat = map fst (filter snd (zip ?cs results))
      \<and> r_secrets s' = foldl (\<lambda>s c. store_authorization ax
            \<lparr>pr_request = c, pr_decision = True, pr_timestamp = now\<rparr> s) (r_secrets s) sat" by blast
qed

section \<open>The runner as a machine\<close>

record ('j, 'v) runner_env =
  re_rx :: "'j runner_ext"
  re_bx :: bundle_ext
  re_ax :: auth_ext
  re_ops :: "'v vm_ops"

datatype ('j, 'v) runner_op =
    AttachVm "'v connect_ext" string vm_address
  | DetachVm string
  | RunWorker u64 "attestation_error + attestation_bundle" string string "'j worker_manifest" worker_bundle
  | TerminateWorker nat string
  | CheckStatus string
  | GetLogs string
  | StreamLogs string u32 bool
  | Cleanup nat
  | ExecutePolicy verifier u64 string "policy_execution_request list"
  | DeliverEvents "(string \<times> string \<times> event_payload) list"
  | ProcessEvent
  | InvokeHttp string bytes

fun runner_step :: "('j, 'v) runner_env \<Rightarrow> 'v runner \<Rightarrow> ('j, 'v) runner_op \<Rightarrow> 'v runner" where
  "runner_step env s (AttachVm ce v a) = fst (attach_vm ce v a s)"
| "runner_step env s (DetachVm v) = fst (detach_vm v s)"
| "runner_step env s (RunWorker now own w v m b) =
     fst (run_worker (re_rx env) (re_bx env) (re_ax env) (re_ops env) now own w v m b s)"
| "runner_step env s (TerminateWorker now w) = fst (terminate_worker (re_ops env) now w s)"
| "runner_step env s (CheckStatus w) = fst (check_worker_status (re_ops env) w s)"
| "runner_step env s (GetLogs w) = fst (get_worker_logs (re_ops env) w s)"
| "runner_step env s (StreamLogs w n f) = fst (stream_worker_logs (re_ops env) w n f s)"
| "runner_step env s (Cleanup now) = cleanup_dead_workers now s"
| "runner_step env s (ExecutePolicy vfy now w cs) =
     fst (execute_policy (re_rx env) (re_ax env) (re_ops env) vfy now w cs s)"
| "runner_step env s (DeliverEvents evs) = fst (deliver_batch_events (re_rx env) evs s)"
| "runner_step env s ProcessEvent = process_event (re_ops env) s"
| "runner_step env s (InvokeHttp w req) = fst (invoke_http_worker (re_ops env) w req s)"

lemma deliver_frame:
  "vms (fst (deliver_batch_events rx evs s)) = vms s
   \<and> worker_map (fst (deliver_batch_events rx evs s)) = worker_map s
   \<and> queue_open (fst (deliver_batch_events rx evs s)) = queue_open s"
  by (induction rx evs s rule: deliver_batch_events.induct) (auto split: sum.split)

lemma process_event_inv: "runner_inv s \<Longrightarrow> runner_inv (process_event ops s)"
proof (cases "event_queue s")
  case (Cons e rest)
  assume i: "runner_inv s"
  obtain w h bs where e: "e = (w, h, bs)" by (cases e)
  let ?s = "s\<lparr>event_queue := rest\<rparr>"
  have "runner_inv ?s" using i by (simp add: runner_inv_def)
  then have "runner_inv (fst (call_vm ?s v f))" for v f
    using call_vm_inv [of ?s v f] by (metis prod.collapse)
  with \<open>runner_inv ?s\<close> show ?thesis
    by (auto simp: process_event_def Cons e Let_def split: option.split)
qed (simp add: process_event_def)

interpretation runner_machine: invariant_machine "runner_step env" runner_inv for env
proof
  fix s :: "'b runner" and op :: "('a, 'b) runner_op"
  assume i: "runner_inv s"
  show "runner_inv (runner_step env s op)"
  proof (cases op)
    case (ExecutePolicy vfy now w cs)
    obtain s' r where e: "execute_policy (re_rx env) (re_ax env) (re_ops env) vfy now w cs s = (s', r)"
      by fastforce
    from execute_policy_cases(1) [OF e] i show ?thesis
      by (simp add: ExecutePolicy e runner_inv_def)
  next
    case (DeliverEvents evs)
    then show ?thesis using i deliver_frame [of "re_rx env" evs s] by (simp add: runner_inv_def)
  next
    case (Cleanup now)
    then show ?thesis using i by (simp add: cleanup_dead_workers_def runner_inv_def)
  qed (use i attach_vm_inv detach_vm_inv run_worker_inv terminate_worker_inv connection_ops_inv
        process_event_inv in auto)
qed

lemma no_stale_vm:
  assumes "runner_inv s"
  shows "snd (terminate_worker ops now w s) \<noteq> Inl (VmNotAttached v)"
    and "snd (check_worker_status ops w s) \<noteq> Inl (VmNotAttached v)"
    and "snd (invoke_http_worker ops w req s) \<noteq> Inl (VmNotAttached v)"
    and "snd (execute_policy rx ax ops vfy t w cs s) \<noteq> Inl (VmNotAttached v)"
proof -
  have attached: "worker_vm s w = Inr v' \<Longrightarrow> \<exists>c. vms s v' = Some c" for v'
    using assms by (auto simp: worker_vm_def ok_or_Inr_iff dest: runner_invD)
  have notf: "worker_vm s w = Inl e \<Longrightarrow> e \<noteq> VmNotAttached v" for e
    by (auto simp: worker_vm_def ok_or_def split: option.splits)
  show "snd (check_worker_status ops w s) \<noteq> Inl (VmNotAttached v)"
    using notf attached
    by (fastforce simp: check_worker_status_def call_vm_def connection_result_def map_err_Inl_iff
        split: sum.splits prod.splits)
  show "snd (invoke_http_worker ops w req s) \<noteq> Inl (VmNotAttached v)"
    using notf attached
    by (fastforce simp: invoke_http_worker_def call_vm_def connection_result_def map_err_Inl_iff
        split: sum.splits prod.splits)
  show "snd (terminate_worker ops now w s) \<noteq> Inl (VmNotAttached v)"
    using notf attached
    by (fastforce simp: terminate_worker_def call_vm_def
        split: sum.splits prod.splits client_error.splits unit.splits)
  show "snd (execute_policy rx ax ops vfy t w cs s) \<noteq> Inl (VmNotAttached v)"
    using notf attached
    by (fastforce simp: execute_policy_def call_vm_def connection_result_def result_simps Let_def
        split: sum.splits prod.splits if_splits)
qed

section \<open>The event queue\<close>

lemma deliver_ok:
  assumes "deliver_batch_events rx evs s = (s', Inr ())"
  shows "\<exists>payloads. list_all2 (\<lambda>(w, h, ev) q. \<exists>bs. invocation_to_json rx h ev = Inr bs \<and> q = (w, h, bs))
            evs payloads
     \<and> s' = s\<lparr>event_queue := event_queue s @ payloads\<rparr>"
  using assms
proof (induction rx evs s rule: deliver_batch_events.induct)
  case (2 rx w h ev evs s)
  from 2(2) obtain bs where bs: "invocation_to_json rx h ev = Inr bs" and o: "queue_open s"
    by (auto split: sum.splits if_splits)
  let ?s = "s\<lparr>event_queue := event_queue s @ [(w, h, bs)]\<rparr>"
  have "deliver_batch_events rx evs ?s = (s', Inr ())" using 2(2) bs o by simp
  from 2(1) [OF bs o this] obtain ps where
    ps: "list_all2 (\<lambda>(w, h, ev) q. \<exists>bs. invocation_to_json rx h ev = Inr bs \<and> q = (w, h, bs)) evs ps"
      "s' = ?s\<lparr>event_queue := event_queue ?s @ ps\<rparr>" by blast
  then show ?case using bs by (intro exI [of _ "(w, h, bs) # ps"]) simp
qed simp

lemma call_vm_queue [simp]: "event_queue (fst (call_vm s v f)) = event_queue s"
  by (auto simp: call_vm_def split: option.split prod.split)

lemma process_event_queue: "event_queue (process_event ops s) = tl (event_queue s)"
proof (cases "event_queue s")
  case (Cons e rest)
  obtain w h bs where e: "e = (w, h, bs)" by (cases e)
  show ?thesis by (simp add: process_event_def Cons e Let_def split: option.split)
qed (simp add: process_event_def)

lemma process_events_queue: "event_queue ((process_event ops ^^ n) s) = drop n (event_queue s)"
  by (induction n) (simp_all add: process_event_queue drop_Suc tl_drop)

section \<open>Dead workers\<close>

lemma terminate_worker_unfold:
  assumes "worker_map s w = Some v" "call_vm s v (\<lambda>c. vm_stop ops c w) = (s1, r)"
  shows "r = Inl e \<Longrightarrow> terminate_worker ops now w s = (s1, Inl e)"
    and "r = Inr (Inr ()) \<Longrightarrow> terminate_worker ops now w s = (bury_worker now w v s1, Inr ())"
    and "r = Inr (Inl (GrpcNotFound m)) \<Longrightarrow>
      terminate_worker ops now w s = (bury_worker now w v s1, Inr ())"
    and "r = Inr (Inl (GrpcStatus m)) \<Longrightarrow>
      terminate_worker ops now w s = (s1, Inl (VmConnection (GrpcStatus m)))"
    and "r = Inr (Inl (ClientConnection m)) \<Longrightarrow>
      terminate_worker ops now w s = (s1, Inl (VmConnection (ClientConnection m)))"
  using assms by (simp_all add: terminate_worker_def worker_vm_def)

lemma terminate_buries:
  assumes "terminate_worker ops now w s = (s', Inr ())"
  shows "\<exists>v. worker_map s w = Some v \<and> worker_map s' w = None \<and> dead_worker_map s' w = Some (v, now)"
proof (cases "worker_map s w")
  case None
  then have "terminate_worker ops now w s = (s, Inl (WorkerNotFound w))"
    by (simp add: terminate_worker_def worker_vm_def)
  with assms show ?thesis by simp
next
  case v: (Some v)
  obtain s1 r where c: "call_vm s v (\<lambda>c. vm_stop ops c w) = (s1, r)" by fastforce
  have buried: "terminate_worker ops now w s = (bury_worker now w v s1, Inr ()) \<Longrightarrow> ?thesis"
    using assms v by (simp add: bury_worker_def)
  show ?thesis
  proof (cases r)
    case (Inl e)
    from terminate_worker_unfold(1) [OF v c Inl] assms show ?thesis by simp
  next
    case r: (Inr q)
    show ?thesis
    proof (cases q)
      case (Inr u)
      then show ?thesis using terminate_worker_unfold(2) [OF v c] buried r by simp
    next
      case q: (Inl e)
      show ?thesis
      proof (cases e)
        case (GrpcNotFound m)
        then show ?thesis using terminate_worker_unfold(3) [OF v c] buried r q by simp
      next
        case (GrpcStatus m)
        with terminate_worker_unfold(4) [OF v c] r q have
          "terminate_worker ops now w s = (s1, Inl (VmConnection (GrpcStatus m)))" by simp
        with assms show ?thesis by simp
      next
        case (ClientConnection m)
        with terminate_worker_unfold(5) [OF v c] r q have
          "terminate_worker ops now w s = (s1, Inl (VmConnection (ClientConnection m)))" by simp
        with assms show ?thesis by simp
      qed
    qed
  qed
qed

lemma store_grants_lookup:
  "authorizations (foldl (\<lambda>s c. store_authorization ax
      \<lparr>pr_request = c, pr_decision = True, pr_timestamp = now\<rparr> s) s cs) h =
   (if \<exists>c \<in> set cs. report_grants ax \<lparr>pr_request = c, pr_decision = True, pr_timestamp = now\<rparr> h (now + 3600)
    then Some (now + 3600) else authorizations s h)"
  by (induction cs arbitrary: s) (auto simp: store_authorization_lookup)

section \<open>Properties\<close>

subsection \<open>Sample inputs of the witnesses\<close>

definition sample_vm_ops :: "unit vm_ops" where
  "sample_vm_ops = \<lparr>vm_start = (\<lambda>c w _ _ _. (Inr w, c)), vm_stop = (\<lambda>c _. (Inr (), c)),
     vm_invoke = (\<lambda>c _ _ p. (Inr p, c)), vm_invoke_http = (\<lambda>c _ q. (Inr q, c)),
     vm_probe = (\<lambda>c _. (Inr (0, []), c)), vm_logs = (\<lambda>c _. (Inr [], c)),
     vm_stream = (\<lambda>c _ _ _. (Inr [], c))\<rparr>"

definition sample_rx :: "unit runner_ext" where
  "sample_rx = \<lparr>contexts_to_json = (\<lambda>cs. replicate (length cs) 1),
     bools_from_json = (\<lambda>bs. Inr (map (\<lambda>b. b = 1) bs)),
     invocation_to_json = (\<lambda>h ev. if ev = EpPhantom then Inl ''phantom'' else Inr [7]),
     userdata_to_json = (\<lambda>_. Inr ''{}''), conversion_text = (\<lambda>_. ''conversion''),
     attestation_text = (\<lambda>_. ''attestation'')\<rparr>"

definition sample_runner :: "unit runner" where
  "sample_runner = (runner_new sample_secrets)
     \<lparr>vms := [''vm'' \<mapsto> ()], worker_map := [''w'' \<mapsto> ''vm'']\<rparr>"

definition sample_context :: policy_execution_request where
  "sample_context = pr_request (sample_policy_report [1])"

definition sample_runner_env :: "(unit, unit) runner_env" where
  "sample_runner_env = \<lparr>re_rx = sample_rx, re_bx = sample_bundle_ext, re_ax = sample_auth,
     re_ops = sample_vm_ops\<rparr>"

lemma store_grants_storage:
  "secrets_storage (foldl (\<lambda>s c. store_authorization ax
      \<lparr>pr_request = c, pr_decision = True, pr_timestamp = now\<rparr> s) s0 cs) = secrets_storage s0"
  by (induction cs arbitrary: s0) simp_all

lemma execute_policy_storage:
  "execute_policy rx ax ops vfy now w cs s = (s', Inr sat)
    \<Longrightarrow> secrets_storage (r_secrets s') = secrets_storage (r_secrets s)"
  using execute_policy_cases(3) [OF _ refl] store_grants_storage by fastforce

lemma approved_authorized:
  assumes "execute_policy rx ax ops vfy now w cs s = (s', Inr sat)" "c \<in> set sat"
    and "auth_userdata ax (detached_userdata (er_attestation (per_env_report c))) = Inr u"
    and "auth_userdata ax (detached_userdata b) = Inr u'"
    and "ephemeral_public_key u' = ephemeral_public_key u"
    and "sid \<in> set (per_secret_ids c)"
  shows "check_authorization ax t (r_secrets s') b sid (per_consumer c) \<longleftrightarrow> t < now + 3600"
proof -
  let ?h = "calculate_authorization_id ax (ephemeral_public_key u) sid (per_consumer c)"
  let ?r = "\<lparr>pr_request = c, pr_decision = True, pr_timestamp = now\<rparr>"
  from execute_policy_cases(3) [OF assms(1) refl] have
    st: "r_secrets s' = foldl (\<lambda>s c. store_authorization ax
            \<lparr>pr_request = c, pr_decision = True, pr_timestamp = now\<rparr> s) (r_secrets s) sat" by blast
  have "report_grants ax ?r ?h (now + 3600)" using assms(3,6) by (auto simp: report_grants_def)
  then have "authorizations (r_secrets s') ?h = Some (now + 3600)"
    unfolding st store_grants_lookup using assms(2) by auto
  then show ?thesis using assms(4,5) by (simp add: check_authorization_def)
qed

lemma sample_enhanced:
  "enhance_contexts sample_verifier 0 [sample_context]
     = [sample_context\<lparr>per_claims := Some (create_null_claims (pe_draws sample_env) [])\<rparr>]"
  by (simp add: sample_verifier_def)

lemma sample_execute:
  "execute_policy sample_rx sample_auth sample_vm_ops sample_verifier 100 ''w'' [sample_context]
     sample_runner =
   (sample_runner\<lparr>vms := (vms sample_runner)(''vm'' \<mapsto> ()),
      r_secrets := store_authorization sample_auth
       \<lparr>pr_request = sample_context\<lparr>per_claims := Some (create_null_claims (pe_draws sample_env) [])\<rparr>,
        pr_decision = True, pr_timestamp = 100\<rparr> sample_secrets\<rparr>,
    Inr [sample_context\<lparr>per_claims := Some (create_null_claims (pe_draws sample_env) [])\<rparr>])"
  unfolding execute_policy_def sample_enhanced
  by (simp add: worker_vm_def sample_runner_def runner_new_def call_vm_def sample_vm_ops_def
      sample_rx_def connection_result_def Let_def)

subsection \<open>Properties\<close>





text \<open>
  Events are queued and processed in order and once: a delivered batch is appended to the queue,
  one serialised invocation per event and in the order of the batch, and after \<open>n\<close> rounds of the
  processing task exactly the first \<open>n\<close> entries are gone.
\<close>

theorem events_fifo:
  assumes "deliver_batch_events rx evs s = (s', Inr ())"
  shows "\<exists>payloads. length payloads = length evs
    \<and> (\<forall>i < length evs. \<exists>bs. invocation_to_json rx (fst (snd (evs ! i))) (snd (snd (evs ! i))) = Inr bs
         \<and> payloads ! i = (fst (evs ! i), fst (snd (evs ! i)), bs))
    \<and> (\<forall>n. event_queue ((process_event ops ^^ n) s') = drop n (event_queue s @ payloads))"
proof -
  from deliver_ok [OF assms] obtain ps where
    ps: "list_all2 (\<lambda>(w, h, ev) q. \<exists>bs. invocation_to_json rx h ev = Inr bs \<and> q = (w, h, bs)) evs ps"
      "s' = s\<lparr>event_queue := event_queue s @ ps\<rparr>" by blast
  then show ?thesis
    by (intro exI [of _ ps]) (auto simp: list_all2_conv_all_nth process_events_queue case_prod_beta)
qed

theorem events_fifo_witness:
  "\<exists>payloads. length payloads = 2
     \<and> event_queue ((process_event sample_vm_ops ^^ 1)
         (fst (deliver_batch_events sample_rx [(''w'', ''a'', EpLaunch), (''w'', ''b'', EpScheduled)] sample_runner)))
       = drop 1 payloads"
proof -
  let ?evs = "[(''w'', ''a'', EpLaunch), (''w'', ''b'', EpScheduled)]"
  have q: "event_queue sample_runner = []" by (simp add: sample_runner_def runner_new_def)
  have "deliver_batch_events sample_rx ?evs sample_runner
      = (fst (deliver_batch_events sample_rx ?evs sample_runner), Inr ())"
    by (simp add: sample_rx_def sample_runner_def runner_new_def)
  from events_fifo [OF this, of sample_vm_ops] obtain ps where
    len: "length ps = length ?evs" and
    queue: "\<forall>n. event_queue ((process_event sample_vm_ops ^^ n)
        (fst (deliver_batch_events sample_rx ?evs sample_runner))) = drop n (event_queue sample_runner @ ps)"
    by blast
  show ?thesis
  proof (intro exI [of _ ps] conjI)
    show "length ps = 2" using len by simp
    show "event_queue ((process_event sample_vm_ops ^^ 1)
        (fst (deliver_batch_events sample_rx ?evs sample_runner))) = drop 1 ps"
      using queue [rule_format, of 1] unfolding q append_Nil .
  qed
qed

text \<open>
  A terminated worker can still be found for its logs: after a successful termination its VM is
  known from the map of dead workers, the cleanup task keeps the entry for five minutes and drops it
  afterwards.
\<close>

theorem dead_worker_retention:
  assumes "terminate_worker ops now w s = (s', Inr ())"
  shows "\<exists>v. worker_map s w = Some v \<and> worker_map s' w = None
    \<and> get_worker_vm_id (cleanup_dead_workers t s') w = (if t - now < 300000 then Some v else None)"
  using terminate_buries [OF assms]
  by (auto simp: get_worker_vm_id_def cleanup_dead_workers_def)

theorem dead_worker_retention_witness:
  "get_worker_vm_id (cleanup_dead_workers 299999 (fst (terminate_worker sample_vm_ops 0 ''w'' sample_runner))) ''w''
     = Some ''vm''
   \<and> get_worker_vm_id (cleanup_dead_workers 300000 (fst (terminate_worker sample_vm_ops 0 ''w'' sample_runner))) ''w''
     = None"
proof -
  have w: "worker_map sample_runner ''w'' = Some ''vm''" by (simp add: sample_runner_def)
  have t: "terminate_worker sample_vm_ops 0 ''w'' sample_runner
      = (fst (terminate_worker sample_vm_ops 0 ''w'' sample_runner), Inr ())"
    by (simp add: terminate_worker_def worker_vm_def sample_runner_def runner_new_def call_vm_def
        sample_vm_ops_def)
  from dead_worker_retention [OF t, of 299999] dead_worker_retention [OF t, of 300000] w
  show ?thesis by simp
qed

section \<open>What a policy worker sees\<close>

text \<open>
  The contexts for the policy worker carry the whole detached user data of the requester, with its
  ephemeral key and blocks, although they are described as excluding system user data.
\<close>

lemma policy_worker_sees_all_userdata:
  "detached_userdata (er_attestation (to_env_report (pec_env_report
     (for_policy_worker c (detached_userdata (er_attestation (per_env_report c)))))))
   = detached_userdata (er_attestation (per_env_report c))"
  by (simp add: for_policy_worker_def from_env_report_def to_env_report_def)

end
