(* ===== verification/World_Calls.thy ===== *)
theory World_Calls
  imports Prelude
begin

text \<open>
  Calls on a world. The world of a component (the enclave behind its gRPC client, the file system,
  the network) is a type \<open>'w\<close>; a call takes it and returns a result and the world after it, so two
  equal calls may answer differently. \<open>io_bind\<close> is the \<open>?\<close> operator after an \<open>await\<close>.
\<close>

type_synonym ('w, 'e, 'a) call = "'w \<Rightarrow> ('e + 'a) \<times> 'w"

named_theorems io_simps \<open>evaluation of calls on the world\<close>

definition io_ok :: "'a \<Rightarrow> ('w, 'e, 'a) call" where
  "io_ok x w = (Inr x, w)"

definition io_fail :: "'e \<Rightarrow> ('w, 'e, 'a) call" where
  "io_fail e w = (Inl e, w)"

definition io_of :: "'e + 'a \<Rightarrow> ('w, 'e, 'a) call" where
  "io_of r w = (r, w)"

definition io_bind :: "('w, 'e, 'a) call \<Rightarrow> ('a \<Rightarrow> ('w, 'e, 'b) call) \<Rightarrow> ('w, 'e, 'b) call" where
  "io_bind m f w = (case m w of (Inl e, w') \<Rightarrow> (Inl e, w') | (Inr x, w') \<Rightarrow> f x w')"

definition io_map_err :: "('e \<Rightarrow> 'f) \<Rightarrow> ('w, 'e, 'a) call \<Rightarrow> ('w, 'f, 'a) call" where
  "io_map_err g m w = (case m w of (r, w') \<Rightarrow> (map_err g r, w'))"

text \<open>A call whose result is inspected and not propagated.\<close>

definition io_try :: "('w, 'e, 'a) call \<Rightarrow> ('e + 'a \<Rightarrow> ('w, 'f, 'b) call) \<Rightarrow> ('w, 'f, 'b) call" where
  "io_try m f w = (case m w of (r, w') \<Rightarrow> f r w')"

lemmas [io_simps] = io_ok_def io_fail_def io_of_def

lemma io_bind_ok_iff:
  "io_bind m f w = (Inr y, w'') \<longleftrightarrow> (\<exists>x w'. m w = (Inr x, w') \<and> f x w' = (Inr y, w''))"
  by (auto simp: io_bind_def split: prod.splits sum.splits)

lemma io_bind_eq [io_simps]:
  "m w = (Inr x, w') \<Longrightarrow> io_bind m f w = f x w'"
  "m w = (Inl e, w') \<Longrightarrow> io_bind m f w = (Inl e, w')"
  by (simp_all add: io_bind_def)

lemma io_map_err_ok_iff: "io_map_err g m w = (Inr x, w') \<longleftrightarrow> m w = (Inr x, w')"
  by (auto simp: io_map_err_def map_err_def split: prod.splits sum.splits)

lemma io_map_err_eq [io_simps]:
  "m w = (Inr x, w') \<Longrightarrow> io_map_err g m w = (Inr x, w')"
  "m w = (Inl e, w') \<Longrightarrow> io_map_err g m w = (Inl (g e), w')"
  by (simp_all add: io_map_err_def map_err_def)

lemma io_of_ok_iff: "io_of r w = (Inr x, w') \<longleftrightarrow> r = Inr x \<and> w' = w"
  by (auto simp: io_of_def)

lemma io_try_eq [io_simps]: "m w = (r, w') \<Longrightarrow> io_try m f w = f r w'"
  by (simp add: io_try_def)

lemmas call_ok_iffs = io_bind_ok_iff io_map_err_ok_iff io_of_ok_iff

end
