(* ===== verification/Enclave_Grpc.thy ===== *)
theory Enclave_Grpc
  imports Enclave_Runner World_Calls
begin

text \<open>
  The boundary of the enclave: its gRPC services (\<open>src/node/enclave/src/grpc.rs\<close>) and the daemon's
  client for them (\<open>src/node/daemon/src/grpc/enclave_client.rs\<close>).

  A handler decodes the wire message, calls the service and encodes its answer. The state behind
  both services is the runner, which holds the secrets. What a handler needs beside it (clock,
  attestations, random draws, libraries) is one record \<open>enclave_env\<close>, the circumstances of one call;
  \<open>grpc_service\<close> runs the \<open>k\<close>-th call under the \<open>k\<close>-th environment. The transport and the stream of
  a log request are not modelled. The client works on any table of remote calls.
\<close>

section \<open>Messages\<close>

datatype grpc_status =
    InvalidArgument string
  | StatusInternal string
  | AlreadyExists string
  | FailedPrecondition string
  | NotFound string
  | Unimplemented string

record proto_secrets_bundle =
  psb_secrets_box :: "proto_secrets_box option"
  psb_env_report :: "proto_env_report option"
  psb_consumer_info :: "proto_consumer option"

record proto_secret_status =
  pss_id :: "proto_secret_id option"
  pss_found :: bool
  pss_expiry :: u64

record run_worker_response =
  rw_success :: bool
  rw_worker_id :: string
  rw_error_message :: string

record ('j, 'v) enclave_env =
  ee_text :: text_ext
  ee_cx :: crypto_ext
  ee_ax :: auth_ext
  ee_rx :: "'j runner_ext"
  ee_bx :: bundle_ext
  ee_ops :: "'v vm_ops"
  ee_connect :: "'v connect_ext"
  ee_vfy :: verifier
  ee_now :: u64
  ee_mono :: nat
  ee_own :: "attestation_error + attestation_bundle"
  ee_nonce :: bytes
  ee_draw :: "nat \<Rightarrow> string + bytes"
  ee_manifest_json :: "bytes \<Rightarrow> string + 'j worker_manifest"
  ee_get_error_text :: "get_error \<Rightarrow> string"
  ee_generate_error_text :: "generate_error \<Rightarrow> string"
  ee_client_error_text :: "client_error \<Rightarrow> string"

section \<open>The secrets service\<close>

definition conv_err :: "('j, 'v) enclave_env \<Rightarrow> string \<Rightarrow> conversion_error \<Rightarrow> grpc_status" where
  "conv_err env what e = InvalidArgument (''Invalid '' @ what @ '': '' @ conversion_text (ee_rx env) e)"

definition grpc_get_report ::
  "('j, 'v) enclave_env \<Rightarrow> ('v runner, grpc_status, proto_attestation_bundle) call" where
  "grpc_get_report env = (case ee_own env of
      Inr b \<Rightarrow> io_ok (attestation_bundle_to_proto b)
    | Inl e \<Rightarrow> io_fail (StatusInternal (''Failed to get report: '' @ attestation_text (ee_rx env) e)))"

definition secrets_bundle_of_proto ::
  "('j, 'v) enclave_env \<Rightarrow> proto_secrets_bundle \<Rightarrow> grpc_status + put_bundle" where
  "secrets_bundle_of_proto env p =
    rbind (ok_or (InvalidArgument ''Missing SecretsBox in bundle'') (psb_secrets_box p)) (\<lambda>pb.
    rbind (map_err (conv_err env ''SecretsBox'') (secrets_box_of_proto (ee_text env) pb)) (\<lambda>box.
    rbind (ok_or (InvalidArgument ''Missing EnvReport in bundle'') (psb_env_report p)) (\<lambda>pe.
    rbind (map_err (conv_err env ''EnvReport'') (env_report_of_proto pe)) (\<lambda>er.
    rbind (ok_or (InvalidArgument ''Missing ConsumerInfo in bundle'')
             (map_option consumer_of_proto (psb_consumer_info p))) (\<lambda>ci.
    Inr (box, er, ci))))))"

definition grpc_put_secrets ::
  "('j, 'v) enclave_env \<Rightarrow> proto_secrets_bundle list \<Rightarrow> ('v runner, grpc_status, bool) call" where
  "grpc_put_secrets env ps =
    io_bind (io_of (collect (secrets_bundle_of_proto env) ps)) (\<lambda>bundles s.
    (case put_secrets (ee_cx env) (ee_ax env) (ee_now env) (ee_vfy env) bundles (r_secrets s) of
       (sec, ok) \<Rightarrow> (Inr ok, s\<lparr>r_secrets := sec\<rparr>)))"

definition requests_of_proto ::
  "('j, 'v) enclave_env \<Rightarrow> proto_secret_request list \<Rightarrow> grpc_status + (secret_id \<times> consumer_info) list" where
  "requests_of_proto env ps =
    rbind (collect (\<lambda>p. map_err (conv_err env ''SecretRequest'') (secret_request_of_proto (ee_text env) p)) ps)
      (\<lambda>rs. Inr (map (\<lambda>r. (sr_secret_id r, sr_consumer r)) rs))"

definition grpc_get_secrets ::
  "('j, 'v) enclave_env \<Rightarrow> proto_secret_request list \<Rightarrow> proto_env_report option
     \<Rightarrow> ('v runner, grpc_status, proto_secrets_box option) call" where
  "grpc_get_secrets env ps pe =
    io_bind (io_of (requests_of_proto env ps)) (\<lambda>rs.
    io_bind (io_of (ok_or (InvalidArgument ''Missing requester_env_report'') pe)) (\<lambda>pe.
    io_bind (io_of (map_err (conv_err env ''EnvReport'') (env_report_of_proto pe))) (\<lambda>er s.
    (case get_secrets (ee_cx env) (ee_ax env) (ee_now env) (ee_vfy env) (ee_nonce env) (r_secrets s) rs er of
       Inr box \<Rightarrow> (Inr (Some (secrets_box_to_proto (ee_text env) box)), s)
     | Inl e \<Rightarrow> (Inl (StatusInternal (''Failed to get secrets: '' @ ee_get_error_text env e)), s)))))"

definition grpc_check_secrets ::
  "('j, 'v) enclave_env \<Rightarrow> proto_secret_id list \<Rightarrow> ('v runner, grpc_status, proto_secret_status list) call" where
  "grpc_check_secrets env ps =
    io_bind (io_of (collect (\<lambda>p. map_err (conv_err env ''SecretIdentifier'') (secret_id_of_proto (ee_text env) p)) ps))
      (\<lambda>ids s. (Inr (map (\<lambda>(i, found, expiry).
          \<lparr>pss_id = Some (secret_id_to_proto (ee_text env) i), pss_found = found, pss_expiry = expiry\<rparr>)
        (check_secrets (ee_now env) (r_secrets s) ids)), s))"

definition grpc_generate_secrets ::
  "('j, 'v) enclave_env \<Rightarrow> proto_secret_request list \<Rightarrow> ('v runner, grpc_status, unit) call" where
  "grpc_generate_secrets env ps =
    io_bind (io_of (requests_of_proto env ps)) (\<lambda>rs s.
    (case generate_secrets (ee_ax env) (ee_now env) (ee_own env) (ee_draw env) rs (r_secrets s) of
       (sec, Inr _) \<Rightarrow> (Inr (), s\<lparr>r_secrets := sec\<rparr>)
     | (sec, Inl e) \<Rightarrow>
         (Inl (AlreadyExists (''Failed to generate secrets: '' @ ee_generate_error_text env e)),
          s\<lparr>r_secrets := sec\<rparr>)))"

section \<open>The runner service\<close>

fun map_runner_error :: "('j, 'v) enclave_env \<Rightarrow> runner_error \<Rightarrow> grpc_status" where
  "map_runner_error env (VmNotAttached i) = FailedPrecondition (''VM not attached: '' @ i)"
| "map_runner_error env (WorkerNotFound i) = NotFound (''Worker not found: '' @ i)"
| "map_runner_error env (VmConnection e) =
     StatusInternal (''VM connection error: '' @ ee_client_error_text env e)"
| "map_runner_error env (RunnerDeserialization e) = StatusInternal (''Data format error: '' @ e)"
| "map_runner_error env (PolicyExecutionFailed e) = StatusInternal (''Policy execution failed: '' @ e)"
| "map_runner_error env (Internal e) = StatusInternal e"
| "map_runner_error env (TlsConfig e) = StatusInternal (''TLS config error: '' @ e)"
| "map_runner_error env (WorkerStartFailed e) = StatusInternal (''Failed to start worker: '' @ e)"
| "map_runner_error env (UnsupportedVmAddress _) =
     Unimplemented ''VM address type not supported by this enclave build''"
| "map_runner_error env (EventSendError e) = StatusInternal (''Event send error: '' @ e)"

text \<open>A runner operation whose errors become statuses.\<close>

definition runner_call ::
  "('j, 'v) enclave_env \<Rightarrow> ('v runner \<Rightarrow> 'v runner \<times> (runner_error + 'a))
     \<Rightarrow> ('v runner, grpc_status, 'a) call" where
  "runner_call env f s = (case f s of (s', r) \<Rightarrow> (map_err (map_runner_error env) r, s'))"

definition grpc_attach_vm ::
  "('j, 'v) enclave_env \<Rightarrow> string \<Rightarrow> proto_vm_address option \<Rightarrow> ('v runner, grpc_status, bool) call" where
  "grpc_attach_vm env vm_id pa =
    io_bind (io_of (ok_or (InvalidArgument ''Missing VM address'') pa)) (\<lambda>pa.
    io_bind (io_of (map_err (conv_err env ''VmAddress'') (vm_address_of_proto pa))) (\<lambda>a.
    runner_call env (attach_vm (ee_connect env) vm_id a)))"

definition grpc_detach_vm :: "('j, 'v) enclave_env \<Rightarrow> string \<Rightarrow> ('v runner, grpc_status, unit) call" where
  "grpc_detach_vm env vm_id = runner_call env (detach_vm vm_id)"

definition grpc_run_worker ::
  "('j, 'v) enclave_env \<Rightarrow> string \<Rightarrow> string \<Rightarrow> bytes \<Rightarrow> bytes
     \<Rightarrow> ('v runner, grpc_status, run_worker_response) call" where
  "grpc_run_worker env worker_id vm_id manifest bundle =
    io_bind (io_of (map_err (\<lambda>e. InvalidArgument (''Failed to deserialize WorkerManifest: '' @ e))
        (ee_manifest_json env manifest))) (\<lambda>m s.
    (case run_worker (ee_rx env) (ee_bx env) (ee_ax env) (ee_ops env) (ee_now env) (ee_own env)
            worker_id vm_id m (WorkerBundle bundle) s of
       (s', Inr w) \<Rightarrow> (Inr \<lparr>rw_success = True, rw_worker_id = w, rw_error_message = []\<rparr>, s')
     | (s', Inl (WorkerStartFailed msg)) \<Rightarrow>
         (Inr \<lparr>rw_success = False, rw_worker_id = [], rw_error_message = msg\<rparr>, s')
     | (s', Inl e) \<Rightarrow> (Inl (map_runner_error env e), s')))"

definition grpc_terminate_worker ::
  "('j, 'v) enclave_env \<Rightarrow> string \<Rightarrow> ('v runner, grpc_status, unit) call" where
  "grpc_terminate_worker env worker_id s =
    (case terminate_worker (ee_ops env) (ee_mono env) worker_id s of
       (s', Inr _) \<Rightarrow> (Inr (), s')
     | (s', Inl (WorkerNotFound _)) \<Rightarrow> (Inr (), s')
     | (s', Inl e) \<Rightarrow> (Inl (map_runner_error env e), s'))"

definition grpc_execute_policy ::
  "('j, 'v) enclave_env \<Rightarrow> string \<Rightarrow> proto_policy_request list
     \<Rightarrow> ('v runner, grpc_status, proto_policy_request list) call" where
  "grpc_execute_policy env worker_id ps =
    io_bind (io_of (collect (\<lambda>p. map_err (conv_err env ''PolicyExecutionRequest'')
        (policy_request_of_proto (ee_text env) p)) ps)) (\<lambda>cs.
    io_bind (runner_call env (execute_policy (ee_rx env) (ee_ax env) (ee_ops env) (ee_vfy env) (ee_now env)
        worker_id cs)) (\<lambda>sat.
    io_ok (map (policy_request_to_proto (ee_text env)) sat)))"

definition event_of_delivery ::
  "('j, 'v) enclave_env \<Rightarrow> event_delivery \<Rightarrow> grpc_status + (string \<times> string \<times> event_payload)" where
  "event_of_delivery env p =
    rbind (ok_or (InvalidArgument ''EventDelivery missing event_payload'') (ed_event_payload p)) (\<lambda>pe.
    rbind (map_err (conv_err env ''EventPayload'') (event_payload_of_proto pe)) (\<lambda>e.
    Inr (ed_worker_id p, ed_handler_name p, e)))"

definition grpc_deliver_batch_events ::
  "('j, 'v) enclave_env \<Rightarrow> event_delivery list \<Rightarrow> ('v runner, grpc_status, bool \<times> string) call" where
  "grpc_deliver_batch_events env ps =
    io_bind (io_of (collect (event_of_delivery env) ps)) (\<lambda>evs.
    io_bind (runner_call env (deliver_batch_events (ee_rx env) evs)) (\<lambda>_.
    io_ok (True, ''Batch delivered'')))"

definition grpc_invoke_http_worker ::
  "('j, 'v) enclave_env \<Rightarrow> string \<Rightarrow> bytes option \<Rightarrow> ('v runner, grpc_status, bytes option) call" where
  "grpc_invoke_http_worker env worker_id req =
    io_bind (io_of (ok_or (InvalidArgument ''Missing HttpRequest in InvokeHttpWorkerRequest'') req)) (\<lambda>req.
    io_bind (runner_call env (invoke_http_worker (ee_ops env) worker_id req)) (\<lambda>resp.
    io_ok (Some resp)))"

definition grpc_check_worker_status ::
  "('j, 'v) enclave_env \<Rightarrow> string \<Rightarrow> ('v runner, grpc_status, int \<times> string) call" where
  "grpc_check_worker_status env worker_id = runner_call env (check_worker_status (ee_ops env) worker_id)"

definition grpc_get_worker_logs ::
  "('j, 'v) enclave_env \<Rightarrow> string \<Rightarrow> ('v runner, grpc_status, string) call" where
  "grpc_get_worker_logs env worker_id = runner_call env (get_worker_logs (ee_ops env) worker_id)"

definition grpc_stream_worker_logs ::
  "('j, 'v) enclave_env \<Rightarrow> string \<Rightarrow> u32 \<Rightarrow> bool \<Rightarrow> ('v runner, grpc_status, string list) call" where
  "grpc_stream_worker_logs env worker_id tail_lines follow =
    runner_call env (stream_worker_logs (ee_ops env) worker_id tail_lines follow)"

end
