(* ===== verification/Enclave_Client.thy ===== *)
theory Enclave_Client
  imports Enclave_Grpc
begin

text \<open>
  The daemon's client for the enclave (\<open>src/node/daemon/src/grpc/enclave_client.rs\<close>) over a table of
  remote calls, and the table that the enclave's services provide. The theorems say that client and
  service together are the enclave's operations.
\<close>

section \<open>Remote calls\<close>

record 'w enclave_rpc =
  rpc_status_text :: "grpc_status \<Rightarrow> string"
  rpc_conversion_text :: "conversion_error \<Rightarrow> string"
  rpc_text :: text_ext
  rpc_get_report :: "('w, grpc_status, proto_attestation_bundle) call"
  rpc_put_secrets :: "proto_secrets_bundle list \<Rightarrow> ('w, grpc_status, bool) call"
  rpc_get_secrets :: "proto_secret_request list \<Rightarrow> proto_env_report option
    \<Rightarrow> ('w, grpc_status, proto_secrets_box option) call"
  rpc_check_secrets :: "proto_secret_id list \<Rightarrow> ('w, grpc_status, proto_secret_status list) call"
  rpc_generate_secrets :: "proto_secret_request list \<Rightarrow> ('w, grpc_status, unit) call"
  rpc_attach_vm :: "string \<Rightarrow> proto_vm_address option \<Rightarrow> ('w, grpc_status, bool) call"
  rpc_detach_vm :: "string \<Rightarrow> ('w, grpc_status, unit) call"
  rpc_run_worker :: "string \<Rightarrow> string \<Rightarrow> bytes \<Rightarrow> bytes \<Rightarrow> ('w, grpc_status, run_worker_response) call"
  rpc_terminate_worker :: "string \<Rightarrow> ('w, grpc_status, unit) call"
  rpc_execute_policy :: "string \<Rightarrow> proto_policy_request list
    \<Rightarrow> ('w, grpc_status, proto_policy_request list) call"
  rpc_deliver_batch_events :: "event_delivery list \<Rightarrow> ('w, grpc_status, bool \<times> string) call"
  rpc_invoke_http_worker :: "string \<Rightarrow> bytes option \<Rightarrow> ('w, grpc_status, bytes option) call"
  rpc_check_worker_status :: "string \<Rightarrow> ('w, grpc_status, int \<times> string) call"
  rpc_get_worker_logs :: "string \<Rightarrow> ('w, grpc_status, string) call"
  rpc_stream_worker_logs :: "string \<Rightarrow> u32 \<Rightarrow> bool \<Rightarrow> ('w, grpc_status, string list) call"

text \<open>The enclave's services, the \<open>k\<close>-th call under the \<open>k\<close>-th environment.\<close>

definition at_tick ::
  "(nat \<Rightarrow> ('j, 'v) enclave_env) \<Rightarrow> (('j, 'v) enclave_env \<Rightarrow> ('v runner, 'e, 'a) call)
     \<Rightarrow> (nat \<times> 'v runner, 'e, 'a) call" where
  "at_tick E f w = (case w of (k, s) \<Rightarrow> case f (E k) s of (r, s') \<Rightarrow> (r, (k + 1, s')))"

definition grpc_service ::
  "(grpc_status \<Rightarrow> string) \<Rightarrow> (conversion_error \<Rightarrow> string) \<Rightarrow> text_ext
     \<Rightarrow> (nat \<Rightarrow> ('j, 'v) enclave_env) \<Rightarrow> (nat \<times> 'v runner) enclave_rpc" where
  "grpc_service st ct tx E =
    \<lparr>rpc_status_text = st, rpc_conversion_text = ct, rpc_text = tx,
     rpc_get_report = at_tick E grpc_get_report,
     rpc_put_secrets = (\<lambda>ps. at_tick E (\<lambda>env. grpc_put_secrets env ps)),
     rpc_get_secrets = (\<lambda>ps pe. at_tick E (\<lambda>env. grpc_get_secrets env ps pe)),
     rpc_check_secrets = (\<lambda>ps. at_tick E (\<lambda>env. grpc_check_secrets env ps)),
     rpc_generate_secrets = (\<lambda>ps. at_tick E (\<lambda>env. grpc_generate_secrets env ps)),
     rpc_attach_vm = (\<lambda>v a. at_tick E (\<lambda>env. grpc_attach_vm env v a)),
     rpc_detach_vm = (\<lambda>v. at_tick E (\<lambda>env. grpc_detach_vm env v)),
     rpc_run_worker = (\<lambda>i v m b. at_tick E (\<lambda>env. grpc_run_worker env i v m b)),
     rpc_terminate_worker = (\<lambda>i. at_tick E (\<lambda>env. grpc_terminate_worker env i)),
     rpc_execute_policy = (\<lambda>i cs. at_tick E (\<lambda>env. grpc_execute_policy env i cs)),
     rpc_deliver_batch_events = (\<lambda>evs. at_tick E (\<lambda>env. grpc_deliver_batch_events env evs)),
     rpc_invoke_http_worker = (\<lambda>i r. at_tick E (\<lambda>env. grpc_invoke_http_worker env i r)),
     rpc_check_worker_status = (\<lambda>i. at_tick E (\<lambda>env. grpc_check_worker_status env i)),
     rpc_get_worker_logs = (\<lambda>i. at_tick E (\<lambda>env. grpc_get_worker_logs env i)),
     rpc_stream_worker_logs = (\<lambda>i n f. at_tick E (\<lambda>env. grpc_stream_worker_logs env i n f))\<rparr>"

section \<open>The client\<close>

definition client_get_report :: "'w enclave_rpc \<Rightarrow> ('w, string, attestation_bundle) call" where
  "client_get_report rpc =
    io_bind (io_map_err (rpc_status_text rpc) (rpc_get_report rpc)) (\<lambda>p.
    io_ok (attestation_bundle_of_proto p))"

definition secrets_bundle_to_proto :: "text_ext \<Rightarrow> put_bundle \<Rightarrow> proto_secrets_bundle" where
  "secrets_bundle_to_proto ext b = (case b of (box, er, ci) \<Rightarrow>
    \<lparr>psb_secrets_box = Some (secrets_box_to_proto ext box), psb_env_report = Some (env_report_to_proto er),
     psb_consumer_info = Some (consumer_to_proto ci)\<rparr>)"

definition client_put_secrets :: "'w enclave_rpc \<Rightarrow> put_bundle list \<Rightarrow> ('w, string, bool) call" where
  "client_put_secrets rpc bs =
    io_map_err (rpc_status_text rpc) (rpc_put_secrets rpc (map (secrets_bundle_to_proto (rpc_text rpc)) bs))"

definition request_to_proto :: "text_ext \<Rightarrow> secret_id \<times> consumer_info \<Rightarrow> proto_secret_request" where
  "request_to_proto ext r = (case r of (sid, ci) \<Rightarrow>
    \<lparr>psr_secret_id = Some (secret_id_to_proto ext sid), psr_consumer = Some (consumer_to_proto ci)\<rparr>)"

definition client_get_secrets ::
  "'w enclave_rpc \<Rightarrow> (secret_id \<times> consumer_info) list \<Rightarrow> env_report \<Rightarrow> ('w, string, secrets_box) call" where
  "client_get_secrets rpc rs er =
    io_bind (io_map_err (rpc_status_text rpc) (rpc_get_secrets rpc (map (request_to_proto (rpc_text rpc)) rs)
        (Some (env_report_to_proto er)))) (\<lambda>out. case out of
      Some p \<Rightarrow> io_of (map_err (\<lambda>e. ''Invalid SecretsBox from enclave: '' @ rpc_conversion_text rpc e)
        (secrets_box_of_proto (rpc_text rpc) p))
    | None \<Rightarrow> io_fail ''Enclave returned no SecretsBox'')"

fun statuses_of_proto ::
  "'w enclave_rpc \<Rightarrow> proto_secret_status list \<Rightarrow> string + (secret_id \<times> bool \<times> u64) list" where
  "statuses_of_proto rpc [] = Inr []"
| "statuses_of_proto rpc (st # sts) = (case pss_id st of
      None \<Rightarrow> statuses_of_proto rpc sts
    | Some p \<Rightarrow>
        rbind (map_err (\<lambda>e. ''Invalid SecretIdentifier from enclave: '' @ rpc_conversion_text rpc e)
                 (secret_id_of_proto (rpc_text rpc) p)) (\<lambda>sid.
        rbind (statuses_of_proto rpc sts) (\<lambda>out. Inr ((sid, pss_found st, pss_expiry st) # out))))"

definition client_check_secrets ::
  "'w enclave_rpc \<Rightarrow> secret_id list \<Rightarrow> ('w, string, (secret_id \<times> bool \<times> u64) list) call" where
  "client_check_secrets rpc ids =
    io_bind (io_map_err (rpc_status_text rpc)
        (rpc_check_secrets rpc (map (secret_id_to_proto (rpc_text rpc)) ids))) (\<lambda>sts.
    io_of (statuses_of_proto rpc sts))"

definition client_generate_secrets ::
  "'w enclave_rpc \<Rightarrow> (secret_id \<times> consumer_info) list \<Rightarrow> ('w, string, unit) call" where
  "client_generate_secrets rpc rs =
    io_map_err (rpc_status_text rpc) (rpc_generate_secrets rpc (map (request_to_proto (rpc_text rpc)) rs))"

definition client_attach_vm :: "'w enclave_rpc \<Rightarrow> string \<Rightarrow> string \<Rightarrow> ('w, string, bool) call" where
  "client_attach_vm rpc vm_id path =
    io_map_err (rpc_status_text rpc) (rpc_attach_vm rpc vm_id
      (Some \<lparr>address_type = Some (PUds \<lparr>puds_path = path\<rparr>)\<rparr>))"

definition client_detach_vm :: "'w enclave_rpc \<Rightarrow> string \<Rightarrow> ('w, string, bool) call" where
  "client_detach_vm rpc vm_id =
    io_bind (io_map_err (rpc_status_text rpc) (rpc_detach_vm rpc vm_id)) (\<lambda>_. io_ok True)"

definition client_run_worker ::
  "'w enclave_rpc \<Rightarrow> string \<Rightarrow> string \<Rightarrow> bytes \<Rightarrow> bytes \<Rightarrow> ('w, string, string) call" where
  "client_run_worker rpc worker_id vm_id manifest bundle =
    io_bind (io_map_err (rpc_status_text rpc) (rpc_run_worker rpc worker_id vm_id manifest bundle)) (\<lambda>r.
    if rw_success r \<or> rw_worker_id r \<noteq> [] then io_ok (rw_worker_id r)
    else io_fail (''Enclave runner failed to start worker: '' @ rw_error_message r))"

definition client_terminate_worker :: "'w enclave_rpc \<Rightarrow> string \<Rightarrow> ('w, string, unit) call" where
  "client_terminate_worker rpc worker_id = io_map_err (rpc_status_text rpc) (rpc_terminate_worker rpc worker_id)"

definition client_execute_policy ::
  "'w enclave_rpc \<Rightarrow> string \<Rightarrow> policy_execution_request list
     \<Rightarrow> ('w, string, policy_execution_request list) call" where
  "client_execute_policy rpc worker_id cs =
    io_bind (io_map_err (rpc_status_text rpc)
        (rpc_execute_policy rpc worker_id (map (policy_request_to_proto (rpc_text rpc)) cs))) (\<lambda>ps.
    io_of (collect (\<lambda>p. map_err (\<lambda>e. ''Invalid PolicyExecutionRequest from enclave: '' @ rpc_conversion_text rpc e)
      (policy_request_of_proto (rpc_text rpc) p)) ps))"

definition client_deliver_batch_events ::
  "'w enclave_rpc \<Rightarrow> event_delivery list \<Rightarrow> ('w, string, bool) call" where
  "client_deliver_batch_events rpc evs =
    io_bind (io_map_err (rpc_status_text rpc) (rpc_deliver_batch_events rpc evs)) (\<lambda>(ok, msg).
    if ok then io_ok True else io_fail (''Enclave runner failed to deliver batch events: '' @ msg))"

definition client_invoke_http_worker :: "'w enclave_rpc \<Rightarrow> string \<Rightarrow> bytes \<Rightarrow> ('w, string, bytes) call" where
  "client_invoke_http_worker rpc worker_id req =
    io_bind (io_map_err (rpc_status_text rpc) (rpc_invoke_http_worker rpc worker_id (Some req))) (\<lambda>r.
    io_of (ok_or ''Enclave returned no HttpResponse'' r))"

definition client_check_worker_status :: "'w enclave_rpc \<Rightarrow> string \<Rightarrow> ('w, string, int \<times> string) call" where
  "client_check_worker_status rpc worker_id =
    io_bind (io_map_err (rpc_status_text rpc) (rpc_check_worker_status rpc worker_id)) (\<lambda>(st, msg).
    if 0 \<le> st \<and> st \<le> 5 then io_ok (st, msg)
    else io_fail ''Invalid worker status enum value from enclave'')"

definition client_get_worker_logs :: "'w enclave_rpc \<Rightarrow> string \<Rightarrow> ('w, string, string) call" where
  "client_get_worker_logs rpc worker_id = io_map_err (rpc_status_text rpc) (rpc_get_worker_logs rpc worker_id)"

definition client_stream_worker_logs ::
  "'w enclave_rpc \<Rightarrow> string \<Rightarrow> u32 \<Rightarrow> bool \<Rightarrow> ('w, string, string list) call" where
  "client_stream_worker_logs rpc worker_id n follow =
    io_map_err (rpc_status_text rpc) (rpc_stream_worker_logs rpc worker_id n follow)"

section \<open>Client and service together\<close>

lemma at_tick_eq: "f (E k) s = (r, s') \<Longrightarrow> at_tick E f (k, s) = (r, (k + 1, s'))"
  by (simp add: at_tick_def)

definition put_bundle_wf :: "text_ext \<Rightarrow> put_bundle \<Rightarrow> bool" where
  "put_bundle_wf ext b \<longleftrightarrow> (case b of (box, er, ci) \<Rightarrow> secrets_box_wf ext box \<and> env_report_wf er)"

interpretation put_bundle_codec:
  codec "secrets_bundle_to_proto (ee_text env)" "secrets_bundle_of_proto env" "put_bundle_wf (ee_text env)"
  for env
  by unfold_locales
    (auto simp: secrets_bundle_to_proto_def secrets_bundle_of_proto_def put_bundle_wf_def
      secrets_box_codec.dec_enc env_report_codec.dec_enc)

lemma requests_dec_enc:
  assumes "ee_text env = ext" "\<forall>(i, ci) \<in> set rs. secret_id_wf ext i"
  shows "requests_of_proto env (map (request_to_proto ext) rs) = Inr rs"
proof -
  have p: "request_to_proto ext (i, ci) = secret_request_to_proto ext \<lparr>sr_secret_id = i, sr_consumer = ci\<rparr>" for i ci
    by (simp add: request_to_proto_def secret_request_to_proto_def)
  have "collect (\<lambda>p. map_err (conv_err env ''SecretRequest'') (secret_request_of_proto ext p))
      (map (request_to_proto ext) rs) = Inr (map (\<lambda>(i, ci). \<lparr>sr_secret_id = i, sr_consumer = ci\<rparr>) rs)"
    using assms(2)
    by (induction rs) (auto simp: p secret_request_codec.dec_enc secret_request_wf_def)
  then show ?thesis
    by (simp add: requests_of_proto_def assms(1) comp_def case_prod_beta)
qed

lemma identifiers_dec_enc:
  "list_all (secret_id_wf ext) ids \<Longrightarrow>
    collect (\<lambda>p. map_err f (secret_id_of_proto ext p)) (map (secret_id_to_proto ext) ids) = Inr ids"
  by (induction ids) (auto simp: secret_id_codec.dec_enc)

lemma statuses_dec_enc:
  "\<forall>(i, b, x) \<in> set sts. secret_id_wf (rpc_text rpc) i \<Longrightarrow>
    statuses_of_proto rpc (map (\<lambda>(i, b, x).
      \<lparr>pss_id = Some (secret_id_to_proto (rpc_text rpc) i), pss_found = b, pss_expiry = x\<rparr>) sts) = Inr sts"
  by (induction sts) (auto simp: secret_id_codec.dec_enc)

lemma check_secrets_ids: "map fst (check_secrets now s ids) = ids"
  by (induction ids) (auto simp: check_secrets_def split: option.split)

lemma released_box_ids:
  assumes "get_secrets cx ax now vfy nonce s rs er = Inr box"
  shows "contained_secret_ids box = map fst (collect_packed ax now s (er_attestation er) rs)"
proof -
  from assms obtain u :: user_data where
    "encrypt_secrets_box cx nonce (kx_keypair_of s) (ephemeral_public_key u)
       (collect_packed ax now s (er_attestation er) rs) = Inr box"
    unfolding get_secrets_Inr_iff by blast
  then show ?thesis
    by (auto simp: encrypt_secrets_box_def Let_def rbind_def case_prod_beta split: sum.splits)
qed

lemma released_box_wf:
  assumes "get_secrets cx ax now vfy nonce s rs er = Inr box" "\<forall>(i, ci) \<in> set rs. secret_id_wf ext i"
  shows "secrets_box_wf ext box"
proof -
  have "\<exists>d e g. (i, d, e, g) \<in> set (collect_packed ax now s (er_attestation er) rs)"
    if "i \<in> set (contained_secret_ids box)" for i
    using that unfolding released_box_ids [OF assms(1)] by (auto, blast)
  then show ?thesis using assms(2)
    unfolding secrets_box_wf_def list_all_iff collect_packed_iff by blast
qed

lemma grpc_service_simps [simp]:
  "rpc_text (grpc_service st ct tx E) = tx"
  "rpc_status_text (grpc_service st ct tx E) = st"
  "rpc_put_secrets (grpc_service st ct tx E) ps = at_tick E (\<lambda>env. grpc_put_secrets env ps)"
  "rpc_get_secrets (grpc_service st ct tx E) qs pe = at_tick E (\<lambda>env. grpc_get_secrets env qs pe)"
  "rpc_check_secrets (grpc_service st ct tx E) is = at_tick E (\<lambda>env. grpc_check_secrets env is)"
  "rpc_generate_secrets (grpc_service st ct tx E) qs = at_tick E (\<lambda>env. grpc_generate_secrets env qs)"
  "rpc_execute_policy (grpc_service st ct tx E) i cs = at_tick E (\<lambda>env. grpc_execute_policy env i cs)"
  "rpc_run_worker (grpc_service st ct tx E) i v m b = at_tick E (\<lambda>env. grpc_run_worker env i v m b)"
  "rpc_terminate_worker (grpc_service st ct tx E) i = at_tick E (\<lambda>env. grpc_terminate_worker env i)"
  by (simp_all add: grpc_service_def)

lemma client_put_secrets_eq:
  assumes "ee_text (E k) = tx" "list_all (put_bundle_wf tx) bs"
  shows "client_put_secrets (grpc_service st ct tx E) bs (k, s)
    = (case put_secrets (ee_cx (E k)) (ee_ax (E k)) (ee_now (E k)) (ee_vfy (E k)) bs (r_secrets s) of
        (sec, ok) \<Rightarrow> (Inr ok, (k + 1, s\<lparr>r_secrets := sec\<rparr>)))"
  using put_bundle_codec.collect_enc [of "E k" bs] assms
  by (simp add: client_put_secrets_def io_map_err_def at_tick_def grpc_put_secrets_def io_bind_def
      io_simps split: prod.split)

lemma client_check_secrets_eq:
  assumes "ee_text (E k) = tx" "list_all (secret_id_wf tx) ids"
  shows "client_check_secrets (grpc_service st ct tx E) ids (k, s)
    = (Inr (check_secrets (ee_now (E k)) (r_secrets s) ids), (k + 1, s))"
proof -
  let ?sts = "check_secrets (ee_now (E k)) (r_secrets s) ids" and ?rpc = "grpc_service st ct tx E"
  have "fst ` set ?sts = set ids" by (simp only: check_secrets_ids flip: set_map)
  with assms(2) have "secret_id_wf tx (fst x)" if "x \<in> set ?sts" for x
    using that by (auto simp: list_all_iff)
  then have "\<forall>(i, b, x) \<in> set ?sts. secret_id_wf (rpc_text ?rpc) i" by fastforce
  from statuses_dec_enc [OF this] show ?thesis
    by (simp add: client_check_secrets_def io_map_err_def at_tick_def grpc_check_secrets_def io_bind_def
        io_simps assms(1) identifiers_dec_enc [OF assms(2)])
qed

lemma client_get_secrets_eq:
  assumes "ee_text (E k) = tx" "\<forall>(i, ci) \<in> set rs. secret_id_wf tx i" "env_report_wf er"
  shows "client_get_secrets (grpc_service st ct tx E) rs er (k, s)
    = (case get_secrets (ee_cx (E k)) (ee_ax (E k)) (ee_now (E k)) (ee_vfy (E k)) (ee_nonce (E k))
              (r_secrets s) rs er of
        Inr box \<Rightarrow> (Inr box, (k + 1, s))
      | Inl e \<Rightarrow> (Inl (st (StatusInternal (''Failed to get secrets: '' @ ee_get_error_text (E k) e))), (k + 1, s)))"
  using released_box_wf [OF _ assms(2)]
  by (auto simp: client_get_secrets_def io_map_err_def at_tick_def grpc_get_secrets_def io_bind_def
      io_simps assms(1) requests_dec_enc [OF assms(1,2)] env_report_codec.dec_enc [OF assms(3)]
      secrets_box_codec.dec_enc split: sum.split)

lemma client_generate_secrets_eq:
  assumes "ee_text (E k) = tx" "\<forall>(i, ci) \<in> set rs. secret_id_wf tx i"
  shows "client_generate_secrets (grpc_service st ct tx E) rs (k, s)
    = (case generate_secrets (ee_ax (E k)) (ee_now (E k)) (ee_own (E k)) (ee_draw (E k)) rs (r_secrets s) of
        (sec, Inr _) \<Rightarrow> (Inr (), (k + 1, s\<lparr>r_secrets := sec\<rparr>))
      | (sec, Inl e) \<Rightarrow>
          (Inl (st (AlreadyExists (''Failed to generate secrets: '' @ ee_generate_error_text (E k) e))),
           (k + 1, s\<lparr>r_secrets := sec\<rparr>)))"
  by (simp add: client_generate_secrets_def io_map_err_def at_tick_def grpc_generate_secrets_def io_bind_def
      io_simps requests_dec_enc [OF assms] split: sum.split prod.split)

lemma policy_requests_dec_enc:
  assumes "list_all (policy_request_wf ext) cs"
  shows "collect (\<lambda>p. map_err f (policy_request_of_proto ext p)) (map (policy_request_to_proto ext) cs) = Inr cs"
  using assms by (induction cs) (auto simp: policy_request_codec.dec_enc)

definition without_claims :: "policy_execution_request \<Rightarrow> policy_execution_request" where
  "without_claims r = r\<lparr>per_claims := None\<rparr>"

lemma policy_request_to_proto_without_claims:
  "policy_request_to_proto ext (without_claims r) = policy_request_to_proto ext r"
  by (simp add: policy_request_to_proto_def without_claims_def)

text \<open>What the policy worker approves are contexts of the request, up to their claims.\<close>

lemma enhance_contexts_without_claims:
  "map without_claims (enhance_contexts vfy k cs) = map without_claims cs"
  by (induction cs arbitrary: k) (auto simp: without_claims_def Let_def split: sum.split)

lemma execute_policy_sub:
  assumes "execute_policy rx ax ops vfy now w cs s = (s', Inr sat)" "c \<in> set sat"
  shows "\<exists>c' \<in> set cs. without_claims c = without_claims c'"
proof -
  from execute_policy_cases(3) [OF assms(1) refl] obtain results where
    "sat = map fst (filter snd (zip (enhance_contexts vfy 0 cs) results))" by blast
  with assms(2) have "c \<in> set (enhance_contexts vfy 0 cs)" by (auto dest: set_zip_leftD)
  then have "without_claims c \<in> set (map without_claims (enhance_contexts vfy 0 cs))" by simp
  then show ?thesis unfolding enhance_contexts_without_claims by auto
qed

lemma without_claims_wf:
  "policy_request_wf ext c' \<Longrightarrow> without_claims c = without_claims c' \<Longrightarrow> policy_request_wf ext (without_claims c)"
  by (cases c; cases c') (simp add: policy_request_wf_def without_claims_def)

lemma approved_dec_enc:
  assumes "execute_policy rx ax ops vfy now w cs s = (s', Inr sat)" "list_all (policy_request_wf ext) cs"
  shows "collect (\<lambda>p. map_err f (policy_request_of_proto ext p)) (map (policy_request_to_proto ext) sat)
    = Inr (map without_claims sat)"
proof -
  have "list_all (policy_request_wf ext) (map without_claims sat)"
    using execute_policy_sub [OF assms(1)] assms(2) without_claims_wf by (fastforce simp: list_all_iff)
  from policy_requests_dec_enc [OF this, of f] show ?thesis
    by (simp add: policy_request_to_proto_without_claims comp_def)
qed

lemma client_execute_policy_eq:
  assumes "ee_text (E k) = tx" "list_all (policy_request_wf tx) cs"
  shows "client_execute_policy (grpc_service st ct tx E) w cs (k, s)
    = (case execute_policy (ee_rx (E k)) (ee_ax (E k)) (ee_ops (E k)) (ee_vfy (E k)) (ee_now (E k)) w cs s of
        (s', Inr sat) \<Rightarrow> (Inr (map without_claims sat), (k + 1, s'))
      | (s', Inl e) \<Rightarrow> (Inl (st (map_runner_error (E k) e)), (k + 1, s')))"
proof -
  let ?x = "execute_policy (ee_rx (E k)) (ee_ax (E k)) (ee_ops (E k)) (ee_vfy (E k)) (ee_now (E k)) w cs s"
  obtain s' r where x: "?x = (s', r)" by fastforce
  have dec: "collect (\<lambda>p. map_err f (policy_request_of_proto tx p)) (map (policy_request_to_proto tx) sat)
      = Inr (map without_claims sat)" if "r = Inr sat" for sat f
    using approved_dec_enc assms(2) x that by blast
  show ?thesis
  proof (cases r)
    case (Inr sat)
    show ?thesis
      by (simp add: client_execute_policy_def io_map_err_def at_tick_def grpc_execute_policy_def
          io_bind_def io_simps runner_call_def assms(1) policy_requests_dec_enc [OF assms(2)] x Inr dec [OF Inr])
  qed (simp add: client_execute_policy_def io_map_err_def at_tick_def grpc_execute_policy_def
      io_bind_def io_simps runner_call_def assms(1) policy_requests_dec_enc [OF assms(2)] x)
qed

section \<open>Properties\<close>

definition sample_enclave_env :: "(unit, unit) enclave_env" where
  "sample_enclave_env = \<lparr>ee_text = sample_text, ee_cx = sample_cx, ee_ax = sample_auth, ee_rx = sample_rx,
     ee_bx = sample_bundle_ext, ee_ops = sample_vm_ops,
     ee_connect = \<lparr>ce_tls = Inr (), ce_uds = True, ce_vsock = False, ce_parse_socket = (\<lambda>_ _. Inr ()),
       ce_connect = (\<lambda>_. Inr ())\<rparr>,
     ee_vfy = sample_verifier, ee_now = 100, ee_mono = 5,
     ee_own = Inr (er_attestation (sample_env_report [2])), ee_nonce = replicate 12 0,
     ee_draw = (\<lambda>_. Inr [1]),
     ee_manifest_json = (\<lambda>_. Inr \<lparr>wm_bundle = \<lparr>wbp_source = ''https://example.com/bundle'', wbp_hash = None\<rparr>,
        wm_identities = [], wm_userdata = Map.empty\<rparr>),
     ee_get_error_text = (\<lambda>_. ''get''), ee_generate_error_text = (\<lambda>_. ''generate''),
     ee_client_error_text = (\<lambda>_. ''client'')\<rparr>"

definition sample_rpc :: "(nat \<times> unit runner) enclave_rpc" where
  "sample_rpc = grpc_service (\<lambda>_. ''status'') (\<lambda>_. ''conversion'') sample_text (\<lambda>_. sample_enclave_env)"

text \<open>
  The boundary is transparent: for messages whose identifiers survive printing, a call of the
  daemon's client served by the enclave has the effect and the result of the enclave's own
  operation: putting, releasing, checking and generating secrets, and executing a policy. An error
  of the operation becomes the text of its status, and the approved contexts come back without
  their claims.
\<close>

theorem enclave_client_transparent:
  assumes "ee_text (E k) = tx" "list_all (put_bundle_wf tx) bs" "\<forall>(i, ci) \<in> set rs. secret_id_wf tx i"
    and "env_report_wf er" "list_all (policy_request_wf tx) cs"
  shows "let rpc = grpc_service st ct tx E; env = E k; sec = r_secrets s in
      client_put_secrets rpc bs (k, s)
        = (let (sec', ok) = put_secrets (ee_cx env) (ee_ax env) (ee_now env) (ee_vfy env) bs sec
           in (Inr ok, (k + 1, s\<lparr>r_secrets := sec'\<rparr>)))
    \<and> client_get_secrets rpc rs er (k, s)
        = (map_err (\<lambda>e. st (StatusInternal (''Failed to get secrets: '' @ ee_get_error_text env e)))
             (get_secrets (ee_cx env) (ee_ax env) (ee_now env) (ee_vfy env) (ee_nonce env) sec rs er), (k + 1, s))
    \<and> client_check_secrets rpc (map fst rs) (k, s) = (Inr (check_secrets (ee_now env) sec (map fst rs)), (k + 1, s))
    \<and> client_generate_secrets rpc rs (k, s)
        = (let (sec', r) = generate_secrets (ee_ax env) (ee_now env) (ee_own env) (ee_draw env) rs sec
           in (map_err (\<lambda>e. st (AlreadyExists (''Failed to generate secrets: '' @ ee_generate_error_text env e))) r,
               (k + 1, s\<lparr>r_secrets := sec'\<rparr>)))
    \<and> client_execute_policy rpc w cs (k, s)
        = (let (s', r) = execute_policy (ee_rx env) (ee_ax env) (ee_ops env) (ee_vfy env) (ee_now env) w cs s
           in (rbind (map_err (\<lambda>e. st (map_runner_error env e)) r) (\<lambda>sat. Inr (map without_claims sat)), (k + 1, s')))"
proof -
  have ids: "list_all (secret_id_wf tx) (map fst rs)" using assms(3) by (fastforce simp: list_all_iff)
  show ?thesis
    unfolding Let_def client_put_secrets_eq [where E = E, OF assms(1,2)]
      client_get_secrets_eq [where E = E, OF assms(1,3,4)] client_check_secrets_eq [where E = E, OF assms(1) ids]
      client_generate_secrets_eq [where E = E, OF assms(1,3)] client_execute_policy_eq [where E = E, OF assms(1,5)]
    by (intro conjI) (auto simp: unit_eq split: prod.splits sum.splits)
qed

theorem enclave_client_transparent_witness:
  "client_check_secrets sample_rpc [sample_sid] (0, sample_runner) = (Inr [(sample_sid, True, 0)], (1, sample_runner))
   \<and> client_put_secrets sample_rpc [] (0, sample_runner) = (Inr False, (1, sample_runner))"
proof -
  have wf: "secret_id_wf sample_text sample_sid"
    by (simp add: sample_sid_def sample_secret_def sample_id_wf)
  have "ee_text ((\<lambda>_ :: nat. sample_enclave_env) 0) = sample_text" by (simp add: sample_enclave_env_def)
  from enclave_client_transparent [OF this, where bs = "[]" and rs = "[(sample_sid, sample_consumer)]"
      and er = "sample_env_report []" and cs = "[]" and st = "\<lambda>_. ''status''" and ct = "\<lambda>_. ''conversion''"
      and s = sample_runner and w = "''w''"] wf
  show ?thesis
    by (simp add: sample_rpc_def Let_def check_secrets_def put_secrets_def sample_runner_def runner_new_def
        sample_secrets_def unexpired_def env_report_wf_def raw_attestation_wf_def sample_env_report_def)
qed

end
