(* ===== verification/Daemon_Base.thy ===== *)
theory Daemon_Base
  imports Worker_Types World_Calls
begin

text \<open>
  Vocabulary of the daemon's theories: its error type (\<open>src/node/daemon/src/error.rs\<close>), its calls on
  the world and the text functions it uses. A Rust panic is the result \<open>AppPanic\<close>, which no \<open>match\<close>
  and no \<open>map_err\<close> of the daemon sees: \<open>io_match\<close> and \<open>io_map_app\<close> pass it through.
\<close>

datatype app_error =
    AppIo string
  | AppNetwork string
  | AppIdentity string
  | AppService string
  | AppInternal string
  | AppValidation string
  | AppAuthorization string
  | AppPanic

fun app_error_text :: "app_error \<Rightarrow> string" where
  "app_error_text (AppIo e) = ''IO error: '' @ e"
| "app_error_text (AppNetwork e) = ''Network error: '' @ e"
| "app_error_text (AppIdentity e) = ''Identity error: '' @ e"
| "app_error_text (AppService e) = ''Service error: '' @ e"
| "app_error_text (AppInternal e) = ''Internal error: '' @ e"
| "app_error_text (AppValidation e) = ''Validation error: '' @ e"
| "app_error_text (AppAuthorization e) = ''Authorization error: '' @ e"
| "app_error_text AppPanic = ''panic''"

type_synonym ('w, 'a) io = "('w, app_error, 'a) call"

text \<open>A call whose result is inspected and not propagated (\<open>match ... await\<close>).\<close>

definition io_match :: "('w, 'a) io \<Rightarrow> (app_error + 'a \<Rightarrow> ('w, 'b) io) \<Rightarrow> ('w, 'b) io" where
  "io_match m f w = (case m w of
      (Inl AppPanic, w') \<Rightarrow> (Inl AppPanic, w')
    | (r, w') \<Rightarrow> f r w')"

definition io_map_app :: "(app_error \<Rightarrow> app_error) \<Rightarrow> ('w, 'a) io \<Rightarrow> ('w, 'a) io" where
  "io_map_app g = io_map_err (\<lambda>e. if e = AppPanic then AppPanic else g e)"

lemma io_map_app_ok_iff: "io_map_app g m w = (Inr x, w') \<longleftrightarrow> m w = (Inr x, w')"
  by (simp add: io_map_app_def io_map_err_ok_iff)

lemma io_match_ok_iff:
  "io_match m f w = (Inr y, w'') \<longleftrightarrow>
    (\<exists>r w'. m w = (r, w') \<and> r \<noteq> Inl AppPanic \<and> f r w' = (Inr y, w''))"
  by (auto simp: io_match_def split: prod.splits sum.splits app_error.splits)

lemma io_match_eq [io_simps]:
  "m w = (Inr x, w') \<Longrightarrow> io_match m f w = f (Inr x) w'"
  "m w = (Inl e, w') \<Longrightarrow> e \<noteq> AppPanic \<Longrightarrow> io_match m f w = f (Inl e) w'"
  by (simp_all add: io_match_def split: app_error.split)

lemmas io_ok_iffs = io_map_app_ok_iff call_ok_iffs

text \<open>\<open>str::starts_with\<close>, \<open>str::strip_prefix\<close> and \<open>str::split_once\<close> with a character.\<close>

definition starts_with :: "string \<Rightarrow> string \<Rightarrow> bool" where
  "starts_with p s \<longleftrightarrow> take (length p) s = p"

definition strip_prefix :: "string \<Rightarrow> string \<Rightarrow> string option" where
  "strip_prefix p s = (if starts_with p s then Some (drop (length p) s) else None)"

definition ends_with :: "string \<Rightarrow> string \<Rightarrow> bool" where
  "ends_with p s \<longleftrightarrow> length p \<le> length s \<and> drop (length s - length p) s = p"

fun split_once :: "char \<Rightarrow> string \<Rightarrow> (string \<times> string) option" where
  "split_once c [] = None"
| "split_once c (x # xs) = (if x = c then Some ([], xs)
     else map_option (\<lambda>(a, b). (x # a, b)) (split_once c xs))"

text \<open>\<open>str::trim\<close> removes white space at both ends; \<open>to_ascii_lowercase\<close>.\<close>

definition trim_text :: "(char \<Rightarrow> bool) \<Rightarrow> string \<Rightarrow> string" where
  "trim_text ws s = rev (dropWhile ws (rev (dropWhile ws s)))"

definition ascii_lower :: "char \<Rightarrow> char" where
  "ascii_lower c = (let n = of_char c :: nat in if 65 \<le> n \<and> n \<le> 90 then char_of (n + 32) else c)"

text \<open>\<open>str::contains\<close>.\<close>

fun contains_text :: "string \<Rightarrow> string \<Rightarrow> bool" where
  "contains_text p [] \<longleftrightarrow> p = []"
| "contains_text p (c # s) \<longleftrightarrow> starts_with p (c # s) \<or> contains_text p s"

text \<open>\<open>str::split\<close> with a character and \<open>join\<close>.\<close>

fun split_char :: "char \<Rightarrow> string \<Rightarrow> string list" where
  "split_char c [] = [[]]"
| "split_char c (x # xs) = (if x = c then [] # split_char c xs
     else case split_char c xs of [] \<Rightarrow> [[x]] | p # ps \<Rightarrow> (x # p) # ps)"

fun join_with :: "string \<Rightarrow> string list \<Rightarrow> string" where
  "join_with s [] = []"
| "join_with s [x] = x"
| "join_with s (x # y # ys) = x @ s @ join_with s (y # ys)"

text \<open>The bytes of a string, which is kept as the list of its bytes.\<close>

definition str_bytes :: "string \<Rightarrow> bytes" where
  "str_bytes s = map (\<lambda>c. word_of_nat (of_char c)) s"

definition quoted :: "string \<Rightarrow> string" where
  "quoted s = [CHR 0x27] @ s @ [CHR 0x27]"

lemma starts_with_append [simp]: "starts_with p (p @ s)"
  by (simp add: starts_with_def)

lemma strip_prefix_append [simp]: "strip_prefix p (p @ s) = Some s"
  by (simp add: strip_prefix_def)

lemma split_once_append: "c \<notin> set a \<Longrightarrow> split_once c (a @ c # b) = Some (a, b)"
  by (induction a) auto

lemma ends_with_append [simp]: "ends_with p (s @ p)"
  by (simp add: ends_with_def)

lemma split_char_nonempty [simp]: "split_char c s \<noteq> []"
  by (induction s) (auto split: list.split)

lemma split_char_none: "c \<notin> set s \<Longrightarrow> split_char c s = [s]"
  by (induction s) auto

lemma split_char_append: "c \<notin> set a \<Longrightarrow> split_char c (a @ c # b) = a # split_char c b"
  by (induction a) auto

lemma split_char_pieces: "x \<in> set (split_char c s) \<Longrightarrow> c \<notin> set x \<and> set x \<subseteq> set s"
proof (induction s arbitrary: x)
  case (Cons a s)
  from split_char_nonempty [of c s] obtain y ys where s: "split_char c s = y # ys" by (cases "split_char c s") auto
  have "c \<notin> set y" "set y \<subseteq> set s" "\<And>z. z \<in> set ys \<Longrightarrow> c \<notin> set z \<and> set z \<subseteq> set s" using Cons.IH s by auto
  with Cons.prems s show ?case by (auto split: if_splits)
qed simp

lemma split_join: "xs \<noteq> [] \<Longrightarrow> \<forall>x \<in> set xs. c \<notin> set x \<Longrightarrow> split_char c (join_with [c] xs) = xs"
  by (induction "[c]" xs rule: join_with.induct) (auto simp: split_char_none split_char_append)

lemma join_split: "join_with [c] (split_char c s) = s"
proof (induction s)
  case (Cons a s)
  obtain y ys where s: "split_char c s = y # ys" by (metis split_char_nonempty neq_Nil_conv)
  with Cons show ?case by (cases ys) auto
qed simp

end
