(* ===== verification/Gateways.thy ===== *)
theory Gateways
  imports Daemon_Base
begin

text \<open>
  The daemon's access to chains (\<open>src/node/daemon/src/web3/gateways.rs\<close>) and its listeners for
  chain events (\<open>web3/listener.rs\<close>).

  A gateway is shared (\<open>Arc<EventGateway>\<close>): the manager's state holds the list of all gateways
  that were created, and its cache and its callers hold indices into it. The chain list is the
  argument \<open>rpcs\<close> (\<open>get_rpcs_for_chain\<close>), connecting to a node and calling a contract are calls on the
  world. A subscription's filter sets are lists, as they are only asked for membership.
\<close>

section \<open>Gateways\<close>

record 'p event_gateway =
  eg_urls :: "string list"
  eg_providers :: "'p list"

definition event_gateway_new :: "string list \<Rightarrow> 'p event_gateway" where
  "event_gateway_new us = \<lparr>eg_urls = us, eg_providers = []\<rparr>"

record ('w, 'p) web3_ext =
  wx_rpcs :: "u64 \<Rightarrow> string list option"
  wx_url_parse :: "string \<Rightarrow> string + unit"
  wx_connect_ws :: "string \<Rightarrow> ('w, unit, 'p) call"
  wx_token_uri :: "string \<Rightarrow> bytes \<Rightarrow> 256 word \<Rightarrow> ('w, string, string) call"

text \<open>
  The loop that connects every URL of a gateway; an error ends it and leaves the providers that
  were connected before.
\<close>

fun connect_all ::
  "('w, 'p) web3_ext \<Rightarrow> string list \<Rightarrow> 'p list \<Rightarrow> 'w \<Rightarrow> ((app_error + unit) \<times> 'p list) \<times> 'w" where
  "connect_all wx [] ps w = ((Inr (), ps), w)"
| "connect_all wx (u # us) ps w = (case wx_url_parse wx u of
      Inl e \<Rightarrow> ((Inl (AppService (''Invalid RPC URL '' @ u @ '': '' @ e)), ps), w)
    | Inr _ \<Rightarrow> (case wx_connect_ws wx u w of
        (Inl _, w') \<Rightarrow> ((Inl (AppService (''Failed to connect provider to '' @ u)), ps), w')
      | (Inr p, w') \<Rightarrow> connect_all wx us (ps @ [p]) w'))"

definition gateway_provider ::
  "('w, 'p) web3_ext \<Rightarrow> 'p event_gateway \<Rightarrow> 'w \<Rightarrow> ((app_error + 'p) \<times> 'p event_gateway) \<times> 'w" where
  "gateway_provider wx g w = (case eg_providers g of
      p # _ \<Rightarrow> ((Inr p, g), w)
    | [] \<Rightarrow> (case connect_all wx (eg_urls g) [] w of ((r, ps), w') \<Rightarrow>
        let g' = g\<lparr>eg_providers := ps\<rparr> in
        (case r of
           Inl e \<Rightarrow> ((Inl e, g'), w')
         | Inr _ \<Rightarrow> (case ps of
              p # _ \<Rightarrow> ((Inr p, g'), w')
            | [] \<Rightarrow> ((Inl (AppService ''No gateways available''), g'), w')))))"

record 'p gateway_manager =
  gm_store :: "'p event_gateway list"
  gm_gateways :: "chain_identifier \<rightharpoonup> nat"

definition gateway_manager_new :: "'p gateway_manager" where
  "gateway_manager_new = \<lparr>gm_store = [], gm_gateways = Map.empty\<rparr>"

definition get_rpc_urls_for_chain_id ::
  "('w, 'p) web3_ext \<Rightarrow> u64 \<Rightarrow> app_error + string list" where
  "get_rpc_urls_for_chain_id wx i =
    rbind (if i = 0 then Inr ''mock://gateway.example.com''
           else if i = 1337 \<or> i = 31337 then Inr ''ws://127.0.0.1:8545''
           else case wx_rpcs wx i of
             Some (u # _) \<Rightarrow> Inr u
           | _ \<Rightarrow> Inl (AppService ''No RPC URL configured for chain ID''))
      (\<lambda>u. Inr [u])"

definition new_gateway :: "string list \<Rightarrow> 'p gateway_manager \<Rightarrow> 'p gateway_manager \<times> nat" where
  "new_gateway us m = (m\<lparr>gm_store := gm_store m @ [event_gateway_new us]\<rparr>, length (gm_store m))"

fun get_gateway ::
  "('w, 'p) web3_ext \<Rightarrow> chain_identifier \<Rightarrow> 'p gateway_manager \<Rightarrow> 'p gateway_manager \<times> (app_error + nat)" where
  "get_gateway wx (GatewayUrl u) m = (case new_gateway [u] m of (m', i) \<Rightarrow> (m', Inr i))"
| "get_gateway wx (GatewayUrls us) m = (case new_gateway us m of (m', i) \<Rightarrow> (m', Inr i))"
| "get_gateway wx (ChainId c) m = (case gm_gateways m (ChainId c) of
      Some i \<Rightarrow> (m, Inr i)
    | None \<Rightarrow> (case get_rpc_urls_for_chain_id wx c of
        Inl e \<Rightarrow> (m, Inl e)
      | Inr us \<Rightarrow> (case new_gateway us m of (m', i) \<Rightarrow>
          (m'\<lparr>gm_gateways := (gm_gateways m')(ChainId c \<mapsto> i)\<rparr>, Inr i))))"

definition gateways_for_event ::
  "('w, 'p) web3_ext \<Rightarrow> chain_identifier \<Rightarrow> string list \<Rightarrow> 'p gateway_manager
     \<Rightarrow> 'p gateway_manager \<times> (app_error + nat)" where
  "gateways_for_event wx c us m =
    (if us = [] then get_gateway wx c m
     else case new_gateway us m of (m', i) \<Rightarrow> (m', Inr i))"

definition get_policy_url ::
  "('w, 'p) web3_ext \<Rightarrow> chain_identifier \<Rightarrow> bytes \<Rightarrow> 256 word \<Rightarrow> ('w, string) io" where
  "get_policy_url wx c addr i =
    io_bind (io_of (case c of
        GatewayUrl u \<Rightarrow> Inr [u]
      | GatewayUrls us \<Rightarrow> Inr us
      | ChainId cid \<Rightarrow> get_rpc_urls_for_chain_id wx cid)) (\<lambda>us.
    io_bind (io_of (ok_or (AppService ''No RPC URL available for chain'')
        (case us of [] \<Rightarrow> None | u # _ \<Rightarrow> Some u))) (\<lambda>u.
    if starts_with ''mock://'' u then io_ok ''mock://policy.example.com'' else
    io_bind (io_of (map_err (\<lambda>e. AppService (''Invalid RPC URL '' @ u @ '': '' @ e)) (wx_url_parse wx u))) (\<lambda>_.
    io_map_err (\<lambda>e. AppService (''Failed to fetch policy URL: '' @ e)) (wx_token_uri wx u addr i))))"

section \<open>Filters\<close>

text \<open>A filter set that is empty matches everything.\<close>

record log_filter =
  lf_address :: "bytes list"
  lf_topics :: "bytes list list"

fun fill_topics :: "nat \<Rightarrow> bytes list list \<Rightarrow> bytes list list \<Rightarrow> bytes list list" where
  "fill_topics i [] arr = arr"
| "fill_topics i (vs # vss) arr =
    (if i < 4 then fill_topics (i + 1) vss (arr[i := (if vs = [] then [] else vs)]) else arr)"

definition web3_event_config_to_alloy_filter :: "web3_event \<Rightarrow> log_filter" where
  "web3_event_config_to_alloy_filter cfg =
    \<lparr>lf_address = we_address cfg, lf_topics = fill_topics 0 (we_topics cfg) [[], [], [], []]\<rparr>"

fun topics_match :: "nat \<Rightarrow> bytes list \<Rightarrow> bytes list list \<Rightarrow> bool" where
  "topics_match i ts [] = True"
| "topics_match i ts (vs # vss) =
    (if vs = [] then topics_match (i + 1) ts vss
     else if i < length ts \<and> ts ! i \<in> set vs then topics_match (i + 1) ts vss
     else False)"

definition log_matches_config :: "web3_log \<Rightarrow> web3_event \<Rightarrow> bool" where
  "log_matches_config l cfg =
    (if we_address cfg \<noteq> [] \<and> wl_address l \<notin> set (we_address cfg) then False
     else topics_match 0 (wl_topics l) (we_topics cfg))"

section \<open>The listener\<close>

text \<open>
  The listener waits for a provider, for a log or for the end of a delay; each outcome, or the
  shutdown signal, is an input; an input that a state does not await changes nothing. A streamed log
  that matches is one event for the daemon's queue.
\<close>

datatype listener_state = Connecting | Streaming | Delaying | Stopped

datatype listener_input =
    ProviderFailed
  | SubscribeFailed
  | Subscribed
  | LogReceived web3_log
  | StreamEnded
  | DelayElapsed
  | Shutdown

definition web3_delivery :: "string \<Rightarrow> string \<Rightarrow> web3_log \<Rightarrow> event_delivery" where
  "web3_delivery w hnd l = 
    \<lparr>ed_worker_id = w, ed_event_payload = Some (Some (PWeb3Log (web3_log_to_proto l))),
     ed_handler_name = hnd\<rparr>"

fun listener_step ::
  "string \<Rightarrow> string \<Rightarrow> web3_event \<Rightarrow> listener_state \<Rightarrow> listener_input
     \<Rightarrow> listener_state \<times> event_delivery list" where
  "listener_step w hnd cfg Connecting ProviderFailed = (Delaying, [])"
| "listener_step w hnd cfg Connecting SubscribeFailed = (Delaying, [])"
| "listener_step w hnd cfg Connecting Subscribed = (Streaming, [])"
| "listener_step w hnd cfg Streaming Shutdown = (Stopped, [])"
| "listener_step w hnd cfg Streaming (LogReceived l) =
     (Streaming, if \<not> log_matches_config l cfg then [] else [web3_delivery w hnd l])"
| "listener_step w hnd cfg Streaming StreamEnded = (Delaying, [])"
| "listener_step w hnd cfg Delaying DelayElapsed = (Connecting, [])"
| "listener_step w hnd cfg Delaying Shutdown = (Stopped, [])"
| "listener_step w hnd cfg st _ = (st, [])"

text \<open>A listener starts only when its gateway resolves.\<close>

definition start_web3_event_listener ::
  "('w, 'p) web3_ext \<Rightarrow> web3_event \<Rightarrow> 'p gateway_manager \<Rightarrow> 'p gateway_manager \<times> listener_state" where
  "start_web3_event_listener wx cfg m = (case gateways_for_event wx (we_chain cfg) (we_gateways cfg) m of
      (m', Inl _) \<Rightarrow> (m', Stopped)
    | (m', Inr _) \<Rightarrow> (m', Connecting))"

fun listener_run ::
  "string \<Rightarrow> string \<Rightarrow> web3_event \<Rightarrow> listener_state \<Rightarrow> listener_input list \<Rightarrow> event_delivery list" where
  "listener_run w hnd cfg st [] = []"
| "listener_run w hnd cfg st (x # xs) = (case listener_step w hnd cfg st x of
      (st', ds) \<Rightarrow> ds @ listener_run w hnd cfg st' xs)"

section \<open>The cache\<close>

definition gm_inv :: "('w, 'p) web3_ext \<Rightarrow> 'p gateway_manager \<Rightarrow> bool" where
  "gm_inv wx m \<longleftrightarrow> (\<forall>c i. gm_gateways m c = Some i \<longrightarrow> i < length (gm_store m)
     \<and> (\<exists>cid. c = ChainId cid \<and> get_rpc_urls_for_chain_id wx cid = Inr (eg_urls (gm_store m ! i))))"

datatype gm_op = ResolveGateway chain_identifier | ResolveEvent chain_identifier "string list" | UseProvider nat

text \<open>Using a gateway's provider changes the gateway in the store.\<close>

definition use_provider ::
  "('w, 'p) web3_ext \<Rightarrow> nat \<Rightarrow> 'p gateway_manager \<times> 'w \<Rightarrow> 'p gateway_manager \<times> 'w" where
  "use_provider wx i s = (case s of (m, w) \<Rightarrow>
     if i < length (gm_store m) then
       (case gateway_provider wx (gm_store m ! i) w of ((_, g), w') \<Rightarrow>
          (m\<lparr>gm_store := (gm_store m)[i := g]\<rparr>, w'))
     else (m, w))"

fun gm_step :: "('w, 'p) web3_ext \<Rightarrow> 'p gateway_manager \<times> 'w \<Rightarrow> gm_op \<Rightarrow> 'p gateway_manager \<times> 'w" where
  "gm_step wx s (ResolveGateway c) = (fst (get_gateway wx c (fst s)), snd s)"
| "gm_step wx s (ResolveEvent c us) = (fst (gateways_for_event wx c us (fst s)), snd s)"
| "gm_step wx s (UseProvider i) = use_provider wx i s"

lemma gateway_provider_urls [simp]:
  "gateway_provider wx g w = ((r, g'), w') \<Longrightarrow> eg_urls g' = eg_urls g"
  by (auto simp: gateway_provider_def Let_def split: list.splits prod.splits sum.splits)

lemma new_gateway_inv: "gm_inv wx m \<Longrightarrow> new_gateway us m = (m', i) \<Longrightarrow> gm_inv wx m'"
  by (fastforce simp: gm_inv_def new_gateway_def nth_append)

lemma get_gateway_inv: "gm_inv wx m \<Longrightarrow> gm_inv wx (fst (get_gateway wx c m))"
proof (cases c)
  case (ChainId cid)
  assume i: "gm_inv wx m"
  then show ?thesis
    by (fastforce simp: ChainId gm_inv_def new_gateway_def event_gateway_new_def nth_append
        split: option.split sum.split)
qed (auto simp: new_gateway_inv split: prod.split)

lemma gateways_for_event_inv: "gm_inv wx m \<Longrightarrow> gm_inv wx (fst (gateways_for_event wx c us m))"
  by (auto simp: gateways_for_event_def get_gateway_inv new_gateway_inv split: prod.split)

lemma use_provider_inv: "gm_inv wx (fst s) \<Longrightarrow> gm_inv wx (fst (use_provider wx i s))"
proof -
  assume inv: "gm_inv wx (fst s)"
  obtain m w where s: "s = (m, w)" by fastforce
  obtain r g w' where g: "gateway_provider wx (gm_store m ! i) w = ((r, g), w')" by (metis prod.exhaust)
  have "eg_urls ((gm_store m)[i := g] ! j) = eg_urls (gm_store m ! j)" if "i < length (gm_store m)" for j
    using that gateway_provider_urls [OF g] by (cases "i = j") simp_all
  with inv show ?thesis by (auto simp: use_provider_def s g gm_inv_def)
qed

interpretation gm_machine: invariant_machine "gm_step wx" "\<lambda>s :: 'p gateway_manager \<times> 'w. gm_inv wx (fst s)"
  for wx :: "('w, 'p) web3_ext"
proof
  fix s :: "'p gateway_manager \<times> 'w" and op
  assume "gm_inv wx (fst s)"
  then show "gm_inv wx (fst (gm_step wx s op))"
    by (cases op) (simp_all add: get_gateway_inv gateways_for_event_inv use_provider_inv)
qed

section \<open>Properties\<close>

definition topic_at :: "bytes list list \<Rightarrow> nat \<Rightarrow> bytes list" where
  "topic_at vss i = (if i < length vss then vss ! i else [])"

lemma fill_topics_length [simp]: "length (fill_topics i vss arr) = length arr"
  by (induction i vss arr rule: fill_topics.induct) simp_all

lemma fill_topics_nth:
  "length arr = 4 \<Longrightarrow> k < 4 \<Longrightarrow> fill_topics i vss arr ! k
     = (if i \<le> k \<and> k - i < length vss then vss ! (k - i) else arr ! k)"
proof (induction i vss arr rule: fill_topics.induct)
  case (2 i vs vss arr)
  then show ?case by (auto simp: nth_Cons' nth_list_update)
qed simp

lemma topics_match_iff:
  "topics_match i ts vss \<longleftrightarrow>
    (\<forall>k < length vss. vss ! k = [] \<or> i + k < length ts \<and> ts ! (i + k) \<in> set (vss ! k))"
proof (induction i ts vss rule: topics_match.induct)
  case (2 i ts vs vss)
  then show ?case by (auto simp: All_less_Suc2)
qed simp

text \<open>The documented meaning of a log subscription's filter.\<close>

definition filter_accepts :: "log_filter \<Rightarrow> web3_log \<Rightarrow> bool" where
  "filter_accepts f l \<longleftrightarrow> (lf_address f = [] \<or> wl_address l \<in> set (lf_address f))
     \<and> (\<forall>k < length (lf_topics f). lf_topics f ! k = []
          \<or> k < length (wl_topics l) \<and> wl_topics l ! k \<in> set (lf_topics f ! k))"

lemma fill_topics_match:
  assumes "length vss \<le> 4"
  shows "(\<forall>k < 4. fill_topics 0 vss [[], [], [], []] ! k = []
      \<or> k < length ts \<and> ts ! k \<in> set (fill_topics 0 vss [[], [], [], []] ! k))
    \<longleftrightarrow> topics_match 0 ts vss"
proof -
  have blank: "[[], [], [], []] ! k = ([] :: bytes list)" if "k < 4" for k
    using that by (auto simp: numeral_eq_Suc less_Suc_eq)
  have "fill_topics 0 vss [[], [], [], []] ! k = topic_at vss k" if "k < 4" for k
    using that fill_topics_nth [of "[[], [], [], []]" k 0 vss] blank by (simp add: topic_at_def)
  then show ?thesis using assms by (force simp: topics_match_iff topic_at_def)
qed

text \<open>
  The node's filter and the daemon's own check agree: for a configuration with at most four topic
  groups, the filter that is sent with the subscription accepts exactly the logs that
  \<open>log_matches_config\<close> accepts. With a fifth, non-empty group the own check refuses every log (a log
  has at most four topics) although the subscription's filter ignores the group.
\<close>

theorem filter_agrees_with_check:
  "(length (we_topics cfg) \<le> 4 \<longrightarrow>
      filter_accepts (web3_event_config_to_alloy_filter cfg) l = log_matches_config l cfg)
   \<and> (\<forall>k. k < length (we_topics cfg) \<and> 4 \<le> k \<and> we_topics cfg ! k \<noteq> [] \<and>
      length (wl_topics l) \<le> 4 \<longrightarrow> \<not> log_matches_config l cfg)"
proof (intro conjI allI impI)
  assume "length (we_topics cfg) \<le> 4"
  from fill_topics_match [OF this, of "wl_topics l"]
  show "filter_accepts (web3_event_config_to_alloy_filter cfg) l = log_matches_config l cfg"
    by (simp add: filter_accepts_def web3_event_config_to_alloy_filter_def log_matches_config_def
        numeral_eq_Suc)
next
  fix k
  assume k: "k < length (we_topics cfg) \<and> 4 \<le> k \<and> we_topics cfg ! k \<noteq> [] \<and> length (wl_topics l) \<le> 4"
  then have "\<not> 0 + k < length (wl_topics l)" by linarith
  with k have "\<not> topics_match 0 (wl_topics l) (we_topics cfg)" unfolding topics_match_iff by blast
  then show "\<not> log_matches_config l cfg" by (simp add: log_matches_config_def)
qed

definition sample_web3_event :: web3_event where
  "sample_web3_event = \<lparr>we_chain = ChainId 1, we_address = [[1]], we_topics = [[[2], [3]], [], [[4]]],
     we_gateways = []\<rparr>"

definition sample_web3_log :: web3_log where
  "sample_web3_log = sample_log\<lparr>wl_address := [1], wl_topics := [[3], [9], [4]]\<rparr>"

theorem filter_agrees_with_check_witness:
  "filter_accepts (web3_event_config_to_alloy_filter sample_web3_event) sample_web3_log
   \<and> \<not> log_matches_config sample_web3_log (sample_web3_event\<lparr>we_topics := [[], [], [], [], [[5]]]\<rparr>)"
proof
  have "log_matches_config sample_web3_log sample_web3_event"
    by (simp add: log_matches_config_def sample_web3_event_def sample_web3_log_def)
  with filter_agrees_with_check [of sample_web3_event sample_web3_log]
  show "filter_accepts (web3_event_config_to_alloy_filter sample_web3_event) sample_web3_log"
    by (simp add: sample_web3_event_def)
  show "\<not> log_matches_config sample_web3_log (sample_web3_event\<lparr>we_topics := [[], [], [], [], [[5]]]\<rparr>)"
    using filter_agrees_with_check [of "sample_web3_event\<lparr>we_topics := [[], [], [], [], [[5]]]\<rparr>"
        sample_web3_log, THEN conjunct2, THEN spec [of _ 4]] by (simp add: sample_web3_log_def)
qed

text \<open>The logs among the inputs of a listener that it receives while it streams.\<close>

fun streamed :: "listener_state \<Rightarrow> listener_input list \<Rightarrow> web3_log list" where
  "streamed st [] = []"
| "streamed st (x # xs) = (case (st, x) of
      (Connecting, Subscribed) \<Rightarrow> streamed Streaming xs
    | (Connecting, ProviderFailed) \<Rightarrow> streamed Delaying xs
    | (Connecting, SubscribeFailed) \<Rightarrow> streamed Delaying xs
    | (Streaming, LogReceived l) \<Rightarrow> l # streamed Streaming xs
    | (Streaming, StreamEnded) \<Rightarrow> streamed Delaying xs
    | (Delaying, DelayElapsed) \<Rightarrow> streamed Connecting xs
    | (Streaming, Shutdown) \<Rightarrow> []
    | (Delaying, Shutdown) \<Rightarrow> []
    | (Stopped, _) \<Rightarrow> []
    | _ \<Rightarrow> streamed st xs)"

lemma listener_stopped [simp]: "listener_run w hnd cfg Stopped xs = []"
  by (induction xs) simp_all

lemma streamed_stopped [simp]: "streamed Stopped xs = []"
  by (cases xs) simp_all



text \<open>
  The gateway cache: in every state the manager reaches, only chain ids are cached, a chain id
  resolves again to the same shared gateway with the URLs of the chain list, and a custom URL always
  makes a new gateway and leaves the cache as it is.
\<close>

theorem gateway_cache:
  assumes "(m, w) = foldl (gm_step wx) (gateway_manager_new, w0) ops"
  shows "dom (gm_gateways m) \<subseteq> range ChainId
    \<and> (\<forall>c m' i. get_gateway wx (ChainId c) m = (m', Inr i) \<longrightarrow>
         get_gateway wx (ChainId c) m' = (m', Inr i)
         \<and> get_rpc_urls_for_chain_id wx c = Inr (eg_urls (gm_store m' ! i)))
    \<and> (\<forall>u. \<exists>m'. get_gateway wx (GatewayUrl u) m = (m', Inr (length (gm_store m)))
         \<and> gm_gateways m' = gm_gateways m)"
proof -
  have "gm_inv wx (fst (gateway_manager_new, w0))" by (simp add: gm_inv_def gateway_manager_new_def)
  from gm_machine.run_inv [OF this, of ops] assms have inv: "gm_inv wx m" by (metis fst_conv)
  have "get_gateway wx (ChainId c) m' = (m', Inr i)
      \<and> get_rpc_urls_for_chain_id wx c = Inr (eg_urls (gm_store m' ! i))"
    if g: "get_gateway wx (ChainId c) m = (m', Inr i)" for c m' i
    using g inv by (auto simp: gm_inv_def new_gateway_def event_gateway_new_def
        split: option.splits sum.splits)
  moreover have "dom (gm_gateways m) \<subseteq> range ChainId"
  proof
    fix c
    assume "c \<in> dom (gm_gateways m)"
    then obtain i where "gm_gateways m c = Some i" by blast
    then obtain cid where "c = ChainId cid" using inv unfolding gm_inv_def by blast
    then show "c \<in> range ChainId" by blast
  qed
  moreover have "\<exists>m'. get_gateway wx (GatewayUrl u) m = (m', Inr (length (gm_store m)))
      \<and> gm_gateways m' = gm_gateways m" for u by (simp add: new_gateway_def)
  ultimately show ?thesis by blast
qed

definition sample_web3_ext :: "(nat, nat) web3_ext" where
  "sample_web3_ext = \<lparr>wx_rpcs = (\<lambda>_. Some [''wss://one'', ''wss://two'']), wx_url_parse = (\<lambda>_. Inr ()),
     wx_connect_ws = (\<lambda>u w. if w = 1 then (Inl (), w + 1) else (Inr w, w + 1)),
     wx_token_uri = (\<lambda>_ _ _ w. (Inr ''data:,policy'', w))\<rparr>"

theorem gateway_cache_witness:
  "dom (gm_gateways (fst (foldl (gm_step sample_web3_ext) (gateway_manager_new, 0)
      [ResolveGateway (ChainId 1), ResolveGateway (GatewayUrl ''wss://x'')]))) \<subseteq> range ChainId"
  using gateway_cache [of "fst (foldl (gm_step sample_web3_ext) (gateway_manager_new, 0)
      [ResolveGateway (ChainId 1), ResolveGateway (GatewayUrl ''wss://x'')])", OF prod.collapse]
  by blast

text \<open>
  Connecting a gateway with several URLs fails when one of them cannot be reached, but the
  providers connected before stay: if the first URL connects, the next use of the gateway succeeds
  with it, whatever the other URLs are, and keeps succeeding without any further connection.
\<close>

theorem provider_after_partial_failure:
  assumes "eg_urls g = u # us" "eg_providers g = []" "wx_url_parse wx u = Inr ()"
    and "wx_connect_ws wx u w = (Inr p, w1)"
  shows "\<exists>r g' w'. gateway_provider wx g w = ((r, g'), w')
    \<and> (r = Inr p \<or> (\<exists>e. r = Inl e)) \<and> (\<forall>w''. gateway_provider wx g' w'' = ((Inr p, g'), w''))"
proof -
  have ext: "\<exists>qs. snd (fst (connect_all wx vs ps v)) = ps @ qs" for vs ps v
  proof (induction wx vs ps v rule: connect_all.induct)
    case (2 wx v vs ps w)
    then show ?case by (fastforce split: sum.splits prod.splits)
  qed simp
  obtain r ps w' where c: "connect_all wx us [p] w1 = ((r, ps), w')" by (metis prod.exhaust)
  with ext [of us "[p]" w1] obtain qs where "ps = p # qs" by auto
  then show ?thesis using assms c
    by (cases r) (auto simp: gateway_provider_def Let_def)
qed

theorem provider_after_partial_failure_witness:
  "\<exists>g' w'. gateway_provider sample_web3_ext (event_gateway_new [''wss://a'', ''wss://b'']) 0
       = ((Inl (AppService ''Failed to connect provider to wss://b''), g'), w')
     \<and> (\<forall>w''. gateway_provider sample_web3_ext g' w'' = ((Inr 0, g'), w''))"
proof -
  have "gateway_provider sample_web3_ext (event_gateway_new [''wss://a'', ''wss://b'']) 0
      = ((Inl (AppService ''Failed to connect provider to wss://b''),
          (event_gateway_new [''wss://a'', ''wss://b''])\<lparr>eg_providers := [0]\<rparr>), 2)"
    by (simp add: gateway_provider_def event_gateway_new_def sample_web3_ext_def Let_def)
  with provider_after_partial_failure [of "event_gateway_new [''wss://a'', ''wss://b'']" "''wss://a''"
      "[''wss://b'']" sample_web3_ext 0 0 1]
  show ?thesis by (auto simp: event_gateway_new_def sample_web3_ext_def)
qed

end
