(* ===== verification/Daemon_Policy.thy ===== *)
theory Daemon_Policy
  imports Gateways
begin

text \<open>
  The policy manager (\<open>src/node/daemon/src/policy.rs\<close>): fetching the manifest and the bundle of a
  policy, data URLs, and local files that are wrapped in an envelope.

  Files, HTTP, JSON, base64 and URL parsing are the fields of \<open>policy_ext\<close>. A path is its text and a
  directory of the environment the list of its components; the search for the directory among the
  ancestors of the executable is part of the environment.
\<close>

section \<open>Environment\<close>

record http_response =
  hr_success :: bool
  hr_status :: string
  hr_body :: "string + bytes"

record ('w, 'j) policy_ext =
  px_manifest_json :: "bytes \<Rightarrow> string + 'j worker_manifest"
  px_json_text_field :: "bytes \<Rightarrow> string \<Rightarrow> string option"
  px_envelope_json :: "dsse_envelope \<Rightarrow> bytes"
  px_payload_json :: "worker_bundle_payload \<Rightarrow> bytes"
  px_percent_decode :: "string \<Rightarrow> bytes"
  px_http_get :: "string \<Rightarrow> ('w, string, http_response) call"
  px_read_file :: "string \<Rightarrow> ('w, string, bytes) call"
  px_current_dir :: "string + unit"
  px_node_dir :: "string list"
  px_url_ok :: "string \<Rightarrow> bool"
  px_url_scheme :: "string \<Rightarrow> string"
  px_url_path :: "string \<Rightarrow> string"
  px_url_join :: "string \<Rightarrow> string \<Rightarrow> app_error + string"

record policy_manager =
  pm_default_vm_id :: string

section \<open>Paths and data URLs\<close>

fun join_path :: "string list \<Rightarrow> string" where
  "join_path [] = []"
| "join_path [c] = c"
| "join_path (c # cs) = c @ ''/'' @ join_path cs"

definition file_name :: "string \<Rightarrow> string" where
  "file_name p = rev (takeWhile (\<lambda>c. c \<noteq> CHR ''/'') (rev p))"

definition path_extension :: "string \<Rightarrow> string option" where
  "path_extension p = (case split_once CHR ''.'' (rev (file_name p)) of
      None \<Rightarrow> None
    | Some (e, stem) \<Rightarrow> if stem = [] then None else Some (rev e))"

text \<open>Under a test run the directory is the daemon's and the tests are beside it.\<close>

definition mock_base :: "string list \<Rightarrow> string list" where
  "mock_base d = (if d \<noteq> [] \<and> last d = ''daemon'' then butlast d else d)"

definition resolve_mock_policy_manifest_path :: "('w, 'j) policy_ext \<Rightarrow> string" where
  "resolve_mock_policy_manifest_path px =
    join_path (mock_base (px_node_dir px) @ [''tests'', ''policy'', ''mock_policy.json''])"

definition decode_data_url ::
  "bundle_ext \<Rightarrow> ('w, 'j) policy_ext \<Rightarrow> string \<Rightarrow> app_error + bytes" where
  "decode_data_url bx px url =
    rbind (ok_or (AppService (''Invalid data URL: '' @ url)) (strip_prefix ''data:'' url)) (\<lambda>rest.
    rbind (ok_or (AppService (''Invalid data URL: '' @ url)) (split_once CHR '','' rest)) (\<lambda>(meta, data).
    if ends_with '';base64'' meta
    then map_err (\<lambda>e. AppService (''Failed to decode base64 data URL '' @ url @ '': '' @ e)) (b64_decode bx data)
    else Inr (px_percent_decode px data)))"

definition infer_vm_from_extension :: "string \<Rightarrow> string option" where
  "infer_vm_from_extension p = (case path_extension p of
      None \<Rightarrow> None
    | Some e \<Rightarrow>
        let e = map ascii_lower e in
        if e \<in> {''zen'', ''zencode'', ''lua''} then Some ''nxcc/zenroom''
        else if e \<in> {''js'', ''mjs'', ''cjs'', ''wasm''} then Some ''nxcc/workerd''
        else None)"

section \<open>Manifests\<close>

definition fetch_worker_manifest ::
  "bundle_ext \<Rightarrow> ('w, 'j) policy_ext \<Rightarrow> string \<Rightarrow> ('w, 'j worker_manifest) io" where
  "fetch_worker_manifest bx px url =
    (if starts_with ''data:'' url then
       io_of (rbind (decode_data_url bx px url) (\<lambda>b.
         map_err (\<lambda>e. AppService (''Failed to parse worker manifest JSON from data URL: '' @ e))
           (px_manifest_json px b)))
     else if starts_with ''mock://'' url then
       io_bind (io_map_err (\<lambda>e. AppIo (''Failed to read mock policy file: '' @ e))
           (px_read_file px (resolve_mock_policy_manifest_path px))) (\<lambda>b.
       io_of (map_err (\<lambda>e. AppService (''Failed to parse mock worker manifest JSON: '' @ e))
         (px_manifest_json px b)))
     else
       io_bind (io_map_err (\<lambda>e. AppNetwork (''Failed to fetch worker manifest from '' @ url @ '': '' @ e))
           (px_http_get px url)) (\<lambda>r.
       if \<not> hr_success r
       then io_fail (AppNetwork (''Failed to fetch worker manifest from '' @ url @ '': Status '' @ hr_status r))
       else io_of (map_err (\<lambda>e. AppService (''Failed to parse worker manifest JSON from '' @ url @ '': '' @ e))
         (rbind (hr_body r) (px_manifest_json px)))))"

definition extract_vm_from_manifest_bytes :: "('w, 'j) policy_ext \<Rightarrow> bytes \<Rightarrow> string option" where
  "extract_vm_from_manifest_bytes px b = px_json_text_field px b ''vm''"

definition manifest_vm_hint ::
  "bundle_ext \<Rightarrow> ('w, 'j) policy_ext \<Rightarrow> string \<Rightarrow> ('w, string option) io" where
  "manifest_vm_hint bx px ctxt =
    (if starts_with ''mock://'' ctxt then
       io_try (px_read_file px (resolve_mock_policy_manifest_path px)) (\<lambda>r. case r of
           Inl _ \<Rightarrow> io_ok None
         | Inr b \<Rightarrow> io_ok (extract_vm_from_manifest_bytes px b))
     else if starts_with ''data:'' ctxt then
       (case decode_data_url bx px ctxt of
           Inl _ \<Rightarrow> io_ok None
         | Inr b \<Rightarrow> io_ok (extract_vm_from_manifest_bytes px b))
     else if starts_with ''file:'' ctxt then
       (if \<not> px_url_ok px ctxt then io_ok None else
        let p = px_url_path px ctxt in
        io_try (px_read_file px (case strip_prefix ''/'' p of Some q \<Rightarrow> q | None \<Rightarrow> p)) (\<lambda>r. case r of
           Inl _ \<Rightarrow> io_ok None
         | Inr b \<Rightarrow> io_ok (extract_vm_from_manifest_bytes px b)))
     else io_ok None)"

section \<open>Bundles\<close>

text \<open>Where a \<open>file:\<close> source points: a leading slash is dropped, so almost every path is relative.\<close>

definition resolve_bundle_path :: "('w, 'j) policy_ext \<Rightarrow> string \<Rightarrow> string \<Rightarrow> app_error + string" where
  "resolve_bundle_path px src ctxt =
    (let path_str = px_url_path px src;
         path = (case strip_prefix ''/'' path_str of Some q \<Rightarrow> q | None \<Rightarrow> path_str)
     in rbind (map_err (\<lambda>e. AppInternal (''Failed to get current directory: '' @ e)) (px_current_dir px)) (\<lambda>_.
     if starts_with ''/'' path then Inr path
     else if starts_with ''mock://'' ctxt then Inr (join_path (mock_base (px_node_dir px) @ [path]))
     else rbind (px_url_join px ctxt path_str) (\<lambda>u.
       let p = px_url_path px u in
       Inr (case strip_prefix ''/'' p of Some q \<Rightarrow> q | None \<Rightarrow> p))))"

definition raw_executable :: "string \<Rightarrow> bool" where
  "raw_executable p = (case path_extension p of
      None \<Rightarrow> False
    | Some e \<Rightarrow> e \<in> {''js'', ''mjs'', ''cjs'', ''wasm'', ''zen'', ''zencode'', ''lua''})"

definition mock_envelope :: "bundle_ext \<Rightarrow> ('w, 'j) policy_ext \<Rightarrow> worker_bundle_payload \<Rightarrow> dsse_envelope" where
  "mock_envelope bx px p =
    \<lparr>dsse_payload = b64_encode bx (px_payload_json px p),
     dsse_payload_type = DSSE_WORKER_BUNDLE_PAYLOAD_TYPE,
     dsse_signatures = [\<lparr>key_id = Some ''mock_policy_key_id'',
       dsig = b64_encode bx (map (\<lambda>c. word_of_nat (of_char c))
         ''mock_policy_signature_bytes_longer_than_32_for_base64'')\<rparr>]\<rparr>"

definition wrap_executable :: "bundle_ext \<Rightarrow> ('w, 'j) policy_ext \<Rightarrow> string \<Rightarrow> bytes \<Rightarrow> bytes" where
  "wrap_executable bx px vm exe =
    px_envelope_json px (mock_envelope bx px \<lparr>wb_vm = vm, wb_executable = exe, wb_metadata = []\<rparr>)"

definition fetch_file_bundle ::
  "bundle_ext \<Rightarrow> ('w, 'j) policy_ext \<Rightarrow> policy_manager \<Rightarrow> string \<Rightarrow> string \<Rightarrow> ('w, bytes) io" where
  "fetch_file_bundle bx px pm src ctxt =
    io_bind (io_of (resolve_bundle_path px src ctxt)) (\<lambda>path.
    io_bind (io_map_err (\<lambda>e. AppIo (''Failed to read worker bundle file: '' @ e)) (px_read_file px path)) (\<lambda>content.
    if raw_executable path then
      io_bind (manifest_vm_hint bx px ctxt) (\<lambda>hint.
      let vm = (case hint of Some v \<Rightarrow> v
                | None \<Rightarrow> (case infer_vm_from_extension path of Some v \<Rightarrow> v | None \<Rightarrow> pm_default_vm_id pm))
      in io_ok (wrap_executable bx px vm content))
    else io_ok content))"

definition fetch_bundle_bytes ::
  "bundle_ext \<Rightarrow> ('w, 'j) policy_ext \<Rightarrow> policy_manager \<Rightarrow> string \<Rightarrow> string \<Rightarrow> ('w, bytes) io" where
  "fetch_bundle_bytes bx px pm src ctxt =
    (if px_url_scheme px src = ''file'' then fetch_file_bundle bx px pm src ctxt
     else if starts_with ''http'' (px_url_scheme px src) then
       io_bind (io_map_err (\<lambda>e. AppNetwork (''Failed to fetch worker bundle from '' @ src @ '': '' @ e))
           (px_http_get px src)) (\<lambda>r.
       if \<not> hr_success r
       then io_fail (AppNetwork (''Failed to fetch worker bundle from '' @ src @ '': Status '' @ hr_status r))
       else io_of (map_err (\<lambda>e. AppNetwork (''Failed to read bundle bytes from '' @ src @ '': '' @ e)) (hr_body r)))
     else if px_url_scheme px src = ''data'' then io_of (decode_data_url bx px src)
     else io_fail (AppService (''Unsupported bundle source scheme: '' @ px_url_scheme px src)))"

text \<open>The log line at the start slices the first twenty bytes of the URL and panics on a shorter one.\<close>

definition fetch_worker_bundle ::
  "bundle_ext \<Rightarrow> ('w, 'j) policy_ext \<Rightarrow> policy_manager \<Rightarrow> worker_bundle_pointer \<Rightarrow> string
     \<Rightarrow> ('w, worker_bundle) io" where
  "fetch_worker_bundle bx px pm ptr ctxt =
    (if length (wbp_source ptr) < 20 then io_fail AppPanic else
     io_bind (fetch_bundle_bytes bx px pm (wbp_source ptr) ctxt) (\<lambda>env.
     io_bind (case wbp_hash ptr of
         Some h \<Rightarrow> if sha512 bx env \<noteq> h
                  then io_fail (AppService (''WorkerBundle (DSSE envelope) hash mismatch for '' @ wbp_source ptr))
                  else io_ok ()
       | None \<Rightarrow> io_ok ()) (\<lambda>_.
     io_bind (io_of (map_err (\<lambda>_. AppValidation ''WorkerBundle payload is invalid'')
         (bundle_payload bx (WorkerBundle env)))) (\<lambda>_.
     io_ok (WorkerBundle env)))))"

definition get_policy ::
  "bundle_ext \<Rightarrow> ('w, 'p) web3_ext \<Rightarrow> ('w, 'j) policy_ext \<Rightarrow> policy_manager \<Rightarrow> secret_id
     \<Rightarrow> ('w, 'j full_policy_package) io" where
  "get_policy bx wx px pm sid =
    io_bind (get_policy_url wx (sid_chain sid) (identity_address sid) (identity_id sid)) (\<lambda>url.
    io_bind (fetch_worker_manifest bx px url) (\<lambda>m.
    if wm_identities m \<noteq> [] then io_fail (AppService ''Policy cannot request identities'') else
    io_bind (fetch_worker_bundle bx px pm (wm_bundle m) url) (\<lambda>b.
    io_ok \<lparr>fpp_manifest = m, fpp_bundle = b\<rparr>)))"

section \<open>Properties\<close>

lemma fetch_worker_bundle_ok:
  assumes "fetch_worker_bundle bx px pm ptr ctxt w = (Inr b, w')"
  shows "20 \<le> length (wbp_source ptr) \<and> (\<forall>h. wbp_hash ptr = Some h \<longrightarrow> sha512 bx (bundle_bytes b) = h)
    \<and> (\<exists>p. bundle_payload bx b = Inr p)
    \<and> fetch_bundle_bytes bx px pm (wbp_source ptr) ctxt w = (Inr (bundle_bytes b), w')"
  using assms
  by (auto simp: fetch_worker_bundle_def io_ok_iffs io_simps split: if_splits option.splits)
     (auto simp: map_err_def split: sum.splits)

lemma raw_executable_infers: "raw_executable p \<Longrightarrow> infer_vm_from_extension p \<noteq> None"
  by (auto simp: raw_executable_def infer_vm_from_extension_def ascii_lower_def Let_def split: option.splits)

lemma get_policy_ok:
  assumes "get_policy bx wx px pm sid w = (Inr pkg, w')"
  shows "wm_identities (fpp_manifest pkg) = []
    \<and> (\<exists>url w1. get_policy_url wx (sid_chain sid) (identity_address sid) (identity_id sid) w = (Inr url, w1)
        \<and> (\<exists>w2. fetch_worker_manifest bx px url w1 = (Inr (fpp_manifest pkg), w2)
            \<and> fetch_worker_bundle bx px pm (wm_bundle (fpp_manifest pkg)) url w2 = (Inr (fpp_bundle pkg), w')))"
  using assms by (fastforce simp: get_policy_def io_bind_ok_iff io_simps split: if_splits)

text \<open>Documented behaviour of the JSON and base64 libraries on an envelope the daemon writes.\<close>

definition wrapping_ok :: "bundle_ext \<Rightarrow> ('w, 'j) policy_ext \<Rightarrow> worker_bundle_payload \<Rightarrow> bool" where
  "wrapping_ok bx px p \<longleftrightarrow> b64_decode bx (b64_encode bx (px_payload_json px p)) = Inr (px_payload_json px p)
     \<and> envelope_from_json bx (px_envelope_json px (mock_envelope bx px p)) = Inr (mock_envelope bx px p)
     \<and> payload_from_json bx (px_payload_json px p) = Inr p"

definition sample_policy_ext :: "bool \<Rightarrow> (nat, unit) policy_ext" where
  "sample_policy_ext reachable = \<lparr>
     px_manifest_json = (\<lambda>b. Inr \<lparr>wm_bundle = \<lparr>wbp_source = ''https://example.com/bundle'', wbp_hash = None\<rparr>,
        wm_identities = [], wm_userdata = Map.empty\<rparr>),
     px_json_text_field = (\<lambda>_ _. None),
     px_envelope_json = (\<lambda>_. [1]), px_payload_json = (\<lambda>_. [2]), px_percent_decode = (\<lambda>_. [3]),
     px_http_get = (\<lambda>u w. (if reachable then Inr \<lparr>hr_success = True, hr_status = ''200'', hr_body = Inr [1]\<rparr>
        else Inl ''down'', w)),
     px_read_file = (\<lambda>_ w. (Inr [7], w)), px_current_dir = Inr (), px_node_dir = [''srv'', ''node''],
     px_url_ok = (\<lambda>_. True), px_url_scheme = (\<lambda>u. if u = ''file:///policy/worker.js'' then ''file'' else ''https''),
     px_url_path = (\<lambda>_. ''/policy/worker.js''), px_url_join = (\<lambda>_ p. Inr p)\<rparr>"

definition sample_bx :: bundle_ext where
  "sample_bx = \<lparr>
     envelope_from_json = (\<lambda>_. Inr \<lparr>dsse_payload = ''p'', dsse_payload_type = DSSE_WORKER_BUNDLE_PAYLOAD_TYPE,
        dsse_signatures = [\<lparr>key_id = None, dsig = ''s''\<rparr>]\<rparr>),
     payload_from_json = (\<lambda>_. Inr \<lparr>wb_vm = ''vm'', wb_executable = [9], wb_metadata = []\<rparr>),
     payload_to_json = (\<lambda>_. Inr [2]), b64_encode = (\<lambda>_. ''p''), b64_decode = (\<lambda>_. Inr [2]),
     sha512 = (\<lambda>b. b)\<rparr>"

text \<open>
  C23: What a policy package is known to satisfy: the manifest is the one behind the identity's policy
  URL and requests no identities; its bundle has the hash that the manifest's pointer gives, when it
  gives one, and an envelope of the worker bundle type with a readable payload.
\<close>

theorem policy_package_checked:
  assumes "get_policy bx wx px pm sid w = (Inr pkg, w')"
  shows "wm_identities (fpp_manifest pkg) = []
    \<and> (\<forall>h. wbp_hash (wm_bundle (fpp_manifest pkg)) = Some h \<longrightarrow> sha512 bx (bundle_bytes (fpp_bundle pkg)) = h)
    \<and> (\<exists>p. bundle_payload bx (fpp_bundle pkg) = Inr p)
    \<and> (\<exists>url w1 w2. get_policy_url wx (sid_chain sid) (identity_address sid) (identity_id sid) w = (Inr url, w1)
         \<and> fetch_worker_manifest bx px url w1 = (Inr (fpp_manifest pkg), w2))"
proof -
  from get_policy_ok [OF assms] obtain url w1 w2 where m: "wm_identities (fpp_manifest pkg) = []"
      "get_policy_url wx (sid_chain sid) (identity_address sid) (identity_id sid) w = (Inr url, w1)"
      "fetch_worker_manifest bx px url w1 = (Inr (fpp_manifest pkg), w2)"
      "fetch_worker_bundle bx px pm (wm_bundle (fpp_manifest pkg)) url w2 = (Inr (fpp_bundle pkg), w')"
    by blast
  from fetch_worker_bundle_ok [OF m(4)] m show ?thesis by blast
qed

lemma sample_get_policy:
  "get_policy sample_bx sample_web3_ext (sample_policy_ext True) \<lparr>pm_default_vm_id = ''vm''\<rparr>
      (SecretId (ChainId 5) [] 1) 0
    = (Inr \<lparr>fpp_manifest = \<lparr>wm_bundle = \<lparr>wbp_source = ''https://example.com/bundle'', wbp_hash = None\<rparr>,
        wm_identities = [], wm_userdata = Map.empty\<rparr>, fpp_bundle = WorkerBundle [1]\<rparr>, 0)"
  by (simp add: get_policy_def get_policy_url_def get_rpc_urls_for_chain_id_def sample_web3_ext_def
      io_bind_def io_map_err_def io_simps starts_with_def fetch_worker_manifest_def decode_data_url_def
      strip_prefix_def sample_policy_ext_def sample_bx_def fetch_worker_bundle_def fetch_bundle_bytes_def
      bundle_payload_def bundle_envelope_def ends_with_def)

theorem policy_package_checked_witness:
  "\<exists>p. bundle_payload sample_bx (WorkerBundle [1]) = Inr p"
  using policy_package_checked [OF sample_get_policy] by simp

text \<open>
  Data URLs: bytes that are written as a base64 data URL, whatever the media type, are read back,
  and a bundle whose source is such a URL is these bytes, when they are a worker bundle and the
  pointer has no other hash.
\<close>

theorem data_url_round_trip:
  assumes "b64_decode bx (b64_encode bx b) = Inr b" "CHR '','' \<notin> set media"
    and "src = ''data:'' @ media @ '';base64,'' @ b64_encode bx b"
  shows "decode_data_url bx px src = Inr b
    \<and> (px_url_scheme px src = ''data'' \<and> 20 \<le> length src \<and> bundle_payload bx (WorkerBundle b) = Inr p
       \<longrightarrow> fetch_worker_bundle bx px pm \<lparr>wbp_source = src, wbp_hash = None\<rparr> ctxt w
         = (Inr (WorkerBundle b), w))"
proof -
  let ?rest = "media @ '';base64,'' @ b64_encode bx b"
  have "split_once CHR '','' ((media @ '';base64'') @ CHR '','' # b64_encode bx b)
      = Some (media @ '';base64'', b64_encode bx b)"
    by (rule split_once_append) (simp add: assms(2))
  then have "split_once CHR '','' ?rest = Some (media @ '';base64'', b64_encode bx b)" by simp
  then have d: "decode_data_url bx px src = Inr b"
    unfolding decode_data_url_def assms(3) strip_prefix_append
    using ends_with_append [of "'';base64''" media] by (simp add: assms(1))
  then show ?thesis
    by (simp add: fetch_worker_bundle_def fetch_bundle_bytes_def starts_with_def io_bind_def io_simps)
qed

theorem data_url_round_trip_witness:
  "decode_data_url sample_bx (sample_policy_ext True) ''data:text/plain;base64,p'' = Inr [2]"
  using data_url_round_trip [of sample_bx "[2]" "''text/plain''" "''data:text/plain;base64,p''"
      "sample_policy_ext True"] by (simp add: sample_bx_def)

text \<open>
  A local file with the extension of an executable is wrapped, and what the bundle then says is
  the file's content and a virtual machine: the one named by the manifest, or else the one of the
  extension. The configured default is never used.
\<close>

theorem wrapped_executable:
  assumes "resolve_bundle_path px src ctxt = Inr path" "raw_executable path"
    and "px_read_file px path w = (Inr content, w1)"
    and "manifest_vm_hint bx px ctxt w1 = (Inr hint, w')"
  shows "\<exists>vm. (hint = Some vm \<or> hint = None \<and> infer_vm_from_extension path = Some vm)
    \<and> fetch_file_bundle bx px pm src ctxt w = (Inr (wrap_executable bx px vm content), w')
    \<and> (wrapping_ok bx px \<lparr>wb_vm = vm, wb_executable = content, wb_metadata = []\<rparr> \<longrightarrow>
         bundle_payload bx (WorkerBundle (wrap_executable bx px vm content))
           = Inr \<lparr>wb_vm = vm, wb_executable = content, wb_metadata = []\<rparr>)"
proof -
  obtain inferred where inf: "infer_vm_from_extension path = Some inferred"
    using raw_executable_infers [OF assms(2)] by blast
  let ?vm = "case hint of Some v \<Rightarrow> v | None \<Rightarrow> inferred"
  have "fetch_file_bundle bx px pm src ctxt w = (Inr (wrap_executable bx px ?vm content), w')"
    by (cases hint) (simp_all add: fetch_file_bundle_def io_bind_def io_map_err_def io_simps assms inf)
  moreover have "hint = Some ?vm \<or> hint = None \<and> infer_vm_from_extension path = Some ?vm"
    using inf by (cases hint) auto
  moreover have "bundle_payload bx (WorkerBundle (wrap_executable bx px vm content))
      = Inr \<lparr>wb_vm = vm, wb_executable = content, wb_metadata = []\<rparr>"
    if "wrapping_ok bx px \<lparr>wb_vm = vm, wb_executable = content, wb_metadata = []\<rparr>" for vm
    using that by (simp add: wrapping_ok_def wrap_executable_def bundle_payload_def bundle_envelope_def
        mock_envelope_def)
  ultimately show ?thesis by blast
qed

definition js_bx :: bundle_ext where
  "js_bx = sample_bx\<lparr>payload_from_json := (\<lambda>_. Inr \<lparr>wb_vm = ''nxcc/workerd'', wb_executable = [7], wb_metadata = []\<rparr>),
     envelope_from_json := (\<lambda>_. Inr (mock_envelope sample_bx (sample_policy_ext True)
       \<lparr>wb_vm = ''nxcc/workerd'', wb_executable = [7], wb_metadata = []\<rparr>))\<rparr>"

theorem wrapped_executable_witness:
  "fetch_file_bundle js_bx (sample_policy_ext True) \<lparr>pm_default_vm_id = ''other''\<rparr>
     ''file:///policy/worker.js'' ''mock://policy'' 0
   = (Inr (wrap_executable js_bx (sample_policy_ext True) ''nxcc/workerd'' [7]), 0)
   \<and> bundle_payload js_bx (WorkerBundle (wrap_executable js_bx (sample_policy_ext True) ''nxcc/workerd'' [7]))
     = Inr \<lparr>wb_vm = ''nxcc/workerd'', wb_executable = [7], wb_metadata = []\<rparr>"
proof -
  let ?px = "sample_policy_ext True" and ?path = "''srv/node/policy/worker.js''"
  have vm: "infer_vm_from_extension ?path = Some ''nxcc/workerd''" by code_simp
  have "resolve_bundle_path ?px ''file:///policy/worker.js'' ''mock://policy'' = Inr ?path"
    by (simp add: resolve_bundle_path_def sample_policy_ext_def strip_prefix_def starts_with_def
        mock_base_def Let_def)
  moreover have "raw_executable ?path" by code_simp
  moreover have "px_read_file ?px ?path 0 = (Inr [7], 0)" by (simp add: sample_policy_ext_def)
  moreover have "manifest_vm_hint js_bx ?px ''mock://policy'' 0 = (Inr None, 0)"
    by (simp add: extract_vm_from_manifest_bytes_def manifest_vm_hint_def sample_policy_ext_def starts_with_def io_try_def io_simps)
  ultimately have "\<exists>vm. infer_vm_from_extension ?path = Some vm
    \<and> fetch_file_bundle js_bx ?px \<lparr>pm_default_vm_id = ''other''\<rparr> ''file:///policy/worker.js'' ''mock://policy'' 0
        = (Inr (wrap_executable js_bx ?px vm [7]), 0)
    \<and> (wrapping_ok js_bx ?px \<lparr>wb_vm = vm, wb_executable = [7], wb_metadata = []\<rparr> \<longrightarrow>
         bundle_payload js_bx (WorkerBundle (wrap_executable js_bx ?px vm [7]))
           = Inr \<lparr>wb_vm = vm, wb_executable = [7], wb_metadata = []\<rparr>)"
    using wrapped_executable by fastforce
  moreover have "wrapping_ok js_bx ?px \<lparr>wb_vm = ''nxcc/workerd'', wb_executable = [7], wb_metadata = []\<rparr>"
    by (simp add: wrapping_ok_def js_bx_def sample_bx_def sample_policy_ext_def mock_envelope_def)
  ultimately show ?thesis using vm by auto
qed

text \<open>
  A bundle URL of fewer than twenty bytes never gives a bundle or an error: the log line panics
  before anything else, also for a data URL with a readable worker bundle.
\<close>

theorem short_bundle_url_panics:
  assumes "length (wbp_source ptr) < 20"
  shows "fetch_worker_bundle bx px pm ptr ctxt w = (Inl AppPanic, w)"
  using assms by (simp add: fetch_worker_bundle_def io_simps)

theorem short_bundle_url_panics_witness:
  "fetch_worker_bundle sample_bx (sample_policy_ext True) \<lparr>pm_default_vm_id = ''vm''\<rparr>
     \<lparr>wbp_source = ''data:;base64,p'', wbp_hash = None\<rparr> ''data:,x'' 0 = (Inl AppPanic, 0)"
  by (rule short_bundle_url_panics) simp

end
