(* ===== verification/Operator_Signature.thy ===== *)
theory Operator_Signature
  imports Interface_Types
begin

text \<open>
  The operator's signature over attestation evidence
  (\<open>src/node/interface/src/types/attestation.rs\<close>, \<open>OperatorSignature\<close>): making it, verifying it and
  reading its key. Ed25519 and CBOR are the fields of \<open>operator_ext\<close>. A \<open>BTreeMap\<close> of CBOR values is
  a finite map, written as its entries in the order of the keys.
\<close>

section \<open>Making and verifying\<close>

datatype cbor_value = CborText string | CborBytes bytes | CborOther

record operator_ext =
  ox_public_key :: "bytes \<Rightarrow> bytes"
  ox_sign :: "bytes \<Rightarrow> bytes \<Rightarrow> bytes"
  ox_key_valid :: "bytes \<Rightarrow> string + unit"
  ox_verify :: "bytes \<Rightarrow> bytes \<Rightarrow> bytes \<Rightarrow> string + unit"
  ox_write_cbor :: "(string \<times> cbor_value) list \<Rightarrow> string + bytes"
  ox_read_cbor :: "bytes \<Rightarrow> string + (string \<rightharpoonup> cbor_value)"

definition signature_entries :: "operator_ext \<Rightarrow> bytes \<Rightarrow> bytes \<Rightarrow> (string \<times> cbor_value) list" where
  "signature_entries ox key ev =
    [(''alg'', CborText ''EdDSA''), (''key'', CborBytes (ox_public_key ox key)),
     (''sig'', CborBytes (ox_sign ox key ev))]"

definition operator_signature_new ::
  "operator_ext \<Rightarrow> bytes \<Rightarrow> raw_attestation \<Rightarrow> string + operator_signature" where
  "operator_signature_new ox key raw =
    (if length key \<noteq> 32 then Inl ''Ed25519 signing key must be 32 bytes'' else
     rbind (map_err (\<lambda>e. ''Failed to serialize signature data: '' @ e)
       (ox_write_cbor ox (signature_entries ox key (evidence raw)))) (\<lambda>b.
     Inr (OperatorSignature b)))"

fun text_field :: "(string \<rightharpoonup> cbor_value) \<Rightarrow> string \<Rightarrow> string option" where
  "text_field m k = (case m k of Some (CborText t) \<Rightarrow> Some t | _ \<Rightarrow> None)"

fun bytes_field :: "(string \<rightharpoonup> cbor_value) \<Rightarrow> string \<Rightarrow> bytes option" where
  "bytes_field m k = (case m k of Some (CborBytes b) \<Rightarrow> Some b | _ \<Rightarrow> None)"

definition operator_signature_verify ::
  "operator_ext \<Rightarrow> operator_signature \<Rightarrow> raw_attestation \<Rightarrow> string + unit" where
  "operator_signature_verify ox s raw =
    rbind (map_err (\<lambda>e. ''Failed to parse signature data: '' @ e) (ox_read_cbor ox (cose_sign1 s))) (\<lambda>m.
    rbind (ok_or ''Missing or invalid algorithm'' (text_field m ''alg'')) (\<lambda>alg.
    if alg \<noteq> ''EdDSA'' then Inl (''Unsupported algorithm: '' @ alg) else
    rbind (ok_or ''Missing or invalid signature'' (bytes_field m ''sig'')) (\<lambda>sig.
    rbind (ok_or ''Missing or invalid public key'' (bytes_field m ''key'')) (\<lambda>key.
    if length key \<noteq> 32 then Inl ''Ed25519 public key must be 32 bytes''
    else if length sig \<noteq> 64 then Inl ''Ed25519 signature must be 64 bytes''
    else rbind (map_err (\<lambda>e. ''Invalid Ed25519 public key: '' @ e) (ox_key_valid ox key)) (\<lambda>_.
    map_err (\<lambda>e. ''Signature verification failed: '' @ e) (ox_verify ox key (evidence raw) sig))))))"

definition extract_public_key :: "operator_ext \<Rightarrow> operator_signature \<Rightarrow> string + bytes" where
  "extract_public_key ox s =
    rbind (map_err (\<lambda>e. ''Failed to parse signature data: '' @ e) (ox_read_cbor ox (cose_sign1 s))) (\<lambda>m.
    ok_or ''Missing or invalid public key'' (bytes_field m ''key''))"

section \<open>Properties\<close>

text \<open>
  Documented behaviour of Ed25519 and of the CBOR library for one key and one message: lengths, a
  signature verifies under its public key, and what is written is read back.
\<close>

definition operator_ext_correct :: "operator_ext \<Rightarrow> bytes \<Rightarrow> bytes \<Rightarrow> bool" where
  "operator_ext_correct ox k m \<longleftrightarrow>
     length (ox_public_key ox k) = 32 \<and> length (ox_sign ox k m) = 64
   \<and> ox_key_valid ox (ox_public_key ox k) = Inr () \<and> ox_verify ox (ox_public_key ox k) m (ox_sign ox k m) = Inr ()
   \<and> rbind (ox_write_cbor ox (signature_entries ox k m)) (ox_read_cbor ox) = Inr (map_of (signature_entries ox k m))"

lemma verify_ok_iff:
  "operator_signature_verify ox s raw = Inr () \<longleftrightarrow>
    (\<exists>m sig key. ox_read_cbor ox (cose_sign1 s) = Inr m \<and> m ''alg'' = Some (CborText ''EdDSA'')
      \<and> m ''sig'' = Some (CborBytes sig) \<and> m ''key'' = Some (CborBytes key)
      \<and> length key = 32 \<and> length sig = 64 \<and> ox_key_valid ox key = Inr ()
      \<and> ox_verify ox key (evidence raw) sig = Inr ())"
  by (auto simp: operator_signature_verify_def rbind_def map_err_def ok_or_def
      split: sum.splits option.splits cbor_value.splits if_splits)

lemma extract_ok_iff:
  "extract_public_key ox s = Inr key \<longleftrightarrow>
    (\<exists>m. ox_read_cbor ox (cose_sign1 s) = Inr m \<and> m ''key'' = Some (CborBytes key))"
  by (auto simp: extract_public_key_def rbind_def map_err_def ok_or_def
      split: sum.splits option.splits cbor_value.splits)

definition sample_operator_ext :: operator_ext where
  "sample_operator_ext = \<lparr>ox_public_key = (\<lambda>k. k), ox_sign = (\<lambda>k m. k @ k), ox_key_valid = (\<lambda>_. Inr ()),
     ox_verify = (\<lambda>k m s. if s = k @ k then Inr () else Inl ''bad''),
     ox_write_cbor = (\<lambda>es. case es of [_, (_, CborBytes k), _] \<Rightarrow> Inr k | _ \<Rightarrow> Inl ''unsupported''),
     ox_read_cbor = (\<lambda>b. Inr [''alg'' \<mapsto> CborText ''EdDSA'', ''key'' \<mapsto> CborBytes b, ''sig'' \<mapsto> CborBytes (b @ b)])\<rparr>"

text \<open>
  The operator's signature: a 32-byte key signs every attestation, the signature carries the public
  key and verifies for the signed evidence, whatever platform and certificates are beside it; a key
  of another length is refused. Conversely an accepted signature carries a public key of 32 bytes
  under which its 64 signature bytes verify for the evidence.
\<close>

theorem operator_signature_round_trip:
  assumes "operator_ext_correct ox key (evidence raw)"
  shows "(case operator_signature_new ox key raw of
        Inr s \<Rightarrow> length key = 32 \<and> extract_public_key ox s = Inr (ox_public_key ox key)
          \<and> operator_signature_verify ox s (raw\<lparr>platform_type := p, certificates := c\<rparr>) = Inr ()
      | Inl e \<Rightarrow> length key \<noteq> 32)
    \<and> (operator_signature_verify ox s' raw' = Inr () \<longrightarrow>
        (\<exists>k sig. extract_public_key ox s' = Inr k \<and> length k = 32 \<and> length sig = 64
           \<and> ox_verify ox k (evidence raw') sig = Inr ()))"
proof (rule conjI)
  let ?es = "signature_entries ox key (evidence raw)"
  from assms obtain b where b: "ox_write_cbor ox ?es = Inr b" "ox_read_cbor ox b = Inr (map_of ?es)"
    unfolding operator_ext_correct_def by (cases "ox_write_cbor ox ?es") auto
  have m: "map_of ?es ''alg'' = Some (CborText ''EdDSA'')"
    "map_of ?es ''key'' = Some (CborBytes (ox_public_key ox key))"
    "map_of ?es ''sig'' = Some (CborBytes (ox_sign ox key (evidence raw)))"
    by (simp_all add: signature_entries_def)
  show "case operator_signature_new ox key raw of
        Inr s \<Rightarrow> length key = 32 \<and> extract_public_key ox s = Inr (ox_public_key ox key)
          \<and> operator_signature_verify ox s (raw\<lparr>platform_type := p, certificates := c\<rparr>) = Inr ()
      | Inl e \<Rightarrow> length key \<noteq> 32"
    using assms b m unfolding operator_ext_correct_def
    by (simp add: operator_signature_new_def verify_ok_iff extract_ok_iff)
qed (auto simp: verify_ok_iff extract_ok_iff)

theorem operator_signature_round_trip_witness:
  "operator_signature_verify sample_operator_ext (OperatorSignature (replicate 32 1))
     \<lparr>platform_type = ''any'', evidence = [7], certificates = None\<rparr> = Inr ()"
proof -
  have "operator_ext_correct sample_operator_ext (replicate 32 1)
      (evidence \<lparr>platform_type = ''tdx'', evidence = [7], certificates = None\<rparr>)"
    by (simp add: operator_ext_correct_def sample_operator_ext_def signature_entries_def fun_eq_iff)
  from operator_signature_round_trip [OF this, where p = "''any''" and c = None] show ?thesis
    by (simp add: operator_signature_new_def sample_operator_ext_def signature_entries_def)
qed

end
