(* ===== verification/Daemon_Runner.thy ===== *)
theory Daemon_Runner
  imports Enclave_Client Daemon_Policy Operator_Signature
begin

text \<open>
  The daemon's runner service (\<open>src/node/daemon/src/services/runner.rs\<close>), the VM registry it keeps
  (\<open>src/node/daemon/src/http_server.rs\<close>) and the daemon's own environment report
  (\<open>get_own_env_report\<close> of \<open>services/secrets.rs\<close>).

  The world \<open>'w\<close> holds the enclave behind \<open>dx_rpc\<close> and everything the policy manager reads. A service
  with a state of its own works on the pair of its state and the world.
\<close>

section \<open>Environment\<close>

record vm_attachment =
  va_vm_id :: string
  va_uds_path :: string

record enclave_config =
  ec_default_vm_id :: string
  ec_default_vm_uds_path :: string
  ec_vm_attachments :: "vm_attachment list"

record ('w, 'j, 'p) daemon_ext =
  dx_rpc :: "'w enclave_rpc"
  dx_bundle :: bundle_ext
  dx_web3 :: "('w, 'p) web3_ext"
  dx_policy :: "('w, 'j) policy_ext"
  dx_operator :: operator_ext
  dx_manifest_to_json :: "'j worker_manifest \<Rightarrow> string + bytes"
  dx_nanos :: "'w \<Rightarrow> string"
  dx_now :: "'w \<Rightarrow> app_error + u64"
  dx_enclave :: enclave_config
  dx_operator_key_path :: "string option"

text \<open>A call on the world inside a service, a change of the service's state, and a look at the clock.\<close>

definition on_world :: "('w, 'e, 'a) call \<Rightarrow> ('s \<times> 'w, 'e, 'a) call" where
  "on_world m sw = (case sw of (s, w) \<Rightarrow> case m w of (r, w') \<Rightarrow> (r, (s, w')))"

definition on_state :: "('s \<Rightarrow> 's) \<Rightarrow> ('s \<times> 'w, 'e, unit) call" where
  "on_state f sw = (case sw of (s, w) \<Rightarrow> (Inr (), (f s, w)))"

definition io_read :: "('w \<Rightarrow> 'a) \<Rightarrow> ('w, 'e, 'a) call" where
  "io_read f w = (Inr (f w), w)"

lemma on_world_eq [io_simps]: "m w = (r, w') \<Longrightarrow> on_world m (s, w) = (r, (s, w'))"
  by (simp add: on_world_def)

lemma on_world_iff: "on_world m (s, w) = (r, sw') \<longleftrightarrow> (\<exists>w'. m w = (r, w') \<and> sw' = (s, w'))"
  by (auto simp: on_world_def split: prod.splits)

section \<open>Configured attachments\<close>

text \<open>\<open>VmAttachment::from_str\<close>; \<open>str::trim\<close> removes white space at both ends.\<close>

definition vm_attachment_from_str :: "(char \<Rightarrow> bool) \<Rightarrow> string \<Rightarrow> string + vm_attachment" where
  "vm_attachment_from_str ws v =
    rbind (ok_or ''expected format vm_id=uds_path'' (split_once CHR ''='' v)) (\<lambda>(vm_id, uds_path).
    if trim_text ws vm_id = [] \<or> trim_text ws uds_path = [] then Inl ''vm_id and uds_path must be non-empty''
    else Inr \<lparr>va_vm_id = trim_text ws vm_id, va_uds_path = trim_text ws uds_path\<rparr>)"

section \<open>VM registry and attaching\<close>

type_synonym vm_registry = "string set"

definition add_vm :: "string \<Rightarrow> vm_registry \<Rightarrow> vm_registry" where
  "add_vm vm_id reg = insert vm_id reg"

definition remove_vm :: "string \<Rightarrow> vm_registry \<Rightarrow> vm_registry" where
  "remove_vm vm_id reg = reg - {vm_id}"

definition has_vm :: "string \<Rightarrow> vm_registry \<Rightarrow> bool" where
  "has_vm vm_id reg \<longleftrightarrow> vm_id \<in> reg"

definition service_attach_vm ::
  "('w, 'j, 'p) daemon_ext \<Rightarrow> string \<Rightarrow> string \<Rightarrow> (vm_registry \<times> 'w, bool) io" where
  "service_attach_vm dx vm_id path =
    io_bind (on_world (io_map_err (\<lambda>e. AppService (''Failed to attach VM: '' @ rpc_status_text (dx_rpc dx) e))
        (rpc_attach_vm (dx_rpc dx) vm_id (Some \<lparr>address_type = Some (PUds \<lparr>puds_path = path\<rparr>)\<rparr>)))) (\<lambda>attached.
    if attached then io_bind (on_state (add_vm vm_id)) (\<lambda>_. io_ok True) else io_ok False)"

definition attach_default_vm :: "('w, 'j, 'p) daemon_ext \<Rightarrow> (vm_registry \<times> 'w, bool) io" where
  "attach_default_vm dx =
    service_attach_vm dx (ec_default_vm_id (dx_enclave dx)) (ec_default_vm_uds_path (dx_enclave dx))"

definition startup_attachments :: "enclave_config \<Rightarrow> vm_attachment list" where
  "startup_attachments ec =
    (let default = \<lparr>va_vm_id = ec_default_vm_id ec, va_uds_path = ec_default_vm_uds_path ec\<rparr>;
         as = (if ec_vm_attachments ec = [] then [default] else ec_vm_attachments ec)
     in if \<exists>a \<in> set as. va_vm_id a = ec_default_vm_id ec then as else as @ [default])"

fun attach_all ::
  "('w, 'j, 'p) daemon_ext \<Rightarrow> vm_attachment list \<Rightarrow> (vm_registry \<times> 'w, string list) io" where
  "attach_all dx [] = io_ok []"
| "attach_all dx (a # as) =
    io_bind (service_attach_vm dx (va_vm_id a) (va_uds_path a)) (\<lambda>ok.
    io_bind (attach_all dx as) (\<lambda>ids. io_ok (if ok then va_vm_id a # ids else ids)))"

definition attach_configured_vms :: "('w, 'j, 'p) daemon_ext \<Rightarrow> (vm_registry \<times> 'w, string list) io" where
  "attach_configured_vms dx = attach_all dx (startup_attachments (dx_enclave dx))"

section \<open>Policy checks\<close>

definition run_worker_in_default_vm ::
  "('w, 'j, 'p) daemon_ext \<Rightarrow> 'j worker_manifest \<Rightarrow> worker_bundle \<Rightarrow> string option \<Rightarrow> ('w, string) io" where
  "run_worker_in_default_vm dx manifest bundle worker_id =
    (case dx_manifest_to_json dx manifest of Inl _ \<Rightarrow> io_fail AppPanic | Inr manifest_bytes \<Rightarrow>
    io_bind (case worker_id of Some i \<Rightarrow> io_ok i
             | None \<Rightarrow> io_bind (io_read (dx_nanos dx)) (\<lambda>t. io_ok (''policy-worker-'' @ t))) (\<lambda>worker_id.
    io_bind (io_map_err (\<lambda>e. AppService (''Enclave run_worker failed: '' @ rpc_status_text (dx_rpc dx) e))
        (rpc_run_worker (dx_rpc dx) worker_id (ec_default_vm_id (dx_enclave dx)) manifest_bytes
          (bundle_bytes bundle))) (\<lambda>r.
    if rw_success r then io_ok (rw_worker_id r)
    else io_fail (AppService (''Enclave runner failed to start worker in default VM: '' @ rw_error_message r)))))"

definition service_execute_policy ::
  "('w, 'j, 'p) daemon_ext \<Rightarrow> string \<Rightarrow> policy_execution_request list
     \<Rightarrow> ('w, policy_execution_request list) io" where
  "service_execute_policy dx worker_id cs =
    io_bind (io_map_err (\<lambda>e. AppService (''Enclave execute_policy failed: '' @ rpc_status_text (dx_rpc dx) e))
        (rpc_execute_policy (dx_rpc dx) worker_id (map (policy_request_to_proto (rpc_text (dx_rpc dx))) cs))) (\<lambda>ps.
    io_of (collect (\<lambda>p. map_err (\<lambda>e. AppService (''Invalid policy execution request from enclave: ''
        @ rpc_conversion_text (dx_rpc dx) e)) (policy_request_of_proto (rpc_text (dx_rpc dx)) p)) ps))"

definition service_terminate_worker :: "('w, 'j, 'p) daemon_ext \<Rightarrow> string \<Rightarrow> ('w, unit) io" where
  "service_terminate_worker dx worker_id =
    io_map_err (\<lambda>e. AppService (''Enclave terminate_worker failed: '' @ rpc_status_text (dx_rpc dx) e))
      (rpc_terminate_worker (dx_rpc dx) worker_id)"

text \<open>The worker is terminated whatever the execution returned, and a failure to terminate it is dropped.\<close>

definition check_policy_for_env ::
  "('w, 'j, 'p) daemon_ext \<Rightarrow> 'j full_policy_package \<Rightarrow> env_report \<Rightarrow> secret_id \<Rightarrow> consumer_info
     \<Rightarrow> ('w, bool) io" where
  "check_policy_for_env dx pkg er sid ci =
    io_bind (run_worker_in_default_vm dx (fpp_manifest pkg) (fpp_bundle pkg) None) (\<lambda>worker_id.
    io_try (service_execute_policy dx worker_id
        [\<lparr>per_secret_ids = [sid], per_consumer = ci, per_env_report = er, per_claims = None\<rparr>]) (\<lambda>r.
    io_try (service_terminate_worker dx worker_id) (\<lambda>_.
    io_of (rbind r (\<lambda>sat. Inr (sat \<noteq> []))))))"

section \<open>The daemon's environment report\<close>

definition create_operator_signature ::
  "('w, 'j, 'p) daemon_ext \<Rightarrow> string \<Rightarrow> attestation_bundle \<Rightarrow> ('w, string, operator_signature) call" where
  "create_operator_signature dx path b =
    io_bind (io_map_err (\<lambda>e. ''Failed to read signing key from '' @ path @ '': '' @ e)
        (px_read_file (dx_policy dx) path)) (\<lambda>key.
    if length key \<noteq> 32 then io_fail ''Signing key must be exactly 32 bytes''
    else io_of (map_err (\<lambda>e. ''Failed to create operator signature: '' @ e)
      (operator_signature_new (dx_operator dx) key (ab_raw b))))"

definition get_own_env_report :: "('w, 'j, 'p) daemon_ext \<Rightarrow> ('w, env_report) io" where
  "get_own_env_report dx =
    io_bind (io_map_err (\<lambda>e. AppService (''Failed to get attestation report: '' @ e))
        (client_get_report (dx_rpc dx))) (\<lambda>b.
    (case dx_operator_key_path dx of
       None \<Rightarrow> io_ok \<lparr>er_attestation = b, er_operator_signature = None\<rparr>
     | Some path \<Rightarrow> io_try (create_operator_signature dx path b) (\<lambda>r.
         io_ok \<lparr>er_attestation = b,
           er_operator_signature = (case r of Inr s \<Rightarrow> Some s | Inl _ \<Rightarrow> None)\<rparr>)))"

section \<open>Policy checks against the enclave\<close>

text \<open>The daemon is connected to an enclave whose \<open>k\<close>-th call runs under \<open>E k\<close>.\<close>

definition served_by ::
  "(nat \<times> 'v runner, 'j, 'p) daemon_ext \<Rightarrow> (grpc_status \<Rightarrow> string) \<Rightarrow> (conversion_error \<Rightarrow> string) \<Rightarrow> text_ext
     \<Rightarrow> (nat \<Rightarrow> ('j, 'v) enclave_env) \<Rightarrow> bool" where
  "served_by dx st ct tx E \<longleftrightarrow> dx_rpc dx = grpc_service st ct tx E \<and> (\<forall>k. ee_text (E k) = tx)"

lemma run_worker_secrets:
  "run_worker rx bx ax ops now own i v m b s = (s', r) \<Longrightarrow> r_secrets s' = r_secrets s"
  by (auto simp: run_worker_def Let_def call_vm_frame split: sum.splits prod.splits)

lemma terminate_worker_secrets:
  "terminate_worker ops now i s = (s', r) \<Longrightarrow> r_secrets s' = r_secrets s"
  by (auto simp: terminate_worker_def bury_worker_def call_vm_frame
      split: sum.splits prod.splits client_error.splits)

lemma service_run_worker_frame:
  assumes "served_by dx st ct tx E" "run_worker_in_default_vm dx m b i (k, s) = (r, (k', s'))"
  shows "r_secrets s' = r_secrets s" "r = Inr w \<Longrightarrow> k' = k + 1"
  using assms
  by (auto simp: run_worker_in_default_vm_def served_by_def io_bind_def io_map_err_def io_read_def
      at_tick_def grpc_run_worker_def io_simps map_err_def
      split: sum.splits option.splits prod.splits if_splits runner_error.splits dest: run_worker_secrets)

lemma service_terminate_frame:
  assumes "served_by dx st ct tx E" "service_terminate_worker dx i (k, s) = (r, (k', s'))"
  shows "r_secrets s' = r_secrets s"
  using assms
  by (auto simp: service_terminate_worker_def served_by_def io_map_err_def at_tick_def
      grpc_terminate_worker_def split: sum.splits prod.splits runner_error.splits dest: terminate_worker_secrets)

lemma service_execute_policy_eq:
  assumes "served_by dx st ct tx E" "list_all (policy_request_wf tx) cs"
    and "execute_policy (ee_rx (E k)) (ee_ax (E k)) (ee_ops (E k)) (ee_vfy (E k)) (ee_now (E k)) w cs s = (s', r)"
  shows "service_execute_policy dx w cs (k, s) = (case r of
      Inr sat \<Rightarrow> (Inr (map without_claims sat), (k + 1, s'))
    | Inl e \<Rightarrow> (Inl (AppService (''Enclave execute_policy failed: '' @ st (map_runner_error (E k) e))), (k + 1, s')))"
proof -
  have rpc: "dx_rpc dx = grpc_service st ct tx E" "ee_text (E k) = tx" using assms(1) by (auto simp: served_by_def)
  have dec: "collect (\<lambda>p. map_err f (policy_request_of_proto tx p)) (map (policy_request_to_proto tx) sat)
      = Inr (map without_claims sat)" if "r = Inr sat" for sat f
    using approved_dec_enc assms(2,3) that by blast
  show ?thesis
    by (cases r) (simp_all add: service_execute_policy_def rpc io_map_err_def at_tick_def grpc_execute_policy_def
        io_bind_def io_simps runner_call_def policy_requests_dec_enc [OF assms(2)] assms(3) dec)
qed

lemma check_policy_enclave:
  assumes sb: "served_by dx st ct tx E" and wf: "secret_id_wf tx sid" "env_report_wf er"
    and run: "check_policy_for_env dx pkg er sid ci (k, s) = (r, (k', s'))"
  shows "(r \<noteq> Inr True \<longrightarrow> r_secrets s' = r_secrets s)
    \<and> (r = Inr True \<longrightarrow> (\<exists>w c sat s1 s2.
        execute_policy (ee_rx (E (k + 1))) (ee_ax (E (k + 1))) (ee_ops (E (k + 1))) (ee_vfy (E (k + 1)))
          (ee_now (E (k + 1))) w
          [\<lparr>per_secret_ids = [sid], per_consumer = ci, per_env_report = er, per_claims = None\<rparr>] s1 = (s2, Inr sat)
        \<and> c \<in> set sat \<and> per_secret_ids c = [sid] \<and> per_consumer c = ci \<and> per_env_report c = er
        \<and> r_secrets s1 = r_secrets s \<and> r_secrets s' = r_secrets s2))"
proof -
  let ?c = "\<lparr>per_secret_ids = [sid], per_consumer = ci, per_env_report = er, per_claims = None\<rparr>"
  obtain r1 k1 s1 where r1: "run_worker_in_default_vm dx (fpp_manifest pkg) (fpp_bundle pkg) None (k, s) = (r1, (k1, s1))"
    by (metis surj_pair)
  note f1 = service_run_worker_frame [OF sb r1]
  show ?thesis
  proof (cases r1)
    case (Inl e)
    then show ?thesis using run r1 f1(1) by (auto simp: check_policy_for_env_def io_bind_def)
  next
    case (Inr w)
    with f1 have k1: "k1 = k + 1" and s1: "r_secrets s1 = r_secrets s" by simp_all
    obtain s2 x where x: "execute_policy (ee_rx (E k1)) (ee_ax (E k1)) (ee_ops (E k1)) (ee_vfy (E k1))
        (ee_now (E k1)) w [?c] s1 = (s2, x)" by fastforce
    have cwf: "list_all (policy_request_wf tx) [?c]" using wf by (simp add: policy_request_wf_def)
    note ex = service_execute_policy_eq [OF sb cwf x]
    obtain r3 k3 s3 where r3: "service_terminate_worker dx w (k1 + 1, s2) = (r3, (k3, s3))" by (metis surj_pair)
    note f3 = service_terminate_frame [OF sb r3]
    show ?thesis
    proof (cases x)
      case (Inl e)
      then show ?thesis using run r1 Inr ex r3 f3 s1 execute_policy_cases(2) [OF x Inl]
        by (auto simp: check_policy_for_env_def io_bind_def io_try_def io_of_def)
    next
      case sat: (Inr sat)
      then have res: "r = Inr (sat \<noteq> [])" "s' = s3" using run r1 Inr ex r3
        by (auto simp: check_policy_for_env_def io_bind_def io_try_def io_of_def)
      show ?thesis
      proof (cases sat)
        case Nil
        then show ?thesis using res f3 s1 execute_policy_cases(3) [OF x sat] by auto
      next
        case (Cons c cs)
        then have c: "c \<in> set sat" by simp
        from execute_policy_sub [OF x [unfolded sat] c] have "without_claims c = without_claims ?c" by simp
        then have "per_secret_ids c = [sid]" "per_consumer c = ci" "per_env_report c = er"
          by (cases c; simp add: without_claims_def)+
        with res c Cons x sat k1 s1 f3 show ?thesis by force
      qed
    qed
  qed
qed

section \<open>Attaching\<close>

lemma service_attach_frame:
  assumes "service_attach_vm dx v p (reg, w) = (r, (reg', w'))"
  shows "reg' = (if r = Inr True then insert v reg else reg)"
  using assms
  by (auto simp: service_attach_vm_def io_bind_def on_world_def on_state_def add_vm_def io_simps
      split: prod.splits sum.splits if_splits)

lemma attach_all_frame:
  "attach_all dx as (reg, w) = (r, (reg', w')) \<Longrightarrow>
    reg \<subseteq> reg' \<and> reg' \<subseteq> reg \<union> va_vm_id ` set as \<and> (\<forall>ids. r = Inr ids \<longrightarrow> reg' = reg \<union> set ids)"
proof (induction as arbitrary: reg w r reg' w')
  case (Cons a as)
  obtain r1 reg1 w1 where r1: "service_attach_vm dx (va_vm_id a) (va_uds_path a) (reg, w) = (r1, (reg1, w1))"
    by (metis surj_pair)
  note f1 = service_attach_frame [OF r1]
  show ?case
  proof (cases r1)
    case (Inl e)
    then show ?thesis using Cons.prems r1 f1 by (auto simp: io_bind_def)
  next
    case (Inr ok)
    obtain r2 reg2 w2 where r2: "attach_all dx as (reg1, w1) = (r2, (reg2, w2))" by (metis surj_pair)
    have "reg' = reg2" "\<forall>ids. r = Inr ids \<longrightarrow> (\<exists>ids'. r2 = Inr ids' \<and> ids = (if ok then va_vm_id a # ids' else ids'))"
      using Cons.prems r1 Inr r2 by (auto simp: io_bind_def io_ok_def split: sum.splits)
    with Cons.IH [OF r2] f1 Inr show ?thesis by (cases ok) auto
  qed
qed (auto simp: io_ok_def)

lemma default_attached: "ec_default_vm_id ec \<in> va_vm_id ` set (startup_attachments ec)"
  by (auto simp: startup_attachments_def Let_def image_iff eq_commute)

section \<open>Properties\<close>

definition sample_daemon :: "(nat \<times> unit runner, unit, unit) daemon_ext" where
  "sample_daemon = \<lparr>dx_rpc = sample_rpc, dx_bundle = sample_bx,
     dx_web3 = \<lparr>wx_rpcs = (\<lambda>_. Some [''wss://one'']), wx_url_parse = (\<lambda>_. Inr ()),
       wx_connect_ws = (\<lambda>u w. (Inr (), w)), wx_token_uri = (\<lambda>_ _ _ w. (Inr ''data:,policy'', w))\<rparr>,
     dx_policy = \<lparr>
       px_manifest_json = (\<lambda>b. Inr \<lparr>wm_bundle = \<lparr>wbp_source = ''https://example.com/bundle'', wbp_hash = None\<rparr>,
          wm_identities = [], wm_userdata = Map.empty\<rparr>),
       px_json_text_field = (\<lambda>_ _. None), px_envelope_json = (\<lambda>_. [1]), px_payload_json = (\<lambda>_. [2]),
       px_percent_decode = (\<lambda>_. [3]),
       px_http_get = (\<lambda>u w. (Inr \<lparr>hr_success = True, hr_status = ''200'', hr_body = Inr [1]\<rparr>, w)),
       px_read_file = (\<lambda>_ w. (Inr [7], w)), px_current_dir = Inr (), px_node_dir = [''srv'', ''node''],
       px_url_ok = (\<lambda>_. True), px_url_scheme = (\<lambda>_. ''https''), px_url_path = (\<lambda>_. ''/policy/worker.js''),
       px_url_join = (\<lambda>_ p. Inr p)\<rparr>,
     dx_operator = sample_operator_ext, dx_manifest_to_json = (\<lambda>_. Inr [5]), dx_nanos = (\<lambda>_. ''17''),
     dx_now = (\<lambda>_. Inr 100),
     dx_enclave = \<lparr>ec_default_vm_id = ''vm'', ec_default_vm_uds_path = ''/tmp/vm.sock'',
       ec_vm_attachments = [\<lparr>va_vm_id = ''other'', va_uds_path = ''/tmp/other.sock''\<rparr>]\<rparr>,
     dx_operator_key_path = None\<rparr>"

lemma sample_served:
  "served_by sample_daemon (\<lambda>_. ''status'') (\<lambda>_. ''conversion'') sample_text (\<lambda>_. sample_enclave_env)"
  by (simp add: served_by_def sample_daemon_def sample_rpc_def sample_enclave_env_def)

definition sample_package :: "unit full_policy_package" where
  "sample_package = \<lparr>fpp_manifest = \<lparr>wm_bundle = \<lparr>wbp_source = ''https://example.com/bundle'', wbp_hash = None\<rparr>,
        wm_identities = [], wm_userdata = Map.empty\<rparr>, fpp_bundle = WorkerBundle [1]\<rparr>"

lemma sample_run:
  assumes "vms s ''vm'' = Some ()"
  shows "run_worker_in_default_vm sample_daemon (fpp_manifest sample_package) (fpp_bundle sample_package) None (k, s)
    = (Inr ''policy-worker-17'', (Suc k, s\<lparr>vms := (vms s)(''vm'' \<mapsto> ()),
         worker_map := (worker_map s)(''policy-worker-17'' \<mapsto> ''vm'')\<rparr>))"
  using assms
  by (simp add: run_worker_in_default_vm_def sample_daemon_def sample_rpc_def io_bind_def
      io_map_err_def io_read_def io_simps at_tick_def grpc_run_worker_def sample_enclave_env_def run_worker_def
      prepare_worker_def sample_package_def bundle_payload_def bundle_envelope_def sample_bundle_ext_def
      call_vm_def sample_vm_ops_def sample_rx_def Let_def)

lemma sample_check_policy:
  assumes "vms s ''vm'' = Some ()" "secret_id_wf sample_text sid" "env_report_wf er"
  shows "\<exists>k' s'. check_policy_for_env sample_daemon sample_package er sid ci (k, s) = (Inr True, (k', s'))"
proof -
  let ?c = "\<lparr>per_secret_ids = [sid], per_consumer = ci, per_env_report = er, per_claims = None\<rparr>"
  let ?s = "s\<lparr>vms := (vms s)(''vm'' \<mapsto> ()), worker_map := (worker_map s)(''policy-worker-17'' \<mapsto> ''vm'')\<rparr>"
  let ?E = "\<lambda>_ :: nat. sample_enclave_env"
  have wf: "list_all (policy_request_wf sample_text) [?c]" using assms by (simp add: policy_request_wf_def)
  obtain s' sat where x: "execute_policy (ee_rx (?E (Suc k))) (ee_ax (?E (Suc k))) (ee_ops (?E (Suc k)))
      (ee_vfy (?E (Suc k))) (ee_now (?E (Suc k))) ''policy-worker-17'' [?c] ?s = (s', Inr sat)" "sat \<noteq> []"
    by (simp add: sample_enclave_env_def execute_policy_def worker_vm_def call_vm_def sample_vm_ops_def sample_rx_def
        connection_result_def Let_def sample_verifier_def split: prod.splits)
  from service_execute_policy_eq [OF sample_served wf x(1)]
  have e: "service_execute_policy sample_daemon ''policy-worker-17'' [?c] (Suc k, ?s)
      = (Inr (map without_claims sat), Suc (Suc k), s')" by simp
  show ?thesis using x(2)
    by (simp add: check_policy_for_env_def io_bind_def sample_run [OF assms(1)] io_try_def e io_of_def split: prod.split)
qed

lemma sample_wf: "secret_id_wf sample_text sample_sid" "env_report_wf (sample_env_report ud)"
  by (simp_all add: sample_sid_def sample_secret_def sample_id_wf env_report_wf_def raw_attestation_wf_def
      sample_env_report_def)

text \<open>
  C14: The daemon's policy check and the enclave's authorizations: if the check of a secret for a report
  and a consumer succeeds, the enclave it talks to has authorized that secret and consumer for every
  attestation with the ephemeral key of the report, for one hour from the execution, and no stored
  secret has changed. If the check denies or fails, no authorization and no secret has changed.
\<close>

theorem policy_check_authorizes:
  assumes "served_by dx st ct tx E" "secret_id_wf tx sid" "env_report_wf er"
    and "check_policy_for_env dx pkg er sid ci (k, s) = (r, (k', s'))"
  shows "(r \<noteq> Inr True \<longrightarrow> r_secrets s' = r_secrets s)
    \<and> (r = Inr True \<longrightarrow> secrets_storage (r_secrets s') = secrets_storage (r_secrets s)
        \<and> (\<forall>u u' b t. auth_userdata (ee_ax (E (k + 1))) (detached_userdata (er_attestation er)) = Inr u
             \<longrightarrow> auth_userdata (ee_ax (E (k + 1))) (detached_userdata b) = Inr u'
             \<longrightarrow> ephemeral_public_key u' = ephemeral_public_key u
             \<longrightarrow> (check_authorization (ee_ax (E (k + 1))) t (r_secrets s') b sid ci
                   \<longleftrightarrow> t < ee_now (E (k + 1)) + 3600)))"
proof (intro conjI impI)
  note enc = check_policy_enclave [OF assms]
  show "r_secrets s' = r_secrets s" if "r \<noteq> Inr True" using enc that by blast
  assume "r = Inr True"
  with enc obtain w c sat s1 s2 where
    x: "execute_policy (ee_rx (E (k + 1))) (ee_ax (E (k + 1))) (ee_ops (E (k + 1))) (ee_vfy (E (k + 1)))
          (ee_now (E (k + 1))) w
          [\<lparr>per_secret_ids = [sid], per_consumer = ci, per_env_report = er, per_claims = None\<rparr>] s1 = (s2, Inr sat)"
    and c: "c \<in> set sat" "per_secret_ids c = [sid]" "per_consumer c = ci" "per_env_report c = er"
    and sec: "r_secrets s1 = r_secrets s" "r_secrets s' = r_secrets s2" by blast
  show "secrets_storage (r_secrets s') = secrets_storage (r_secrets s)"
    using execute_policy_storage [OF x] sec by simp
  show "\<forall>u u' b t. auth_userdata (ee_ax (E (k + 1))) (detached_userdata (er_attestation er)) = Inr u
             \<longrightarrow> auth_userdata (ee_ax (E (k + 1))) (detached_userdata b) = Inr u'
             \<longrightarrow> ephemeral_public_key u' = ephemeral_public_key u
             \<longrightarrow> (check_authorization (ee_ax (E (k + 1))) t (r_secrets s') b sid ci
                   \<longleftrightarrow> t < ee_now (E (k + 1)) + 3600)"
    using approved_authorized [OF x c(1)] c sec(2) by simp
qed

theorem policy_check_authorizes_witness:
  "\<exists>k' s'. check_policy_for_env sample_daemon sample_package (sample_env_report [1]) sample_sid sample_consumer
      (0, sample_runner) = (Inr True, (k', s'))
    \<and> secrets_storage (r_secrets s') = secrets_storage (r_secrets sample_runner)
    \<and> check_authorization sample_auth 3699 (r_secrets s') (er_attestation (sample_env_report [1]))
        sample_sid sample_consumer"
proof -
  have "vms sample_runner ''vm'' = Some ()" by (simp add: sample_runner_def)
  from sample_check_policy [OF this sample_wf] obtain k' s' where
    run: "check_policy_for_env sample_daemon sample_package (sample_env_report [1]) sample_sid sample_consumer
      (0, sample_runner) = (Inr True, (k', s'))" by blast
  from policy_check_authorizes [OF sample_served sample_wf run] run show ?thesis
    by (auto simp: sample_enclave_env_def sample_auth_def sample_env_report_def)
qed

text \<open>
  Startup: the VMs that \<open>attach_configured_vms\<close> tries always include the default VM, which runs the
  policy workers; the registry afterwards holds what it held and exactly the VMs that the enclave
  reported attached, also when a failing call ends the loop early.
\<close>

theorem attach_configured_vms_registry:
  assumes "attach_configured_vms dx (reg, w) = (r, (reg', w'))"
  shows "ec_default_vm_id (dx_enclave dx) \<in> va_vm_id ` set (startup_attachments (dx_enclave dx))
    \<and> reg \<subseteq> reg' \<and> reg' \<subseteq> reg \<union> va_vm_id ` set (startup_attachments (dx_enclave dx))
    \<and> (\<forall>ids. r = Inr ids \<longrightarrow> reg' = reg \<union> set ids)"
  using attach_all_frame [OF assms [unfolded attach_configured_vms_def]] default_attached by blast

theorem attach_configured_vms_registry_witness:
  "fst (snd (attach_configured_vms sample_daemon ({}, (0, sample_runner)))) \<subseteq> {''other'', ''vm''}"
proof -
  obtain r reg' w' where run: "attach_configured_vms sample_daemon ({}, (0, sample_runner)) = (r, (reg', w'))"
    by (metis surj_pair)
  have "va_vm_id ` set (startup_attachments (dx_enclave sample_daemon)) = {''other'', ''vm''}"
    by (auto simp: sample_daemon_def startup_attachments_def)
  with attach_configured_vms_registry [OF run] show ?thesis by (simp add: run)
qed

end
