(* ===== verification/Daemon_Secrets.thy ===== *)
theory Daemon_Secrets
  imports Daemon_Runner
begin

text \<open>
  The daemon's secrets service (\<open>src/node/daemon/src/services/secrets.rs\<close>): finding the secrets that
  are missing in the enclave, asking the network for them, collecting the responses, generating them
  after a timeout, and answering requests of peers.

  A caller of \<open>get_secrets\<close> whose secrets are missing waits on a channel; the model splits the call
  there. \<open>get_secrets\<close> runs up to the wait and returns the id of the pending request; the tasks that
  the code spawns (the timeout and the finalization) are steps of their own, and the answer that
  reaches the caller is an entry of \<open>sv_results\<close>. A \<open>HashMap\<close> argument is the list of its entries in
  the order of iteration; \<open>sx_order\<close> is the order of a \<open>HashSet\<close> that the code builds.
\<close>

section \<open>State\<close>

type_synonym secret_requests = "(secret_id \<times> secret_request list) list"

datatype secrets_message =
    PublishSecretsRequest u64 secret_requests env_report
  | PublishSecretsResponse u64 secrets_box env_report

record pending_request =
  requested_ids :: "secret_id list"
  consumers_by_id :: "secret_id \<rightharpoonup> consumer_info"
  collected_bundles :: "(secrets_box \<times> env_report) list"
  response_count :: nat
  response_threshold :: nat

definition RESPONSE_THRESHOLD :: nat where
  "RESPONSE_THRESHOLD = 1"

record secrets_service =
  sv_pending :: "u64 \<rightharpoonup> pending_request"
  sv_counter :: u64
  sv_timers :: "u64 list"
  sv_finalizing :: "(u64 \<times> pending_request) list"
  sv_waiting :: "u64 list"
  sv_results :: "(u64 \<times> (app_error + unit)) list"

definition secrets_service_new :: secrets_service where
  "secrets_service_new =
    \<lparr>sv_pending = Map.empty, sv_counter = 0, sv_timers = [], sv_finalizing = [], sv_waiting = [], sv_results = []\<rparr>"

record ('w, 'j, 'p) service_ext =
  sx_daemon :: "('w, 'j, 'p) daemon_ext"
  sx_policies :: policy_manager
  sx_publish :: "secrets_message \<Rightarrow> ('w, string, unit) call"
  sx_order :: "secret_id list \<Rightarrow> secret_id list"

section \<open>Local secrets\<close>

definition present_ids :: "u64 \<Rightarrow> (secret_id \<times> bool \<times> u64) list \<Rightarrow> secret_id list" where
  "present_ids now sts =
    map fst (filter (\<lambda>(sid, found, expiry). found \<and> (expiry = 0 \<or> expiry > now)) sts)"

definition current_unix_time :: "('w, 'j, 'p) daemon_ext \<Rightarrow> ('w, u64) io" where
  "current_unix_time dx = io_bind (io_read (dx_now dx)) io_of"

definition check_local ::
  "('w, 'j, 'p) daemon_ext \<Rightarrow> secret_requests \<Rightarrow> ('w, secret_id list \<times> secret_requests) io" where
  "check_local dx reqs =
    (if reqs = [] then io_ok ([], []) else
     io_bind (io_map_err (\<lambda>e. AppService (''check_secrets failed: '' @ e))
         (client_check_secrets (dx_rpc dx) (map fst reqs))) (\<lambda>sts.
     io_bind (current_unix_time dx) (\<lambda>now.
     let local_set = set (present_ids now sts) in
     io_ok (filter (\<lambda>i. i \<in> local_set) (map fst reqs), filter (\<lambda>r. fst r \<notin> local_set) reqs))))"

definition gather_local :: "('w, 'j, 'p) daemon_ext \<Rightarrow> secret_requests \<Rightarrow> ('w, secret_id list) io" where
  "gather_local dx reqs =
    (if reqs = [] then io_ok [] else
     io_try (client_check_secrets (dx_rpc dx) (map fst reqs)) (\<lambda>r. case r of
         Inr sts \<Rightarrow> io_bind (current_unix_time dx) (\<lambda>now. io_ok (present_ids now sts))
       | Inl _ \<Rightarrow> io_ok []))"

section \<open>Requesting\<close>

text \<open>A representative consumer of every missing secret.\<close>

fun first_consumers :: "secret_requests \<Rightarrow> app_error + (secret_id \<rightharpoonup> consumer_info)" where
  "first_consumers [] = Inr Map.empty"
| "first_consumers ((i, rs) # reqs) = (case rs of
      [] \<Rightarrow> Inl (AppInternal ''No consumer info found for secret ID'')
    | r # _ \<Rightarrow> rbind (first_consumers reqs) (\<lambda>m. Inr (m(i \<mapsto> sr_consumer r))))"

fun check_own_policies ::
  "('w, 'j, 'p) service_ext \<Rightarrow> env_report \<Rightarrow> (secret_id \<rightharpoonup> consumer_info) \<Rightarrow> secret_id list \<Rightarrow> ('w, unit) io" where
  "check_own_policies sx er consumers [] = io_ok ()"
| "check_own_policies sx er consumers (i # ids) =
    io_bind (get_policy (dx_bundle (sx_daemon sx)) (dx_web3 (sx_daemon sx)) (dx_policy (sx_daemon sx))
        (sx_policies sx) i) (\<lambda>pkg.
    io_bind (io_of (ok_or (AppInternal ''ConsumerInfo missing for secret'') (consumers i))) (\<lambda>ci.
    io_bind (check_policy_for_env (sx_daemon sx) pkg er i ci) (\<lambda>ok.
    if ok then check_own_policies sx er consumers ids
    else io_fail (AppService ''Policy denied for self to request secret''))))"

definition sorted_requests :: "secret_requests \<Rightarrow> secret_requests" where
  "sorted_requests reqs = sort_key fst reqs"

definition add_pending :: "u64 \<Rightarrow> pending_request \<Rightarrow> secrets_service \<Rightarrow> secrets_service" where
  "add_pending i p sv = sv\<lparr>sv_counter := i, sv_pending := (sv_pending sv)(i \<mapsto> p), sv_timers := i # sv_timers sv\<rparr>"

text \<open>
  The part of \<open>get_secrets\<close> that allocates a request and publishes it. The timeout is spawned before
  the message is sent; when sending fails the caller returns and the request stays pending.
\<close>

definition publish_request ::
  "('w, 'j, 'p) service_ext \<Rightarrow> secret_requests \<Rightarrow> secret_id list \<Rightarrow> (secret_id \<rightharpoonup> consumer_info) \<Rightarrow> env_report
     \<Rightarrow> (secrets_service \<times> 'w, u64) io" where
  "publish_request sx missing ids consumers er = (\<lambda>(sv, w).
    let i = sv_counter sv + 1;
        sv' = add_pending i \<lparr>requested_ids = ids, consumers_by_id = consumers, collected_bundles = [],
                response_count = 0, response_threshold = RESPONSE_THRESHOLD\<rparr> sv
    in (case sx_publish sx (PublishSecretsRequest i (sorted_requests missing) er) w of
          (Inl e, w') \<Rightarrow> (Inl (AppService (''Failed to publish secrets request: '' @ e)), (sv', w'))
        | (Inr _, w') \<Rightarrow> (Inr i, (sv'\<lparr>sv_waiting := i # sv_waiting sv'\<rparr>, w'))))"

definition service_get_secrets ::
  "('w, 'j, 'p) service_ext \<Rightarrow> secret_requests \<Rightarrow> env_report \<Rightarrow> (secrets_service \<times> 'w, u64 option) io" where
  "service_get_secrets sx reqs er =
    io_bind (on_world (check_local (sx_daemon sx) reqs)) (\<lambda>(local_ids, missing).
    if missing = [] then io_ok None else
    let missing_ids = sx_order sx (map fst missing) in
    io_bind (io_of (first_consumers missing)) (\<lambda>consumers.
    io_bind (on_world (get_own_env_report (sx_daemon sx))) (\<lambda>self_report.
    io_bind (on_world (check_own_policies sx self_report consumers missing_ids)) (\<lambda>_.
    io_bind (publish_request sx missing missing_ids consumers er) (\<lambda>i. io_ok (Some i))))))"

section \<open>Responses\<close>

fun validate_response ::
  "('w, 'j, 'p) service_ext \<Rightarrow> pending_request \<Rightarrow> env_report \<Rightarrow> secret_id list \<Rightarrow> ('w, bool) io" where
  "validate_response sx p er [] = io_ok True"
| "validate_response sx p er (i # ids) =
    io_bind (get_policy (dx_bundle (sx_daemon sx)) (dx_web3 (sx_daemon sx)) (dx_policy (sx_daemon sx))
        (sx_policies sx) i) (\<lambda>pkg.
    io_bind (io_of (ok_or (AppInternal ''ConsumerInfo missing for secret in pending request'')
        (consumers_by_id p i))) (\<lambda>ci.
    io_match (check_policy_for_env (sx_daemon sx) pkg er i ci) (\<lambda>r. case r of
        Inr True \<Rightarrow> validate_response sx p er ids
      | _ \<Rightarrow> io_ok False)))"

definition record_response :: "u64 \<Rightarrow> pending_request \<Rightarrow> secrets_box \<Rightarrow> env_report \<Rightarrow> secrets_service \<Rightarrow> secrets_service" where
  "record_response i p box er sv =
    (let p' = p\<lparr>collected_bundles := collected_bundles p @ [(box, er)], response_count := response_count p + 1\<rparr>
     in if response_count p' \<ge> response_threshold p'
        then sv\<lparr>sv_pending := (sv_pending sv)(i := None), sv_finalizing := sv_finalizing sv @ [(i, p')]\<rparr>
        else sv\<lparr>sv_pending := (sv_pending sv)(i \<mapsto> p')\<rparr>)"

definition handle_incoming_secret_batch_response ::
  "('w, 'j, 'p) service_ext \<Rightarrow> u64 \<Rightarrow> secrets_box \<Rightarrow> env_report \<Rightarrow> (secrets_service \<times> 'w, unit) io" where
  "handle_incoming_secret_batch_response sx i box er = (\<lambda>(sv, w). case sv_pending sv i of
      None \<Rightarrow> (Inr (), (sv, w))
    | Some p \<Rightarrow>
        io_bind (on_world (validate_response sx p er (contained_secret_ids box))) (\<lambda>valid.
        if valid then on_state (record_response i p box er) else io_ok ()) (sv, w))"

section \<open>Finalization\<close>

text \<open>Every path of the finalizers sends one answer to the caller; it is their result here.\<close>

definition check_and_respond ::
  "('w, 'j, 'p) daemon_ext \<Rightarrow> secret_id list \<Rightarrow> ('w, app_error + unit) io" where
  "check_and_respond dx ids =
    io_try (client_check_secrets (dx_rpc dx) ids) (\<lambda>r. case r of
        Inr sts \<Rightarrow> io_bind (current_unix_time dx) (\<lambda>now.
          io_ok (if \<forall>i \<in> set ids. i \<in> set (present_ids now sts) then Inr ()
                 else Inl (AppService ''Failed to confirm all secrets in enclave'')))
      | Inl e \<Rightarrow> io_ok (Inl (AppService (''Failed final check_secrets: '' @ e))))"

fun self_authorize ::
  "('w, 'j, 'p) service_ext \<Rightarrow> env_report \<Rightarrow> (secret_id \<times> consumer_info) list \<Rightarrow> ('w, unit) io" where
  "self_authorize sx er [] = io_ok ()"
| "self_authorize sx er ((i, ci) # rs) =
    io_bind (get_policy (dx_bundle (sx_daemon sx)) (dx_web3 (sx_daemon sx)) (dx_policy (sx_daemon sx))
        (sx_policies sx) i) (\<lambda>pkg.
    io_bind (check_policy_for_env (sx_daemon sx) pkg er i ci) (\<lambda>_. self_authorize sx er rs))"

definition generate_secrets_flow ::
  "('w, 'j, 'p) service_ext \<Rightarrow> (secret_id \<times> consumer_info) list \<Rightarrow> ('w, unit) io" where
  "generate_secrets_flow sx rs =
    (if rs = [] then io_ok () else
     io_bind (get_own_env_report (sx_daemon sx)) (\<lambda>er.
     io_bind (self_authorize sx er rs) (\<lambda>_.
     io_map_err (\<lambda>e. AppService (''Enclave generate_secrets failed: '' @ e))
       (client_generate_secrets (dx_rpc (sx_daemon sx)) rs))))"

definition with_consumers :: "pending_request \<Rightarrow> (secret_id \<times> consumer_info) list" where
  "with_consumers p =
    map (\<lambda>i. (i, the (consumers_by_id p i))) (filter (\<lambda>i. consumers_by_id p i \<noteq> None) (requested_ids p))"

definition finalize_request_timeout ::
  "('w, 'j, 'p) service_ext \<Rightarrow> pending_request \<Rightarrow> ('w, app_error + unit) io" where
  "finalize_request_timeout sx p =
    (let rs = with_consumers p in
     if rs = [] \<and> requested_ids p \<noteq> [] then io_ok (Inl (AppInternal ''No valid consumers for generation''))
     else io_match (generate_secrets_flow sx rs) (\<lambda>r. case r of
         Inr _ \<Rightarrow> check_and_respond (sx_daemon sx) (requested_ids p)
       | Inl e \<Rightarrow> io_ok (Inl e)))"

definition bundles_for_enclave :: "pending_request \<Rightarrow> put_bundle list" where
  "bundles_for_enclave p = concat (map (\<lambda>(box, er).
      (case contained_secret_ids box of
         [] \<Rightarrow> []
       | i # _ \<Rightarrow> (case consumers_by_id p i of Some ci \<Rightarrow> [(box, er, ci)] | None \<Rightarrow> []))) (collected_bundles p))"

definition finalize_request_threshold ::
  "('w, 'j, 'p) service_ext \<Rightarrow> pending_request \<Rightarrow> ('w, app_error + unit) io" where
  "finalize_request_threshold sx p =
    (if collected_bundles p = [] then io_ok (Inl (AppService ''No bundles collected for request''))
     else io_try (client_put_secrets (dx_rpc (sx_daemon sx)) (bundles_for_enclave p)) (\<lambda>r. case r of
         Inr ok \<Rightarrow> if \<not> ok then io_ok (Inl (AppService ''Enclave failed to store secrets for request''))
                  else check_and_respond (sx_daemon sx) (requested_ids p)
       | Inl e \<Rightarrow> io_ok (Inl (AppService (''Enclave put_secrets failed for request: '' @ e)))))"

text \<open>
  The answer reaches the caller if it still waits. A task that panics drops the channel, which the
  caller reports as an error of its own.
\<close>

definition respond :: "u64 \<Rightarrow> app_error + unit \<Rightarrow> secrets_service \<Rightarrow> secrets_service" where
  "respond i a sv =
    (if i \<in> set (sv_waiting sv)
     then sv\<lparr>sv_waiting := removeAll i (sv_waiting sv), sv_results := sv_results sv @ [(i, a)]\<rparr> else sv)"

definition run_finalizer ::
  "u64 \<Rightarrow> ('w, app_error + unit) io \<Rightarrow> secrets_service \<times> 'w \<Rightarrow> secrets_service \<times> 'w" where
  "run_finalizer i m = (\<lambda>(sv, w). case m w of
      (Inr a, w') \<Rightarrow> (respond i a sv, w')
    | (Inl _, w') \<Rightarrow> (respond i (Inl (AppService ''Internal channel error'')) sv, w'))"

definition timeout_fires ::
  "('w, 'j, 'p) service_ext \<Rightarrow> u64 \<Rightarrow> secrets_service \<times> 'w \<Rightarrow> secrets_service \<times> 'w" where
  "timeout_fires sx i = (\<lambda>(sv, w).
    if i \<notin> set (sv_timers sv) then (sv, w) else
    let sv = sv\<lparr>sv_timers := remove1 i (sv_timers sv)\<rparr> in
    (case sv_pending sv i of
       None \<Rightarrow> (sv, w)
     | Some p \<Rightarrow> if response_count p < response_threshold p
         then run_finalizer i (finalize_request_timeout sx p) (sv\<lparr>sv_pending := (sv_pending sv)(i := None)\<rparr>, w)
         else (sv, w)))"

definition threshold_task_runs ::
  "('w, 'j, 'p) service_ext \<Rightarrow> u64 \<Rightarrow> secrets_service \<times> 'w \<Rightarrow> secrets_service \<times> 'w" where
  "threshold_task_runs sx i = (\<lambda>(sv, w). case map_of (sv_finalizing sv) i of
      None \<Rightarrow> (sv, w)
    | Some p \<Rightarrow> run_finalizer i (finalize_request_threshold sx p)
        (sv\<lparr>sv_finalizing := filter (\<lambda>x. fst x \<noteq> i) (sv_finalizing sv)\<rparr>, w))"

section \<open>Requests of peers\<close>

fun authorize_requests ::
  "('w, 'j, 'p) service_ext \<Rightarrow> secret_requests \<Rightarrow> env_report \<Rightarrow> secret_id list
     \<Rightarrow> ('w, (secret_id \<times> consumer_info) list) io" where
  "authorize_requests sx reqs er [] = io_ok []"
| "authorize_requests sx reqs er (i # ids) = (case map_of reqs i of
      Some (r # _) \<Rightarrow>
        io_match (get_policy (dx_bundle (sx_daemon sx)) (dx_web3 (sx_daemon sx)) (dx_policy (sx_daemon sx))
            (sx_policies sx) i) (\<lambda>x. case x of
          Inl _ \<Rightarrow> authorize_requests sx reqs er ids
        | Inr pkg \<Rightarrow> io_match (check_policy_for_env (sx_daemon sx) pkg er i (sr_consumer r)) (\<lambda>y.
            io_bind (authorize_requests sx reqs er ids) (\<lambda>rest.
            io_ok (if y = Inr True then (i, sr_consumer r) # rest else rest))))
    | _ \<Rightarrow> authorize_requests sx reqs er ids)"

definition handle_incoming_secret_batch_request ::
  "('w, 'j, 'p) service_ext \<Rightarrow> secret_requests \<Rightarrow> env_report \<Rightarrow> ('w, (secrets_box \<times> env_report) option) io" where
  "handle_incoming_secret_batch_request sx reqs er =
    io_bind (gather_local (sx_daemon sx) reqs) (\<lambda>found_ids.
    if found_ids = [] then io_ok None else
    io_bind (authorize_requests sx reqs er found_ids) (\<lambda>authorized.
    if authorized = [] then io_ok None else
    io_try (client_get_secrets (dx_rpc (sx_daemon sx)) authorized er) (\<lambda>r. case r of
        Inl _ \<Rightarrow> io_ok None
      | Inr box \<Rightarrow> io_match (get_own_env_report (sx_daemon sx)) (\<lambda>x. case x of
            Inr our \<Rightarrow> io_ok (Some (box, our))
          | Inl _ \<Rightarrow> io_ok None))))"

section \<open>The service as a machine\<close>

text \<open>Between two steps the rest of the system may change the world in any way.\<close>

datatype 'w service_op =
    GetSecrets secret_requests env_report
  | PeerResponse u64 secrets_box env_report
  | TimeoutFires u64
  | ThresholdTask u64
  | PeerRequest secret_requests env_report
  | Elsewhere "'w \<Rightarrow> 'w"

fun service_step ::
  "('w, 'j, 'p) service_ext \<Rightarrow> secrets_service \<times> 'w \<Rightarrow> 'w service_op \<Rightarrow> secrets_service \<times> 'w" where
  "service_step sx sw (GetSecrets reqs er) = snd (service_get_secrets sx reqs er sw)"
| "service_step sx sw (PeerResponse i box er) = snd (handle_incoming_secret_batch_response sx i box er sw)"
| "service_step sx sw (TimeoutFires i) = timeout_fires sx i sw"
| "service_step sx sw (ThresholdTask i) = threshold_task_runs sx i sw"
| "service_step sx sw (PeerRequest reqs er) = snd (on_world (handle_incoming_secret_batch_request sx reqs er) sw)"
| "service_step sx sw (Elsewhere f) = (fst sw, f (snd sw))"

definition live_ids :: "secrets_service \<Rightarrow> u64 set" where
  "live_ids sv = dom (sv_pending sv) \<union> fst ` set (sv_finalizing sv)"

definition service_inv :: "secrets_service \<Rightarrow> bool" where
  "service_inv sv \<longleftrightarrow>
     (\<forall>i p. sv_pending sv i = Some p \<longrightarrow> i \<in> set (sv_timers sv) \<and> response_count p < response_threshold p
        \<and> i \<notin> fst ` set (sv_finalizing sv))
   \<and> distinct (sv_timers sv) \<and> distinct (map fst (sv_finalizing sv)) \<and> distinct (sv_waiting sv)
   \<and> distinct (map fst (sv_results sv)) \<and> set (sv_waiting sv) \<inter> fst ` set (sv_results sv) = {}
   \<and> set (sv_waiting sv) \<subseteq> live_ids sv
   \<and> (\<forall>i \<in> live_ids sv \<union> set (sv_timers sv) \<union> fst ` set (sv_results sv). i \<le> sv_counter sv)"

lemma service_invI:
  assumes "\<And>i p. sv_pending sv i = Some p \<Longrightarrow>
      i \<in> set (sv_timers sv) \<and> response_count p < response_threshold p \<and> i \<notin> fst ` set (sv_finalizing sv)"
    and "distinct (sv_timers sv)" "distinct (map fst (sv_finalizing sv))" "distinct (sv_waiting sv)"
    and "distinct (map fst (sv_results sv))" "set (sv_waiting sv) \<inter> fst ` set (sv_results sv) = {}"
    and "set (sv_waiting sv) \<subseteq> live_ids sv"
    and "\<And>i. i \<in> live_ids sv \<Longrightarrow> i \<le> sv_counter sv" "\<And>i. i \<in> set (sv_timers sv) \<Longrightarrow> i \<le> sv_counter sv"
      "\<And>i. i \<in> fst ` set (sv_results sv) \<Longrightarrow> i \<le> sv_counter sv"
  shows "service_inv sv"
  using assms unfolding service_inv_def by blast

lemma service_invD:
  assumes "service_inv sv"
  shows "sv_pending sv i = Some p \<Longrightarrow> i \<in> set (sv_timers sv)"
    "sv_pending sv i = Some p \<Longrightarrow> response_count p < response_threshold p"
    "sv_pending sv i = Some p \<Longrightarrow> i \<notin> fst ` set (sv_finalizing sv)"
    "distinct (sv_timers sv)" "distinct (map fst (sv_finalizing sv))" "distinct (sv_waiting sv)"
    "distinct (map fst (sv_results sv))" "set (sv_waiting sv) \<inter> fst ` set (sv_results sv) = {}"
    "set (sv_waiting sv) \<subseteq> live_ids sv" "i \<in> live_ids sv \<Longrightarrow> i \<le> sv_counter sv"
    "i \<in> set (sv_timers sv) \<Longrightarrow> i \<le> sv_counter sv" "i \<in> fst ` set (sv_results sv) \<Longrightarrow> i \<le> sv_counter sv"
  using assms unfolding service_inv_def by blast+

lemma service_new_inv: "service_inv secrets_service_new"
  by (simp add: service_inv_def secrets_service_new_def live_ids_def)

lemma word_less_inc: "c \<noteq> - 1 \<Longrightarrow> c < c + (1 :: 'a :: len word)"
  by (simp add: word_less_nat_alt unatSuc add_eq_0_iff add.commute [of c])

lemma add_pending_simps [simp]:
  "sv_pending (add_pending i p sv) = (sv_pending sv)(i \<mapsto> p)" "sv_counter (add_pending i p sv) = i"
  "sv_timers (add_pending i p sv) = i # sv_timers sv" "sv_finalizing (add_pending i p sv) = sv_finalizing sv"
  "sv_waiting (add_pending i p sv) = sv_waiting sv" "sv_results (add_pending i p sv) = sv_results sv"
  "live_ids (add_pending i p sv) = insert i (live_ids sv)"
  by (auto simp: add_pending_def live_ids_def)

lemma live_ids_waiting [simp]: "live_ids (sv\<lparr>sv_waiting := x\<rparr>) = live_ids sv"
  by (simp add: live_ids_def)

lemma add_pending_inv:
  assumes inv: "service_inv sv" and c: "sv_counter sv \<noteq> - 1" and p: "response_count p < response_threshold p"
    and ws: "ws = sv_waiting sv \<or> ws = (sv_counter sv + 1) # sv_waiting sv"
  shows "service_inv ((add_pending (sv_counter sv + 1) p sv)\<lparr>sv_waiting := ws\<rparr>)" (is "service_inv ?sv")
proof -
  let ?i = "sv_counter sv + 1"
  note d = service_invD [OF inv]
  have lt: "sv_counter sv < ?i" using c by (rule word_less_inc)
  have le: "j \<le> ?i" if "j \<le> sv_counter sv" for j using lt that by order
  have new: "?i \<notin> live_ids sv" "?i \<notin> set (sv_timers sv)" "?i \<notin> fst ` set (sv_results sv)"
    using d(10-12) [of ?i] lt by (auto simp: not_le [symmetric])
  then have w: "?i \<notin> set (sv_waiting sv)" "?i \<notin> fst ` set (sv_finalizing sv)" using d(9) by (auto simp: live_ids_def)
  show ?thesis
  proof (rule service_invI)
    fix j q assume "sv_pending ?sv j = Some q"
    then show "j \<in> set (sv_timers ?sv) \<and> response_count q < response_threshold q
        \<and> j \<notin> fst ` set (sv_finalizing ?sv)"
      using d(1-3) [of j q] p w by (simp split: if_splits)
  next
    show "set (sv_waiting ?sv) \<inter> fst ` set (sv_results ?sv) = {}" using ws
    proof
      assume "ws = sv_waiting sv"
      then show ?thesis using d(8) by simp
    next
      assume "ws = ?i # sv_waiting sv"
      then show ?thesis using d(8) new(3) by simp
    qed
  qed (use ws d(4-7,9-12) le new(1,2) w in auto)
qed

lemma respond_simps [simp]:
  "sv_pending (respond i a sv) = sv_pending sv" "sv_finalizing (respond i a sv) = sv_finalizing sv"
  "sv_timers (respond i a sv) = sv_timers sv" "sv_counter (respond i a sv) = sv_counter sv"
  "live_ids (respond i a sv) = live_ids sv"
  "sv_waiting (respond i a sv) = removeAll i (sv_waiting sv)"
  "sv_results (respond i a sv) = sv_results sv @ (if i \<in> set (sv_waiting sv) then [(i, a)] else [])"
  by (auto simp: respond_def live_ids_def)

lemma run_finalizer_responds: "\<exists>a. fst (run_finalizer i m (sv, w)) = respond i a sv"
proof -
  obtain r w' where "m w = (r, w')" by fastforce
  then show ?thesis by (cases r) (auto simp: run_finalizer_def)
qed

text \<open>A request that leaves the live ids is answered in the same step.\<close>

lemma retire_inv:
  assumes inv: "service_inv sv" and eqs: "sv_counter sv' = sv_counter sv" "sv_waiting sv' = sv_waiting sv"
      "sv_results sv' = sv_results sv" "sv_pending sv' = (sv_pending sv)(i := None)"
      "sv_finalizing sv' = filter (\<lambda>x. fst x \<noteq> i) (sv_finalizing sv)"
    and timers: "sv_timers sv' = sv_timers sv \<or> sv_timers sv' = remove1 i (sv_timers sv)"
  shows "service_inv (respond i a sv')"
proof -
  note d = service_invD [OF inv]
  have live: "live_ids sv' = live_ids sv - {i}" using eqs by (auto simp: live_ids_def)
  have t: "set (sv_timers sv') \<subseteq> set (sv_timers sv)" "\<And>j. j \<in> set (sv_timers sv) \<Longrightarrow> j \<noteq> i \<Longrightarrow> j \<in> set (sv_timers sv')"
    "distinct (sv_timers sv')" using timers d(4) by (auto dest: notin_set_remove1)
  have i: "i \<le> sv_counter sv" if "i \<in> set (sv_waiting sv)" using d(9,10) that by blast
  show ?thesis
  proof (rule service_invI)
    fix j p assume "sv_pending (respond i a sv') j = Some p"
    then have "sv_pending sv j = Some p" "j \<noteq> i" using eqs by (auto split: if_splits)
    with d(1-3) [of j p] t(2) eqs show "j \<in> set (sv_timers (respond i a sv')) \<and> response_count p < response_threshold p
        \<and> j \<notin> fst ` set (sv_finalizing (respond i a sv'))" by auto
  next
    show "distinct (map fst (sv_finalizing (respond i a sv')))"
      using d(5) eqs by (simp add: distinct_map_filter)
  next
    show "distinct (map fst (sv_results (respond i a sv')))" using d(7,8) eqs by auto
  next
    show "distinct (sv_waiting (respond i a sv'))" using d(6) eqs by (simp add: distinct_removeAll)
  next
    show "set (sv_waiting (respond i a sv')) \<inter> fst ` set (sv_results (respond i a sv')) = {}"
      using d(8) eqs by auto
  next
    show "set (sv_waiting (respond i a sv')) \<subseteq> live_ids (respond i a sv')" using d(9) eqs live by auto
  next
    fix j assume "j \<in> fst ` set (sv_results (respond i a sv'))"
    then show "j \<le> sv_counter (respond i a sv')" using d(12) [of j] i eqs by (auto split: if_splits)
  qed (use d(10,11) t eqs live in auto)
qed

lemma io_bindE:
  assumes "io_bind m f sw = (r, sw')"
  obtains e where "m sw = (Inl e, sw')" "r = Inl e" | x sw1 where "m sw = (Inr x, sw1)" "f x sw1 = (r, sw')"
  using assms by (auto simp: io_bind_def split: prod.splits sum.splits)

definition request_added :: "secrets_service \<Rightarrow> secrets_service \<Rightarrow> bool" where
  "request_added sv sv' \<longleftrightarrow> (\<exists>p ws. response_count p < response_threshold p
      \<and> sv' = (add_pending (sv_counter sv + 1) p sv)\<lparr>sv_waiting := ws\<rparr>
      \<and> (ws = sv_waiting sv \<or> ws = (sv_counter sv + 1) # sv_waiting sv))"

lemma publish_request_adds:
  assumes "publish_request sx m ids c er (sv, w) = (r, (sv', w'))"
  shows "request_added sv sv'"
proof -
  let ?i = "sv_counter sv + 1"
  let ?p = "\<lparr>requested_ids = ids, consumers_by_id = c, collected_bundles = [], response_count = 0,
    response_threshold = RESPONSE_THRESHOLD\<rparr>"
  obtain x w1 where x: "sx_publish sx (PublishSecretsRequest ?i (sorted_requests m) er) w = (x, w1)" by fastforce
  have "r = (case x of Inl e \<Rightarrow> Inl (AppService (''Failed to publish secrets request: '' @ e)) | Inr _ \<Rightarrow> Inr ?i)"
    "sv' = (add_pending ?i ?p sv)\<lparr>sv_waiting := (case x of Inl _ \<Rightarrow> sv_waiting sv | Inr _ \<Rightarrow> ?i # sv_waiting sv)\<rparr>"
    using assms x by (auto simp: publish_request_def Let_def add_pending_def split: sum.splits)
  then show ?thesis unfolding request_added_def
    by (intro exI [of _ ?p] exI [of _ "sv_waiting sv'"]) (auto simp: RESPONSE_THRESHOLD_def split: sum.splits)
qed

lemma get_secrets_cases:
  assumes "service_get_secrets sx reqs er (sv, w) = (r, (sv', w'))"
  shows "sv' = sv \<or> request_added sv sv'"
  using assms unfolding service_get_secrets_def
proof (cases rule: io_bindE)
  case (2 x sw1)
  obtain local_ids missing where x: "x = (local_ids, missing)" by fastforce
  from 2(1) obtain w1 where "sw1 = (sv, w1)" by (auto simp: on_world_iff)
  with 2(2) x show ?thesis
    by (auto simp: io_simps on_world_iff Let_def dest!: publish_request_adds split: if_splits elim!: io_bindE)
qed (auto simp: on_world_iff)

lemma request_added_inv:
  "request_added sv sv' \<Longrightarrow> service_inv sv \<Longrightarrow> sv_counter sv \<noteq> - 1 \<Longrightarrow> service_inv sv'"
  unfolding request_added_def using add_pending_inv by blast

lemma response_cases:
  assumes "handle_incoming_secret_batch_response sx i box er (sv, w) = (r, (sv', w'))"
  shows "sv' = sv \<or> (\<exists>p. sv_pending sv i = Some p \<and> sv' = record_response i p box er sv
    \<and> validate_response sx p er (contained_secret_ids box) w = (Inr True, w'))"
  using assms
  by (auto simp: handle_incoming_secret_batch_response_def on_world_iff on_state_def io_simps
      split: option.splits if_splits elim!: io_bindE)

lemma record_response_inv:
  assumes inv: "service_inv sv" and p: "sv_pending sv i = Some p"
  shows "service_inv (record_response i p box er sv)"
proof -
  note d = service_invD [OF inv]
  let ?p = "p\<lparr>collected_bundles := collected_bundles p @ [(box, er)], response_count := response_count p + 1\<rparr>"
  let ?sv = "record_response i p box er sv"
  have eqs: "sv_counter ?sv = sv_counter sv" "sv_waiting ?sv = sv_waiting sv" "sv_results ?sv = sv_results sv"
    "sv_timers ?sv = sv_timers sv" by (simp_all add: record_response_def Let_def)
  have live: "live_ids ?sv = live_ids sv" using p by (auto simp: record_response_def Let_def live_ids_def)
  show ?thesis
  proof (rule service_invI)
    fix j q assume "sv_pending ?sv j = Some q"
    then show "j \<in> set (sv_timers ?sv) \<and> response_count q < response_threshold q
        \<and> j \<notin> fst ` set (sv_finalizing ?sv)"
      using d(1-3) [of j] d(1,3) [OF p] by (auto simp: record_response_def Let_def split: if_splits)
  next
    show "distinct (map fst (sv_finalizing ?sv))"
      using d(5) d(3) [OF p] by (simp add: record_response_def Let_def)
  qed (use d(4,6-12) eqs live in auto)
qed

lemma timeout_fires_inv:
  assumes inv: "service_inv sv"
  shows "service_inv (fst (timeout_fires sx i (sv, w)))"
proof (cases "i \<in> set (sv_timers sv)")
  case True
  let ?sv = "sv\<lparr>sv_timers := remove1 i (sv_timers sv)\<rparr>"
  note d = service_invD [OF inv]
  show ?thesis
  proof (cases "sv_pending sv i")
    case None
    have live: "live_ids ?sv = live_ids sv" by (simp add: live_ids_def)
    have "service_inv ?sv"
    proof (rule service_invI)
      fix j q assume "sv_pending ?sv j = Some q"
      then show "j \<in> set (sv_timers ?sv) \<and> response_count q < response_threshold q
          \<and> j \<notin> fst ` set (sv_finalizing ?sv)" using d(1-3) [of j q] None by (cases "j = i") simp_all
    qed (use d(4-12) live notin_set_remove1 in \<open>auto dest: notin_set_remove1\<close>)
    then show ?thesis using True None by (simp add: timeout_fires_def)
  next
    case (Some p)
    let ?sv' = "?sv\<lparr>sv_pending := (sv_pending sv)(i := None)\<rparr>"
    from run_finalizer_responds [of i "finalize_request_timeout sx p" ?sv' w] obtain a where
      "fst (run_finalizer i (finalize_request_timeout sx p) (?sv', w)) = respond i a ?sv'" by blast
    moreover have "\<forall>x \<in> set (sv_finalizing sv). fst x \<noteq> i" using d(3) [OF Some] by auto
    then have "service_inv (respond i a ?sv')" by (intro retire_inv [OF inv]) (auto simp: filter_id_conv)
    ultimately show ?thesis using True Some d(2) [OF Some] by (simp add: timeout_fires_def)
  qed
qed (simp add: timeout_fires_def inv)

lemma threshold_task_inv:
  assumes inv: "service_inv sv"
  shows "service_inv (fst (threshold_task_runs sx i (sv, w)))"
proof (cases "map_of (sv_finalizing sv) i")
  case (Some p)
  let ?sv = "sv\<lparr>sv_finalizing := filter (\<lambda>x. fst x \<noteq> i) (sv_finalizing sv)\<rparr>"
  from run_finalizer_responds [of i "finalize_request_threshold sx p" ?sv w] obtain a where
    "fst (run_finalizer i (finalize_request_threshold sx p) (?sv, w)) = respond i a ?sv" by blast
  moreover have "sv_pending sv i = None"
    using Some service_invD(3) [OF inv, of i] by (cases "sv_pending sv i") (auto dest: map_of_SomeD intro: rev_image_eqI)
  then have "service_inv (respond i a ?sv)" by (intro retire_inv [OF inv]) (auto simp: fun_upd_idem)
  ultimately show ?thesis using Some by (simp add: threshold_task_runs_def)
qed (simp add: threshold_task_runs_def inv)

lemma service_step_inv:
  assumes "service_inv (fst sw)" "sv_counter (fst sw) \<noteq> - 1"
  shows "service_inv (fst (service_step sx sw x))"
proof -
  obtain sv w where sw: "sw = (sv, w)" by fastforce
  show ?thesis
  proof (cases x)
    case (GetSecrets reqs er)
    obtain r sv' w' where "service_get_secrets sx reqs er (sv, w) = (r, (sv', w'))" by (metis surj_pair)
    with get_secrets_cases [OF this] show ?thesis using assms request_added_inv by (auto simp: sw GetSecrets)
  next
    case (PeerResponse i box er)
    obtain r sv' w' where "handle_incoming_secret_batch_response sx i box er (sv, w) = (r, (sv', w'))" by (metis surj_pair)
    with response_cases [OF this] show ?thesis using assms record_response_inv by (auto simp: sw PeerResponse)
  qed (use assms in \<open>auto simp: sw timeout_fires_inv threshold_task_inv on_world_def split: prod.split\<close>)
qed

lemma service_step_counter:
  "unat (sv_counter (fst (service_step sx sw x))) \<le> unat (sv_counter (fst sw)) + 1"
proof -
  obtain sv w where sw: "sw = (sv, w)" by fastforce
  have inc: "unat (sv_counter sv + 1) \<le> unat (sv_counter sv) + 1"
    by (cases "1 + sv_counter sv = 0") (simp_all add: unatSuc add.commute [of _ 1])
  show ?thesis
  proof (cases x)
    case (GetSecrets reqs er)
    obtain r sv' w' where "service_get_secrets sx reqs er (sv, w) = (r, (sv', w'))" by (metis surj_pair)
    with get_secrets_cases [OF this] show ?thesis using inc by (auto simp: sw GetSecrets request_added_def)
  next
    case (PeerResponse i box er)
    obtain r sv' w' where "handle_incoming_secret_batch_response sx i box er (sv, w) = (r, (sv', w'))" by (metis surj_pair)
    with response_cases [OF this] show ?thesis by (auto simp: sw PeerResponse record_response_def Let_def)
  next
    case (TimeoutFires i)
    have "sv_counter (fst (run_finalizer i m (sv', w))) = sv_counter sv'" for m sv'
      using run_finalizer_responds [of i m sv' w] by auto
    then show ?thesis by (auto simp: sw TimeoutFires timeout_fires_def Let_def split: option.split)
  next
    case (ThresholdTask i)
    have "sv_counter (fst (run_finalizer i m (sv', w))) = sv_counter sv'" for m sv'
      using run_finalizer_responds [of i m sv' w] by auto
    then show ?thesis by (auto simp: sw ThresholdTask threshold_task_runs_def split: option.split)
  qed (auto simp: sw on_world_def split: prod.split)
qed

lemma service_run_inv:
  assumes "length ops < 2 ^ 64"
  shows "service_inv (fst (foldl (service_step sx) (secrets_service_new, w) ops))
    \<and> unat (sv_counter (fst (foldl (service_step sx) (secrets_service_new, w) ops))) \<le> length ops"
  using assms
proof (induction ops rule: rev_induct)
  case (snoc x ops)
  let ?s = "foldl (service_step sx) (secrets_service_new, w) ops"
  from snoc have IH: "service_inv (fst ?s)" "unat (sv_counter (fst ?s)) \<le> length ops" by simp_all
  have "unat (- 1 :: u64) = 2 ^ 64 - 1" by (simp add: unsigned_minus_1_eq_mask mask_eq_exp_minus_1)
  with snoc.prems IH(2) have "unat (sv_counter (fst ?s)) \<noteq> unat (- 1 :: u64)" by simp
  then have "sv_counter (fst ?s) \<noteq> - 1" by metis
  with service_step_inv [OF IH(1)] service_step_counter [of sx ?s x] IH(2) show ?case by simp
qed (simp add: service_new_inv, simp add: secrets_service_new_def)

lemma timeout_fires_effect:
  assumes inv: "service_inv sv"
  shows "sv_pending (fst (timeout_fires sx i (sv, w))) = (sv_pending sv)(i := None)"
    "sv_finalizing (fst (timeout_fires sx i (sv, w))) = sv_finalizing sv"
proof -
  have fin: "sv_pending (fst (run_finalizer i m (sv', w))) = sv_pending sv'"
    "sv_finalizing (fst (run_finalizer i m (sv', w))) = sv_finalizing sv'" for m sv'
    using run_finalizer_responds [of i m sv' w] by auto
  show "sv_pending (fst (timeout_fires sx i (sv, w))) = (sv_pending sv)(i := None)"
    using service_invD(1,2) [OF inv, of i]
    by (cases "sv_pending sv i") (auto simp: timeout_fires_def Let_def fin fun_upd_idem)
  show "sv_finalizing (fst (timeout_fires sx i (sv, w))) = sv_finalizing sv"
    by (auto simp: timeout_fires_def Let_def fin split: option.split)
qed

lemma threshold_task_effect:
  "sv_pending (fst (threshold_task_runs sx i (sv, w))) = sv_pending sv"
  "set (sv_finalizing (fst (threshold_task_runs sx i (sv, w)))) = {x \<in> set (sv_finalizing sv). fst x \<noteq> i}"
proof -
  have fin: "sv_pending (fst (run_finalizer i m (sv', w))) = sv_pending sv'"
    "sv_finalizing (fst (run_finalizer i m (sv', w))) = sv_finalizing sv'" for m sv'
    using run_finalizer_responds [of i m sv' w] by auto
  show "sv_pending (fst (threshold_task_runs sx i (sv, w))) = sv_pending sv"
    by (auto simp: threshold_task_runs_def fin split: option.split)
  show "set (sv_finalizing (fst (threshold_task_runs sx i (sv, w)))) = {x \<in> set (sv_finalizing sv). fst x \<noteq> i}"
    by (auto simp: threshold_task_runs_def fin map_of_eq_None_iff split: option.split)
qed

lemma timeouts_drain:
  "service_inv (fst sw) \<Longrightarrow>
    (let sw' = foldl (service_step sx) sw (map TimeoutFires ts) in service_inv (fst sw')
      \<and> dom (sv_pending (fst sw')) = dom (sv_pending (fst sw)) - set ts
      \<and> sv_finalizing (fst sw') = sv_finalizing (fst sw))"
proof (induction ts arbitrary: sw)
  case (Cons i ts)
  obtain sv w where sw: "sw = (sv, w)" by fastforce
  with Cons.prems have inv: "service_inv sv" by simp
  have "service_inv (fst (timeout_fires sx i (sv, w)))" using inv by (rule timeout_fires_inv)
  from Cons.IH [OF this] show ?case
    by (simp add: sw Let_def timeout_fires_effect [OF inv]) (auto split: if_splits)
qed simp

lemma tasks_drain:
  "service_inv (fst sw) \<Longrightarrow>
    (let sw' = foldl (service_step sx) sw (map ThresholdTask is) in service_inv (fst sw')
      \<and> sv_pending (fst sw') = sv_pending (fst sw)
      \<and> set (sv_finalizing (fst sw')) = {x \<in> set (sv_finalizing (fst sw)). fst x \<notin> set is})"
proof (induction "is" arbitrary: sw)
  case (Cons i "is")
  obtain sv w where sw: "sw = (sv, w)" by fastforce
  with Cons.prems have inv: "service_inv sv" by simp
  have "service_inv (fst (threshold_task_runs sx i (sv, w)))" using inv by (rule threshold_task_inv)
  from Cons.IH [OF this] show ?case by (auto simp: sw Let_def threshold_task_effect)
qed simp

section \<open>The service and the enclave\<close>

lemma check_and_respond_enclave:
  assumes "served_by dx st ct tx E" "list_all (secret_id_wf tx) ids"
    and "check_and_respond dx ids (k, s) = (Inr (Inr ()), (k', s'))"
  shows "k' = k + 1 \<and> s' = s \<and> (\<forall>i \<in> set ids. \<exists>x. secrets_storage (r_secrets s) i = Some x
    \<and> unexpired (ee_now (E k)) (ss_expiry x))"
proof -
  have rpc: "dx_rpc dx = grpc_service st ct tx E" "ee_text (E k) = tx" using assms(1) by (auto simp: served_by_def)
  let ?sts = "check_secrets (ee_now (E k)) (r_secrets s) ids"
  have c: "client_check_secrets (dx_rpc dx) ids (k, s) = (Inr ?sts, (k + 1, s))"
    unfolding rpc(1) by (rule client_check_secrets_eq [where E = E, OF rpc(2) assms(2)])
  obtain now where now: "dx_now dx (k + 1, s) = Inr now"
    using assms(3) c by (cases "dx_now dx (k + 1, s)")
      (simp_all add: check_and_respond_def io_try_def current_unix_time_def io_bind_def io_read_def io_simps)
  then have "(\<forall>i \<in> set ids. i \<in> set (present_ids now ?sts)) \<and> k' = k + 1 \<and> s' = s"
    using assms(3) c by (auto simp: check_and_respond_def io_try_def current_unix_time_def io_bind_def
        io_read_def io_simps split: if_splits)
  then have all: "\<forall>i \<in> set ids. i \<in> set (present_ids now ?sts)" and k: "k' = k + 1" "s' = s" by blast+
  have "\<exists>x. secrets_storage (r_secrets s) i = Some x \<and> unexpired (ee_now (E k)) (ss_expiry x)"
    if "i \<in> set (present_ids now ?sts)" for i
    using that by (auto simp: present_ids_def check_secrets_def split: option.splits)
  with all k show ?thesis by blast
qed

lemma finalize_ok_checks:
  assumes "finalize_request_timeout sx p w = (Inr (Inr ()), w') \<or> finalize_request_threshold sx p w = (Inr (Inr ()), w')"
  shows "\<exists>w0. check_and_respond (sx_daemon sx) (requested_ids p) w0 = (Inr (Inr ()), w')"
  using assms
proof
  assume "finalize_request_timeout sx p w = (Inr (Inr ()), w')"
  then obtain r :: "app_error + unit" and w1 where "(case r of Inr _ \<Rightarrow> check_and_respond (sx_daemon sx) (requested_ids p)
      | Inl e \<Rightarrow> io_ok (Inl e)) w1 = (Inr (Inr ()), w')"
    by (auto simp: finalize_request_timeout_def Let_def io_match_ok_iff io_ok_def split: if_splits)
  then show ?thesis by (cases r) (auto simp: io_ok_def)
next
  assume "finalize_request_threshold sx p w = (Inr (Inr ()), w')"
  then show ?thesis
    by (auto simp: finalize_request_threshold_def io_try_def io_simps split: if_splits sum.splits prod.splits)
qed

lemma authorize_requests_sub:
  "authorize_requests sx reqs er ids w = (Inr out, w') \<Longrightarrow> (i, ci) \<in> set out \<Longrightarrow>
    \<exists>r rs. map_of reqs i = Some (r # rs) \<and> ci = sr_consumer r"
proof (induction ids arbitrary: w out w')
  case (Cons j ids)
  show ?case
  proof (cases "\<exists>r rs. map_of reqs j = Some (r # rs)")
    case False
    then have "authorize_requests sx reqs er (j # ids) = authorize_requests sx reqs er ids"
      by (auto split: option.split list.split)
    with Cons show ?thesis by simp
  next
    case True
    then obtain r rs where r: "map_of reqs j = Some (r # rs)" by blast
    let ?get = "get_policy (dx_bundle (sx_daemon sx)) (dx_web3 (sx_daemon sx)) (dx_policy (sx_daemon sx)) (sx_policies sx) j"
    from Cons.prems(1) r obtain x w1 where x: "?get w = (x, w1)" "x \<noteq> Inl AppPanic" by (auto simp: io_match_ok_iff)
    show ?thesis
    proof (cases x)
      case (Inl e)
      with Cons.prems(1) r x have "authorize_requests sx reqs er ids w1 = (Inr out, w')" by (simp add: io_match_eq)
      then show ?thesis using Cons.IH Cons.prems(2) by blast
    next
      case (Inr pkg)
      with Cons.prems(1) r x obtain y :: "app_error + bool" and w2 rest where "authorize_requests sx reqs er ids w2 = (Inr rest, w')"
        "out = (if y = Inr True then (j, sr_consumer r) # rest else rest)"
        by (auto simp: io_match_eq io_match_ok_iff io_bind_ok_iff io_ok_def)
      with Cons.IH Cons.prems(2) r show ?thesis by (auto split: if_splits)
    qed
  qed
qed (simp add: io_simps)

lemma request_served_cases:
  assumes "handle_incoming_secret_batch_request sx reqs er w = (Inr (Some (box, our)), w')"
  shows "\<exists>authorized w1 w2. client_get_secrets (dx_rpc (sx_daemon sx)) authorized er w1 = (Inr box, w2)
    \<and> get_own_env_report (sx_daemon sx) w2 = (Inr our, w')
    \<and> (\<forall>(i, ci) \<in> set authorized. \<exists>r rs. map_of reqs i = Some (r # rs) \<and> ci = sr_consumer r)"
proof -
  from assms obtain ids w0 authorized w1 where a: "authorize_requests sx reqs er ids w0 = (Inr authorized, w1)"
    and rest: "io_try (client_get_secrets (dx_rpc (sx_daemon sx)) authorized er) (\<lambda>r. case r of
        Inl _ \<Rightarrow> io_ok None
      | Inr box \<Rightarrow> io_match (get_own_env_report (sx_daemon sx)) (\<lambda>x. case x of
            Inr our \<Rightarrow> io_ok (Some (box, our))
          | Inl _ \<Rightarrow> io_ok None)) w1 = (Inr (Some (box, our)), w')"
    by (auto simp: handle_incoming_secret_batch_request_def io_bind_ok_iff io_ok_def split: if_splits)
  obtain r w2 where r: "client_get_secrets (dx_rpc (sx_daemon sx)) authorized er w1 = (r, w2)" by fastforce
  show ?thesis
  proof (cases r)
    case (Inr b)
    obtain x w3 where x: "get_own_env_report (sx_daemon sx) w2 = (x, w3)" by fastforce
    have "b = box \<and> x = Inr our \<and> w3 = w'"
      using rest r Inr x by (cases x) (auto simp: io_try_def io_match_ok_iff io_ok_def)
    with r Inr x authorize_requests_sub [OF a] show ?thesis by blast
  qed (use rest r in \<open>simp add: io_try_def io_ok_def\<close>)
qed

lemma own_report_world:
  assumes "served_by dx st ct tx E" "\<And>path v. snd (px_read_file (dx_policy dx) path v) = v"
    and "get_own_env_report dx (k, s) = (r, w')"
  shows "w' = (k + 1, s)"
proof -
  have rpc: "snd (client_get_report (dx_rpc dx) (k, s)) = (k + 1, s)"
    using assms(1) by (auto simp: served_by_def client_get_report_def grpc_service_def io_bind_def io_map_err_def
        at_tick_def grpc_get_report_def io_simps map_err_def split: sum.split)
  have key: "v' = v" if "create_operator_signature dx path b v = (y, v')" for path b v y v'
    using that assms(2) [of path v]
    by (auto simp: create_operator_signature_def io_bind_def io_map_err_def io_simps split: prod.splits sum.splits if_splits)
  obtain x where x: "client_get_report (dx_rpc dx) (k, s) = (x, (k + 1, s))" using rpc by (metis prod.collapse)
  show ?thesis
  proof (cases x)
    case (Inr b)
    with x assms(3) show ?thesis
      by (auto simp: get_own_env_report_def io_bind_def io_map_err_def io_try_def io_ok_def
          split: option.splits prod.splits dest: key)
  qed (use x assms(3) in \<open>auto simp: get_own_env_report_def io_bind_def io_map_err_def\<close>)
qed

section \<open>Properties\<close>

definition sample_secrets_service :: "(nat \<times> unit runner, unit, unit) service_ext" where
  "sample_secrets_service = \<lparr>sx_daemon = sample_daemon, sx_policies = \<lparr>pm_default_vm_id = ''vm''\<rparr>,
     sx_publish = (\<lambda>_ w. (Inr (), w)), sx_order = (\<lambda>ids. ids)\<rparr>"





text \<open>
  Success means presence: when a finalization, after responses or after the timeout, answers its
  caller with success, the enclave holds every requested secret, unexpired at the time of the final
  check, in the state in which the answer is sent.
\<close>

theorem answered_secrets_present:
  assumes "served_by (sx_daemon sx) st ct tx E" "list_all (secret_id_wf tx) (requested_ids p)"
    and "finalize_request_timeout sx p w = (Inr (Inr ()), (k, s))
      \<or> finalize_request_threshold sx p w = (Inr (Inr ()), (k, s))"
  shows "0 < k \<and> (\<forall>i \<in> set (requested_ids p). \<exists>x. secrets_storage (r_secrets s) i = Some x
    \<and> unexpired (ee_now (E (k - 1))) (ss_expiry x))"
proof -
  from finalize_ok_checks [OF assms(3)] obtain k0 s0 where
    "check_and_respond (sx_daemon sx) (requested_ids p) (k0, s0) = (Inr (Inr ()), (k, s))" by auto
  from check_and_respond_enclave [OF assms(1,2) this] show ?thesis by simp
qed

definition sample_pending :: pending_request where
  "sample_pending = \<lparr>requested_ids = [sample_sid], consumers_by_id = [sample_sid \<mapsto> sample_consumer],
     collected_bundles = [], response_count = 0, response_threshold = 1\<rparr>"

definition empty_runner :: "unit runner" where
  "empty_runner = sample_runner\<lparr>r_secrets := sample_secrets\<lparr>secrets_storage := Map.empty\<rparr>\<rparr>"

lemma sample_policy:
  "get_policy (dx_bundle sample_daemon) (dx_web3 sample_daemon) (dx_policy sample_daemon)
     \<lparr>pm_default_vm_id = ''vm''\<rparr> sample_sid w = (Inr sample_package, w)"
  by (simp add: get_policy_def get_policy_url_def get_rpc_urls_for_chain_id_def sample_daemon_def
      io_bind_def io_map_err_def io_simps starts_with_def fetch_worker_manifest_def decode_data_url_def
      strip_prefix_def sample_bx_def fetch_worker_bundle_def fetch_bundle_bytes_def sample_package_def
      bundle_payload_def bundle_envelope_def ends_with_def sample_sid_def sample_secret_def)

lemma sample_own_report: "get_own_env_report sample_daemon (k, s) = (Inr (sample_env_report [2]), (Suc k, s))"
  by (simp add: get_own_env_report_def client_get_report_def sample_daemon_def sample_rpc_def grpc_service_def
      io_bind_def io_map_err_def at_tick_def grpc_get_report_def sample_enclave_env_def io_simps
      sample_env_report_def attestation_bundle_of_proto_def attestation_bundle_to_proto_def
      raw_attestation_of_proto_def raw_attestation_to_proto_def)

lemma sample_grant:
  assumes "vms s ''vm'' = Some ()"
  shows "\<exists>k' s'. check_policy_for_env sample_daemon sample_package (sample_env_report ud) sample_sid sample_consumer
      (k, s) = (Inr True, (k', s')) \<and> secrets_storage (r_secrets s') = secrets_storage (r_secrets s)
    \<and> check_authorization sample_auth 100 (r_secrets s') (er_attestation (sample_env_report ud)) sample_sid
        sample_consumer"
proof -
  from sample_check_policy [OF assms sample_wf] obtain k' s' where
    run: "check_policy_for_env sample_daemon sample_package (sample_env_report ud) sample_sid sample_consumer
      (k, s) = (Inr True, (k', s'))" by blast
  from check_policy_enclave [OF sample_served sample_wf run] obtain w c sat s1 s2 where
    x: "execute_policy (ee_rx sample_enclave_env) (ee_ax sample_enclave_env) (ee_ops sample_enclave_env)
        (ee_vfy sample_enclave_env) (ee_now sample_enclave_env) w [\<lparr>per_secret_ids = [sample_sid],
         per_consumer = sample_consumer, per_env_report = sample_env_report ud, per_claims = None\<rparr>] s1 = (s2, Inr sat)"
    and c: "c \<in> set sat" "per_secret_ids c = [sample_sid]" "per_consumer c = sample_consumer"
      "per_env_report c = sample_env_report ud"
    and sec: "r_secrets s1 = r_secrets s" "r_secrets s' = r_secrets s2" by auto
  have "check_authorization sample_auth 100 (r_secrets s') (er_attestation (sample_env_report ud))
      sample_sid sample_consumer"
    using approved_authorized [OF x c(1), of _ "er_attestation (sample_env_report ud)" _ sample_sid 100] c sec(2)
    by (simp add: sample_enclave_env_def sample_auth_def sample_env_report_def)
  with run execute_policy_storage [OF x] sec show ?thesis by auto
qed

lemma sample_generation:
  "\<exists>k s. finalize_request_timeout sample_secrets_service sample_pending (0, empty_runner) = (Inr (Inr ()), (k, s))"
proof -
  have "vms empty_runner ''vm'' = Some ()" by (simp add: empty_runner_def sample_runner_def)
  from sample_grant [OF this, of "[2]" 1] obtain k s where
    run: "check_policy_for_env sample_daemon sample_package (sample_env_report [2]) sample_sid sample_consumer
      (1, empty_runner) = (Inr True, (k, s))"
    and store: "secrets_storage (r_secrets s) = Map.empty"
    and auth: "check_authorization sample_auth 100 (r_secrets s) (er_attestation (sample_env_report [2]))
      sample_sid sample_consumer" by (auto simp: empty_runner_def)
  let ?E = "\<lambda>_ :: nat. sample_enclave_env" and ?rpc = "dx_rpc sample_daemon"
  have rpc: "?rpc = grpc_service (\<lambda>_. ''status'') (\<lambda>_. ''conversion'') sample_text ?E"
    by (simp add: sample_daemon_def sample_rpc_def)
  have tx: "ee_text (?E n) = sample_text" for n by (simp add: sample_enclave_env_def)
  have gen: "\<exists>s'. client_generate_secrets ?rpc [(sample_sid, sample_consumer)] (k, s) = (Inr (), (k + 1, s'))
      \<and> secrets_storage (r_secrets s') sample_sid = Some \<lparr>ss_data = [1], ss_expiry = 0, ss_generation = 100\<rparr>"
    unfolding rpc
    by (subst client_generate_secrets_eq [where E = ?E, OF tx])
      (use sample_wf auth store in \<open>simp_all add: generate_secrets_def sample_enclave_env_def\<close>)
  then obtain s' where gen: "client_generate_secrets ?rpc [(sample_sid, sample_consumer)] (k, s) = (Inr (), (k + 1, s'))"
    and st: "secrets_storage (r_secrets s') sample_sid = Some \<lparr>ss_data = [1], ss_expiry = 0, ss_generation = 100\<rparr>"
    by blast
  have chk: "client_check_secrets ?rpc [sample_sid] (k + 1, s') = (Inr [(sample_sid, True, 0)], (k + 2, s'))"
    unfolding rpc using client_check_secrets_eq [where E = ?E and ids = "[sample_sid]", OF tx] sample_wf st
    by (simp add: check_secrets_def unexpired_def)
  have "dx_now sample_daemon (k + 2, s') = Inr 100" by (simp add: sample_daemon_def)
  then have "check_and_respond sample_daemon [sample_sid] (k + 1, s') = (Inr (Inr ()), (k + 2, s'))"
    using chk by (simp add: check_and_respond_def io_try_def current_unix_time_def io_bind_def io_read_def io_simps
        present_ids_def)
  then show ?thesis
    using gen run sample_own_report [of 0] sample_policy
    by (simp add: finalize_request_timeout_def with_consumers_def sample_pending_def Let_def sample_secrets_service_def
        generate_secrets_flow_def io_match_def io_bind_def io_map_err_def io_simps)
qed

theorem answered_secrets_present_witness:
  "\<exists>k s x. finalize_request_timeout sample_secrets_service sample_pending (0, empty_runner) = (Inr (Inr ()), (k, s))
     \<and> secrets_storage (r_secrets s) sample_sid = Some x"
proof -
  from sample_generation obtain k s where
    f: "finalize_request_timeout sample_secrets_service sample_pending (0, empty_runner) = (Inr (Inr ()), (k, s))" by blast
  have "served_by (sx_daemon sample_secrets_service) (\<lambda>_. ''status'') (\<lambda>_. ''conversion'') sample_text (\<lambda>_. sample_enclave_env)"
    using sample_served by (simp add: sample_secrets_service_def)
  from answered_secrets_present [OF this, of sample_pending "(0, empty_runner)" k s] f sample_wf show ?thesis
    by (auto simp: sample_pending_def)
qed

text \<open>
  C15: Serving a peer: a box sent to a peer names only secrets that the peer requested, and the enclave
  that released it had verified the peer's report, had each of them authorized for that report and
  the consumer of the request, and held it unexpired. Reading the operator's key file is assumed to
  leave the enclave alone.
\<close>

theorem peer_served_authorized:
  assumes "served_by (sx_daemon sx) st ct tx E" "list_all (secret_id_wf tx) (map fst reqs)" "env_report_wf er"
    and "\<And>path v. snd (px_read_file (dx_policy (sx_daemon sx)) path v) = v"
    and "handle_incoming_secret_batch_request sx reqs er w = (Inr (Some (box, our)), (k, s))"
  shows "2 \<le> k \<and> (\<exists>c. ee_vfy (E (k - 2)) 0 (er_attestation er) = Inr c)
    \<and> (\<forall>i \<in> set (contained_secret_ids box). \<exists>r rs x. map_of reqs i = Some (r # rs)
        \<and> check_authorization (ee_ax (E (k - 2))) (ee_now (E (k - 2))) (r_secrets s) (er_attestation er) i
            (sr_consumer r)
        \<and> secrets_storage (r_secrets s) i = Some x \<and> unexpired (ee_now (E (k - 2))) (ss_expiry x))"
proof -
  from request_served_cases [OF assms(5)] obtain rs k1 s1 w2 where
    get: "client_get_secrets (dx_rpc (sx_daemon sx)) rs er (k1, s1) = (Inr box, w2)"
    and own: "get_own_env_report (sx_daemon sx) w2 = (Inr our, (k, s))"
    and sub: "\<forall>(i, ci) \<in> set rs. \<exists>r rs'. map_of reqs i = Some (r # rs') \<and> ci = sr_consumer r" by auto
  have rpc: "dx_rpc (sx_daemon sx) = grpc_service st ct tx E" "ee_text (E k1) = tx"
    using assms(1) by (auto simp: served_by_def)
  have wf: "\<forall>(i, ci) \<in> set rs. secret_id_wf tx i"
    using sub assms(2) by (fastforce simp: list_all_iff dest: map_of_SomeD)
  let ?g = "get_secrets (ee_cx (E k1)) (ee_ax (E k1)) (ee_now (E k1)) (ee_vfy (E k1)) (ee_nonce (E k1)) (r_secrets s1) rs er"
  have g: "?g = Inr box" "w2 = (k1 + 1, s1)"
    using get client_get_secrets_eq [where E = E, OF rpc(2) wf assms(3), of st ct s1]
    by (auto simp: rpc(1) split: sum.splits)
  have ks: "k = k1 + 2" "s = s1" using own_report_world [OF assms(1,4), of "k1 + 1" s1] own g(2) by auto
  note ids = released_box_ids [OF g(1)]
  have "\<exists>r rs' x. map_of reqs i = Some (r # rs')
        \<and> check_authorization (ee_ax (E k1)) (ee_now (E k1)) (r_secrets s1) (er_attestation er) i (sr_consumer r)
        \<and> secrets_storage (r_secrets s1) i = Some x \<and> unexpired (ee_now (E k1)) (ss_expiry x)"
    if "i \<in> set (contained_secret_ids box)" for i
    using that sub unfolding ids by (fastforce simp: collect_packed_iff)
  with g(1) ks show ?thesis unfolding get_secrets_Inr_iff by simp
qed

definition sample_peer_requests :: secret_requests where
  "sample_peer_requests = [(sample_sid, [\<lparr>sr_secret_id = sample_sid, sr_consumer = sample_consumer\<rparr>])]"

lemma sample_peer_served:
  "\<exists>box k s. handle_incoming_secret_batch_request sample_secrets_service sample_peer_requests (sample_env_report [1])
     (0, sample_runner) = (Inr (Some (box, sample_env_report [2])), (k, s))"
proof -
  let ?E = "\<lambda>_ :: nat. sample_enclave_env" and ?rpc = "dx_rpc sample_daemon"
  have rpc: "?rpc = grpc_service (\<lambda>_. ''status'') (\<lambda>_. ''conversion'') sample_text ?E"
    by (simp add: sample_daemon_def sample_rpc_def)
  have tx: "ee_text (?E n) = sample_text" for n by (simp add: sample_enclave_env_def)
  have chk: "client_check_secrets ?rpc [sample_sid] (0, sample_runner) = (Inr [(sample_sid, True, 0)], (1, sample_runner))"
    unfolding rpc using client_check_secrets_eq [where E = ?E and ids = "[sample_sid]", OF tx] sample_wf
    by (simp add: check_secrets_def unexpired_def sample_runner_def runner_new_def sample_secrets_def)
  have found: "gather_local sample_daemon sample_peer_requests (0, sample_runner) = (Inr [sample_sid], (1, sample_runner))"
    using chk by (simp add: gather_local_def sample_peer_requests_def io_try_def current_unix_time_def io_bind_def
        io_read_def io_simps present_ids_def) (simp add: sample_daemon_def io_ok_def)
  have "vms sample_runner ''vm'' = Some ()" by (simp add: sample_runner_def)
  from sample_grant [OF this, of "[1]" 1] obtain k s where
    run: "check_policy_for_env sample_daemon sample_package (sample_env_report [1]) sample_sid sample_consumer
      (1, sample_runner) = (Inr True, (k, s))"
    and store: "secrets_storage (r_secrets s) = secrets_storage (r_secrets sample_runner)"
    and auth: "check_authorization sample_auth 100 (r_secrets s) (er_attestation (sample_env_report [1]))
      sample_sid sample_consumer" by blast
  have u: "auth_userdata sample_auth (detached_userdata (er_attestation (sample_env_report [1])))
      = Inr (user_data_new (pad32 [1]) [])"
    by (simp add: sample_auth_def sample_env_report_def)
  have packed: "collect_packed sample_auth 100 (r_secrets s) (er_attestation (sample_env_report [1]))
      [(sample_sid, sample_consumer)] = [sample_secret]"
    using auth store
    by (simp add: unexpired_def sample_sid_def sample_secret_def sample_runner_def runner_new_def sample_secrets_def)
  have "\<exists>box. get_secrets sample_cx sample_auth 100 sample_verifier (replicate 12 0) (r_secrets s)
      [(sample_sid, sample_consumer)] (sample_env_report [1]) = Inr box"
    unfolding get_secrets_Inr_iff packed
    by (auto simp: u sample_verifier_def user_data_new_def encrypt_Inr_iff sample_cx_def sample_crypto_def
        sample_secret_def)
  then obtain box where "get_secrets sample_cx sample_auth 100 sample_verifier (replicate 12 0) (r_secrets s)
      [(sample_sid, sample_consumer)] (sample_env_report [1]) = Inr box" by blast
  then have get: "client_get_secrets ?rpc [(sample_sid, sample_consumer)] (sample_env_report [1]) (k, s)
      = (Inr box, (k + 1, s))"
    unfolding rpc by (subst client_get_secrets_eq [where E = ?E, OF tx])
      (use sample_wf in \<open>simp_all add: sample_enclave_env_def\<close>)
  show ?thesis using found get run sample_own_report [of "k + 1" s] sample_policy
    by (simp add: handle_incoming_secret_batch_request_def sample_secrets_service_def io_bind_def io_match_def io_try_def
        io_simps sample_peer_requests_def)
qed

theorem peer_served_authorized_witness:
  "\<exists>box k s. handle_incoming_secret_batch_request sample_secrets_service sample_peer_requests (sample_env_report [1])
       (0, sample_runner) = (Inr (Some (box, sample_env_report [2])), (k, s))
     \<and> set (contained_secret_ids box) \<subseteq> {sample_sid}"
proof -
  from sample_peer_served obtain box k s where
    h: "handle_incoming_secret_batch_request sample_secrets_service sample_peer_requests (sample_env_report [1])
      (0, sample_runner) = (Inr (Some (box, sample_env_report [2])), (k, s))" by blast
  have sb: "served_by (sx_daemon sample_secrets_service) (\<lambda>_. ''status'') (\<lambda>_. ''conversion'') sample_text (\<lambda>_. sample_enclave_env)"
    using sample_served by (simp add: sample_secrets_service_def)
  have wf: "list_all (secret_id_wf sample_text) (map fst sample_peer_requests)"
    using sample_wf by (simp add: sample_peer_requests_def)
  have "snd (px_read_file (dx_policy (sx_daemon sample_secrets_service)) path v) = v" for path v
    by (simp add: sample_secrets_service_def sample_daemon_def)
  from peer_served_authorized [OF sb wf sample_wf(2) this h] h show ?thesis
    by (auto simp: sample_peer_requests_def split: if_splits)
qed

text \<open>
  C25: A single peer can defeat a request: a response with an empty list of contained secrets passes the
  policy check, which asks for every contained secret, reaches the threshold of one response and
  ends the request; the finalization has nothing to hand to the enclave, so the caller is answered
  with an error and neither further responses nor the generation of the secrets are awaited.
\<close>

theorem empty_response_defeats_request:
  assumes "served_by (sx_daemon sx) st ct tx E"
    and "sv_pending sv i = Some p" "response_threshold p = RESPONSE_THRESHOLD" "collected_bundles p = []"
    and "i \<in> set (sv_waiting sv)" "i \<notin> fst ` set (sv_finalizing sv)" "contained_secret_ids box = []"
  shows "\<exists>sv' k'. foldl (service_step sx) (sv, (k, s)) [PeerResponse i box er, ThresholdTask i] = (sv', (k', s))
    \<and> sv_pending sv' i = None \<and> i \<notin> fst ` set (sv_finalizing sv') \<and> i \<notin> set (sv_waiting sv')
    \<and> sv_results sv' = sv_results sv @ [(i, Inl (AppService ''Enclave failed to store secrets for request''))]"
proof -
  let ?p = "p\<lparr>collected_bundles := [(box, er)], response_count := response_count p + 1\<rparr>"
  let ?sv = "sv\<lparr>sv_pending := (sv_pending sv)(i := None), sv_finalizing := sv_finalizing sv @ [(i, ?p)]\<rparr>"
  have resp: "service_step sx (sv, (k, s)) (PeerResponse i box er) = (?sv, (k, s))"
    using assms(2-4,7) by (simp add: handle_incoming_secret_batch_response_def record_response_def Let_def
        RESPONSE_THRESHOLD_def io_bind_def on_world_def on_state_def io_ok_def)
  have fin: "map_of (sv_finalizing ?sv) i = Some ?p"
    "filter (\<lambda>x. fst x \<noteq> i) (sv_finalizing ?sv) = sv_finalizing sv"
    using assms(6) by (auto simp: map_add_def filter_id_conv split: option.split dest: map_of_SomeD intro: rev_image_eqI)
  have rpc: "dx_rpc (sx_daemon sx) = grpc_service st ct tx E" "ee_text (E k) = tx"
    using assms(1) by (auto simp: served_by_def)
  have "client_put_secrets (dx_rpc (sx_daemon sx)) [] (k, s) = (Inr False, (k + 1, s))"
    using client_put_secrets_eq [where E = E and bs = "[]", OF rpc(2), of st ct s] by (simp add: rpc(1) put_secrets_def)
  then have "finalize_request_threshold sx ?p (k, s)
      = (Inr (Inl (AppService ''Enclave failed to store secrets for request'')), (k + 1, s))"
    by (simp add: finalize_request_threshold_def bundles_for_enclave_def assms(7) io_try_def io_ok_def)
  then show ?thesis using resp fin assms(5,6)
    by (simp add: threshold_task_runs_def run_finalizer_def)
qed

theorem empty_response_defeats_request_witness:
  "\<exists>sv' k'. foldl (service_step sample_secrets_service)
       (secrets_service_new\<lparr>sv_pending := [1 \<mapsto> sample_pending], sv_waiting := [1]\<rparr>, (0, sample_runner))
       [PeerResponse 1 secrets_box_new_empty (sample_env_report [2]), ThresholdTask 1] = (sv', (k', sample_runner))
     \<and> sv_results sv' = [(1, Inl (AppService ''Enclave failed to store secrets for request''))]"
proof -
  have sb: "served_by (sx_daemon sample_secrets_service) (\<lambda>_. ''status'') (\<lambda>_. ''conversion'') sample_text (\<lambda>_. sample_enclave_env)"
    using sample_served by (simp add: sample_secrets_service_def)
  show ?thesis
    using empty_response_defeats_request [OF sb, of "secrets_service_new\<lparr>sv_pending := [1 \<mapsto> sample_pending],
        sv_waiting := [1]\<rparr>" 1 sample_pending secrets_box_new_empty 0 sample_runner "sample_env_report [2]"]
    by (auto simp: secrets_service_new_def sample_pending_def RESPONSE_THRESHOLD_def secrets_box_new_empty_def)
qed

end
