(* ===== verification/Scheduler.thy ===== *)
theory Scheduler
  imports Worker_Types
begin

text \<open>
  The daemon's scheduler (\<open>src/node/daemon/src/services/scheduler.rs\<close>): validation of schedules, the
  service with its heap of events, and its loop.

  Instants of the monotonic clock are natural numbers and UTC times integers, both in
  nanoseconds; an operation reads both clocks once. The \<open>BinaryHeap\<close> is a list of which
  \<open>heap_peek\<close> takes an earliest element: the order of events with one fire time is left open by the
  standard library, and no theorem depends on it. The channel of fired events is the list
  \<open>sc_sent\<close> of what was sent while its receiver existed; the command channel appears as the
  outcomes of \<open>recv\<close> under the loop's timeout (\<open>wake\<close>).
\<close>

section \<open>Events, commands and validation\<close>

record clock =
  mono_now :: nat
  utc_now :: int

record scheduled_event =
  se_work_order :: string
  se_handler :: string
  next_fire_time :: nat
  se_schedule :: schedule
  occurrence_count :: u64

datatype scheduler_command =
    AddScheduledEvent string string schedule
  | RemoveWorkOrder string
  | StopScheduler

record scheduled_event_fired =
  ef_work_order :: string
  ef_handler :: string

record scheduler_config =
  min_schedule_interval_ms :: u64

datatype scheduler_error =
    IntervalTooFast u64 u64
  | StartTimeInPast int
  | EndTimeBeforeStart int int
  | ZeroMaxOccurrences

fun validate_schedule :: "int \<Rightarrow> schedule \<Rightarrow> scheduler_config \<Rightarrow> scheduler_error + unit" where
  "validate_schedule utc (Rate r) cfg =
    (if period_ms r < min_schedule_interval_ms cfg
     then Inl (IntervalTooFast (period_ms r) (min_schedule_interval_ms cfg)) else
     rbind (case start_at r of
         Some st \<Rightarrow> if st < utc then Inl (StartTimeInPast st) else Inr ()
       | None \<Rightarrow> Inr ()) (\<lambda>_.
     rbind (case (start_at r, end_at r) of
         (Some st, Some en) \<Rightarrow> if en \<le> st then Inl (EndTimeBeforeStart st en) else Inr ()
       | _ \<Rightarrow> Inr ()) (\<lambda>_.
     case max_occurrences r of
         Some n \<Rightarrow> if n = 0 then Inl ZeroMaxOccurrences else Inr ()
       | None \<Rightarrow> Inr ())))"

section \<open>The heap\<close>

type_synonym event_heap = "scheduled_event list"

fun heap_peek :: "event_heap \<Rightarrow> scheduled_event option" where
  "heap_peek [] = None"
| "heap_peek (e # h) = (case heap_peek h of
      None \<Rightarrow> Some e
    | Some f \<Rightarrow> if next_fire_time e \<le> next_fire_time f then Some e else Some f)"

definition heap_push :: "scheduled_event \<Rightarrow> event_heap \<Rightarrow> event_heap" where
  "heap_push e h = e # h"

definition heap_pop :: "event_heap \<Rightarrow> (scheduled_event \<times> event_heap) option" where
  "heap_pop h = (case heap_peek h of None \<Rightarrow> None | Some e \<Rightarrow> Some (e, remove1 e h))"

lemma heap_peek_None [simp]: "heap_peek h = None \<longleftrightarrow> h = []"
  by (cases h) (auto split: option.splits)

lemma heap_peek_Some:
  "heap_peek h = Some e \<Longrightarrow> e \<in> set h \<and> (\<forall>f \<in> set h. next_fire_time e \<le> next_fire_time f)"
proof (induction h arbitrary: e)
  case (Cons a h)
  show ?case
  proof (cases "heap_peek h")
    case None
    with Cons.prems show ?thesis by auto
  next
    case (Some f)
    from Cons.IH [OF Some] Cons.prems Some show ?thesis by (auto split: if_splits)
  qed
qed simp

lemma heap_pop_length: "heap_pop h = Some (e, h') \<Longrightarrow> length h' < length h"
  by (auto simp: heap_pop_def length_remove1 heap_peek_Some split: option.splits
      dest!: heap_peek_Some) (metis Suc_pred length_pos_if_in_set lessI)

lemma heap_pop_None [simp]: "heap_pop h = None \<longleftrightarrow> h = []"
  by (auto simp: heap_pop_def split: option.splits)

lemma heap_pop_Nil [simp]: "heap_pop [] = None"
  by simp

text \<open>What the service relies on in a heap.\<close>

locale min_heap =
  fixes push :: "'e \<Rightarrow> 'h \<Rightarrow> 'h"
    and peek :: "'h \<Rightarrow> 'e option"
    and pop :: "'h \<Rightarrow> ('e \<times> 'h) option"
    and items :: "'h \<Rightarrow> 'e multiset"
    and key :: "'e \<Rightarrow> nat"
  assumes items_push: "items (push e h) = add_mset e (items h)"
    and peek_None: "peek h = None \<longleftrightarrow> items h = {#}"
    and peek_min: "peek h = Some e \<Longrightarrow> f \<in># items h \<Longrightarrow> key e \<le> key f"
    and pop_peek: "map_option fst (pop h) = peek h"
    and items_pop: "pop h = Some (e, h') \<Longrightarrow> items h = add_mset e (items h')"
begin

lemma pop_min: "pop h = Some (e, h') \<Longrightarrow> f \<in># items h' \<Longrightarrow> key e \<le> key f"
  using peek_min pop_peek [of h] items_pop by fastforce

lemma nothing_due: "peek h = Some e \<Longrightarrow> t < key e \<Longrightarrow> {#f \<in># items h. key f \<le> t#} = {#}"
  using peek_min by fastforce

lemma due_pop:
  "pop h = Some (e, h') \<Longrightarrow> key e \<le> t
     \<Longrightarrow> {#f \<in># items h. key f \<le> t#} = add_mset e {#f \<in># items h'. key f \<le> t#}"
  by (simp add: items_pop)

lemma later_pop:
  "pop h = Some (e, h') \<Longrightarrow> key e \<le> t
     \<Longrightarrow> {#f \<in># items h. t < key f#} = {#f \<in># items h'. t < key f#}"
  by (simp add: items_pop)

lemma items_push_all: "items (foldl (\<lambda>h e. push e h) h es) = items h + mset es"
  by (induction es arbitrary: h) (simp_all add: items_push)

end

interpretation event_heap: min_heap heap_push heap_peek heap_pop mset next_fire_time
proof
  fix h e f h'
  show "mset (heap_push e h) = add_mset e (mset h)" by (simp add: heap_push_def)
  show "heap_peek h = None \<longleftrightarrow> mset h = {#}" by simp
  show "heap_peek h = Some e \<Longrightarrow> f \<in># mset h \<Longrightarrow> next_fire_time e \<le> next_fire_time f"
    using heap_peek_Some by simp
  show "map_option fst (heap_pop h) = heap_peek h"
    by (simp add: heap_pop_def split: option.split)
  show "heap_pop h = Some (e, h') \<Longrightarrow> mset h = add_mset e (mset h')"
    using heap_peek_Some by (auto simp: heap_pop_def split: option.splits)
qed

section \<open>The service\<close>

record scheduler =
  sc_config :: scheduler_config
  scheduled_events :: event_heap
  work_order_events :: "string \<rightharpoonup> nat list"
  sc_sent :: "scheduled_event_fired list"
  sc_receiver :: bool

definition scheduler_new :: "scheduler_config \<Rightarrow> scheduler" where
  "scheduler_new cfg =
    \<lparr>sc_config = cfg, scheduled_events = [], work_order_events = Map.empty, sc_sent = [],
     sc_receiver = True\<rparr>"

definition ms_to_ns :: "u64 \<Rightarrow> nat" where
  "ms_to_ns w = unat w * 1000000"

definition calculate_rate_mode_next_fire_time :: "int \<Rightarrow> rate_mode \<Rightarrow> nat \<Rightarrow> nat" where
  "calculate_rate_mode_next_fire_time utc r ref = (case start_at r of
      Some st \<Rightarrow> if utc < st then ref + nat (st - utc) + ms_to_ns (phase_ms r)
                else ref + ms_to_ns (period_ms r)
    | None \<Rightarrow> ref + ms_to_ns (period_ms r))"

fun calculate_next_fire_time :: "int \<Rightarrow> schedule \<Rightarrow> nat \<Rightarrow> nat" where
  "calculate_next_fire_time utc (Rate r) ref = calculate_rate_mode_next_fire_time utc r ref"

fun schedule_keeps :: "int \<Rightarrow> schedule \<Rightarrow> u64 \<Rightarrow> bool" where
  "schedule_keeps utc (Rate r) n =
    (if (case max_occurrences r of Some m \<Rightarrow> n \<ge> m | None \<Rightarrow> False) then False
     else if (case end_at r of Some en \<Rightarrow> utc \<ge> en | None \<Rightarrow> False) then False
     else True)"

definition should_reschedule :: "int \<Rightarrow> scheduled_event \<Rightarrow> bool" where
  "should_reschedule utc e = schedule_keeps utc (se_schedule e) (occurrence_count e)"

definition add_scheduled_event ::
  "clock \<Rightarrow> string \<Rightarrow> string \<Rightarrow> schedule \<Rightarrow> scheduler \<Rightarrow> scheduler" where
  "add_scheduled_event c w hnd sch s =
    (let e = \<lparr>se_work_order = w, se_handler = hnd,
              next_fire_time = calculate_next_fire_time (utc_now c) sch (mono_now c),
              se_schedule = sch, occurrence_count = 0\<rparr>;
         h = heap_push e (scheduled_events s);
         idx = (case work_order_events s w of Some v \<Rightarrow> v | None \<Rightarrow> [])
     in s\<lparr>scheduled_events := h,
          work_order_events := (work_order_events s)(w \<mapsto> idx @ [length h - 1])\<rparr>)"

text \<open>\<open>remove_work_order\<close> empties the heap and pushes what it keeps on a new one.\<close>

function keep_other_events :: "string \<Rightarrow> event_heap \<Rightarrow> event_heap \<Rightarrow> event_heap" where
  "keep_other_events w h new_heap = (case heap_pop h of
      None \<Rightarrow> new_heap
    | Some (e, h') \<Rightarrow>
        keep_other_events w h' (if se_work_order e \<noteq> w then heap_push e new_heap else new_heap))"
  by pat_completeness auto
termination by (relation "measure (\<lambda>(_, h, _). length h)") (auto simp: heap_pop_length)

definition remove_work_order :: "string \<Rightarrow> scheduler \<Rightarrow> scheduler" where
  "remove_work_order w s =
    s\<lparr>work_order_events := (work_order_events s)(w := None),
      scheduled_events := keep_other_events w (scheduled_events s) []\<rparr>"

definition handle_command ::
  "clock \<Rightarrow> scheduler_command \<Rightarrow> scheduler \<Rightarrow> scheduler \<times> (scheduler_error + unit)" where
  "handle_command c cmd s = (case cmd of
      AddScheduledEvent w hnd sch \<Rightarrow>
        (case validate_schedule (utc_now c) sch (sc_config s) of
           Inl e \<Rightarrow> (s, Inl e)
         | Inr _ \<Rightarrow> (add_scheduled_event c w hnd sch s, Inr ()))
    | RemoveWorkOrder w \<Rightarrow> (remove_work_order w s, Inr ())
    | StopScheduler \<Rightarrow> (s, Inr ()))"

definition fired_of :: "scheduled_event \<Rightarrow> scheduled_event_fired" where
  "fired_of e = \<lparr>ef_work_order = se_work_order e, ef_handler = se_handler e\<rparr>"

text \<open>The loop of \<open>fire_ready_events\<close>: the heap, the events to fire and those to reschedule.\<close>

function fire_loop ::
  "clock \<Rightarrow> (string \<rightharpoonup> nat list) \<Rightarrow> event_heap \<Rightarrow> scheduled_event_fired list \<Rightarrow> scheduled_event list
     \<Rightarrow> event_heap \<times> scheduled_event_fired list \<times> scheduled_event list" where
  "fire_loop c orders h to_fire again = (case heap_peek h of
      None \<Rightarrow> (h, to_fire, again)
    | Some e0 \<Rightarrow>
        if next_fire_time e0 > mono_now c then (h, to_fire, again)
        else case heap_pop h of
          None \<Rightarrow> (h, to_fire, again)
        | Some (e, h') \<Rightarrow>
            if orders (se_work_order e) = None then fire_loop c orders h' to_fire again
            else
              let e' = e\<lparr>occurrence_count := occurrence_count e + 1\<rparr> in
              fire_loop c orders h' (to_fire @ [fired_of e])
                (if should_reschedule (utc_now c) e'
                 then again @ [e'\<lparr>next_fire_time :=
                                calculate_next_fire_time (utc_now c) (se_schedule e') (mono_now c)\<rparr>]
                 else again))"
  by pat_completeness auto
termination by (relation "measure (\<lambda>(_, _, h, _, _). length h)") (auto simp: heap_pop_length)

definition fire_ready_events :: "clock \<Rightarrow> scheduler \<Rightarrow> scheduler" where
  "fire_ready_events c s =
    (case fire_loop c (work_order_events s) (scheduled_events s) [] [] of (h, to_fire, again) \<Rightarrow>
       s\<lparr>scheduled_events := foldl (\<lambda>h e. heap_push e h) h again,
         sc_sent := sc_sent s @ (if sc_receiver s then to_fire else [])\<rparr>)"

definition wait_duration :: "nat \<Rightarrow> scheduler \<Rightarrow> nat" where
  "wait_duration now s = (case heap_peek (scheduled_events s) of
      Some e \<Rightarrow> if next_fire_time e \<le> now then 0 else next_fire_time e - now
    | None \<Rightarrow> 1000000000)"

datatype wake = Received scheduler_command | ChannelClosed | TimedOut

text \<open>One round of \<open>run\<close> after the wait; the flag says whether the loop goes on.\<close>

definition run_iteration :: "clock \<Rightarrow> wake \<Rightarrow> scheduler \<Rightarrow> scheduler \<times> bool" where
  "run_iteration c w s = (case w of
      Received cmd \<Rightarrow> (fst (handle_command c cmd s), True)
    | ChannelClosed \<Rightarrow> (s, False)
    | TimedOut \<Rightarrow> (fire_ready_events c s, True))"

section \<open>The handle\<close>

text \<open>
  The sending side of the command channel, as the commands sent and not yet received; a send fails
  only when the service has ended. The receiver of fired events can be taken once.
\<close>

record scheduler_handle =
  sh_commands :: "scheduler_command list"
  sh_running :: bool
  sh_event_rx :: bool

definition scheduler_handle_new :: "scheduler_config \<Rightarrow> scheduler_handle \<times> scheduler" where
  "scheduler_handle_new cfg =
    (\<lparr>sh_commands = [], sh_running = True, sh_event_rx = True\<rparr>, scheduler_new cfg)"

definition handle_send ::
  "string \<Rightarrow> scheduler_command \<Rightarrow> scheduler_handle \<Rightarrow> scheduler_handle \<times> (string + unit)" where
  "handle_send what cmd sh =
    (if sh_running sh then (sh\<lparr>sh_commands := sh_commands sh @ [cmd]\<rparr>, Inr ())
     else (sh, Inl (''Failed to send '' @ what @ '' command: channel closed'')))"

definition handle_add_scheduled_event ::
  "string \<Rightarrow> string \<Rightarrow> schedule \<Rightarrow> scheduler_handle \<Rightarrow> scheduler_handle \<times> (string + unit)" where
  "handle_add_scheduled_event w hnd sch = handle_send ''add'' (AddScheduledEvent w hnd sch)"

definition handle_remove_work_order ::
  "string \<Rightarrow> scheduler_handle \<Rightarrow> scheduler_handle \<times> (string + unit)" where
  "handle_remove_work_order w = handle_send ''remove'' (RemoveWorkOrder w)"

definition handle_stop :: "scheduler_handle \<Rightarrow> scheduler_handle \<times> (string + unit)" where
  "handle_stop = handle_send ''stop'' StopScheduler"

definition take_event_receiver :: "scheduler_handle \<Rightarrow> scheduler_handle \<times> bool" where
  "take_event_receiver sh = (sh\<lparr>sh_event_rx := False\<rparr>, sh_event_rx sh)"

declare fire_loop.simps [simp del] keep_other_events.simps [simp del]

section \<open>What the loops compute\<close>

definition due :: "clock \<Rightarrow> scheduled_event \<Rightarrow> bool" where
  "due c e \<longleftrightarrow> next_fire_time e \<le> mono_now c"

definition keeps :: "clock \<Rightarrow> scheduled_event \<Rightarrow> bool" where
  "keeps c e \<longleftrightarrow> should_reschedule (utc_now c) (e\<lparr>occurrence_count := occurrence_count e + 1\<rparr>)"

definition advance :: "clock \<Rightarrow> scheduled_event \<Rightarrow> scheduled_event" where
  "advance c e = e\<lparr>occurrence_count := occurrence_count e + 1,
     next_fire_time := calculate_next_fire_time (utc_now c) (se_schedule e) (mono_now c)\<rparr>"

lemma advance_simps [simp]:
  "se_work_order (advance c e) = se_work_order e"
  "se_handler (advance c e) = se_handler e"
  "se_schedule (advance c e) = se_schedule e"
  "occurrence_count (advance c e) = occurrence_count e + 1"
  "next_fire_time (advance c e) = calculate_next_fire_time (utc_now c) (se_schedule e) (mono_now c)"
  by (simp_all add: advance_def)

lemma keep_other_events_mset:
  "mset (keep_other_events w h n) = mset n + {#e \<in># mset h. se_work_order e \<noteq> w#}"
proof (induction w h n rule: keep_other_events.induct)
  case (1 w h n)
  show ?case
  proof (cases "heap_pop h")
    case None
    then show ?thesis by (simp add: keep_other_events.simps)
  next
    case (Some x)
    then obtain e h' where e: "heap_pop h = Some (e, h')" by (cases x) auto
    show ?thesis using 1 [OF e refl] event_heap.items_pop [OF e]
      by (subst keep_other_events.simps) (simp add: e event_heap.items_push)
  qed
qed

lemma fire_loop_spec:
  assumes "fire_loop c orders h tf ag = (h', tf', ag')"
  shows "mset h' = {#e \<in># mset h. \<not> due c e#}
    \<and> (\<exists>es. sorted (map next_fire_time es)
          \<and> mset es = {#e \<in># mset h. due c e \<and> orders (se_work_order e) \<noteq> None#}
          \<and> tf' = tf @ map fired_of es \<and> ag' = ag @ map (advance c) (filter (keeps c) es))"
  using assms
proof (induction c orders h tf ag arbitrary: h' tf' ag' rule: fire_loop.induct)
  case (1 c orders h tf ag)
  show ?case
  proof (cases "heap_peek h")
    case None
    with "1.prems" show ?thesis by (simp add: fire_loop.simps)
  next
    case peek: (Some e0)
    show ?thesis
    proof (cases "next_fire_time e0 > mono_now c")
      case True
      have none: "{#e \<in># mset h. due c e#} = {#}"
        using event_heap.nothing_due [OF peek True] by (simp add: due_def)
      have "{#e \<in># mset h. \<not> due c e#} = mset h"
        using multiset_partition [of "mset h" "due c"] unfolding none by simp
      then show ?thesis using none True peek "1.prems"
        by (auto simp: fire_loop.simps intro!: exI [of _ "[]"])
    next
      case False
      obtain rest where pop: "heap_pop h = Some (e0, rest)"
        using event_heap.pop_peek [of h] peek by auto
      have e0: "due c e0" using False by (simp add: due_def)
      have ms: "mset h = add_mset e0 (mset rest)" by (rule event_heap.items_pop [OF pop])
      have least: "\<forall>f \<in> set rest. next_fire_time e0 \<le> next_fire_time f"
        using event_heap.pop_min [OF pop] by simp
      show ?thesis
      proof (cases "orders (se_work_order e0)")
        case None
        with "1.prems" peek pop False have "fire_loop c orders rest tf ag = (h', tf', ag')"
          by (simp add: fire_loop.simps [of c orders h])
        from "1.IH"(1) [OF peek False pop refl None this] show ?thesis by (simp add: ms e0 None)
      next
        case (Some idx)
        define ag1 where "ag1 = (if keeps c e0 then ag @ [advance c e0] else ag)"
        have ag: "(if should_reschedule (utc_now c) (e0\<lparr>occurrence_count := occurrence_count e0 + 1\<rparr>)
            then ag @ [e0\<lparr>occurrence_count := occurrence_count e0 + 1,
              next_fire_time := calculate_next_fire_time (utc_now c)
                (se_schedule (e0\<lparr>occurrence_count := occurrence_count e0 + 1\<rparr>)) (mono_now c)\<rparr>]
            else ag) = ag1"
          by (simp add: keeps_def ag1_def advance_def)
        have "fire_loop c orders rest (tf @ [fired_of e0]) ag1 = (h', tf', ag')"
          using "1.prems" peek pop False Some
          by (simp add: fire_loop.simps [of c orders h] Let_def ag)
        then obtain es where es: "sorted (map next_fire_time es)"
            "mset es = {#e \<in># mset rest. due c e \<and> orders (se_work_order e) \<noteq> None#}"
            "tf' = (tf @ [fired_of e0]) @ map fired_of es"
            "ag' = ag1 @ map (advance c) (filter (keeps c) es)"
          and h': "mset h' = {#e \<in># mset rest. \<not> due c e#}"
          using "1.IH"(2) [OF peek False pop refl _ refl, unfolded ag, of h' tf' ag'] Some by auto
        have "set es \<subseteq> set rest" using arg_cong [OF es(2), of set_mset] by auto
        then have "sorted (map next_fire_time (e0 # es))" using es(1) least by auto
        then show ?thesis using es h'
          by (intro conjI exI [of _ "e0 # es"]) (auto simp: ms e0 Some ag1_def)
      qed
    qed
  qed
qed

section \<open>Runs and their invariant\<close>

inductive sched_run :: "scheduler_config \<Rightarrow> (clock \<times> wake) list \<Rightarrow> scheduler \<Rightarrow> bool" for cfg where
  start: "sched_run cfg [] (scheduler_new cfg)"
| round: "sched_run cfg tr s \<Longrightarrow> run_iteration c w s = (s', True) \<Longrightarrow> sched_run cfg (tr @ [(c, w)]) s'"
| hang_up: "sched_run cfg tr s \<Longrightarrow> sched_run cfg tr (s\<lparr>sc_receiver := False\<rparr>)"

fun schedule_ok :: "scheduler_config \<Rightarrow> schedule \<Rightarrow> u64 \<Rightarrow> bool" where
  "schedule_ok cfg (Rate r) n \<longleftrightarrow> min_schedule_interval_ms cfg \<le> period_ms r
     \<and> (\<forall>m. max_occurrences r = Some m \<longrightarrow> n < m)"

definition event_ok :: "scheduler_config \<Rightarrow> (string \<rightharpoonup> nat list) \<Rightarrow> scheduled_event \<Rightarrow> bool" where
  "event_ok cfg orders e \<longleftrightarrow> orders (se_work_order e) \<noteq> None
     \<and> schedule_ok cfg (se_schedule e) (occurrence_count e)"

definition sched_inv :: "scheduler_config \<Rightarrow> scheduler \<Rightarrow> bool" where
  "sched_inv cfg s \<longleftrightarrow> sc_config s = cfg
     \<and> (\<forall>e \<in> set (scheduled_events s). event_ok cfg (work_order_events s) e)"

lemma validate_schedule_ok:
  "validate_schedule utc sch cfg = Inr u \<Longrightarrow> schedule_ok cfg sch 0"
  by (cases sch) (auto simp: rbind_def word_neq_0_conv not_less split: if_splits option.splits sum.splits)

lemma advance_ok:
  "event_ok cfg orders e \<Longrightarrow> keeps c e \<Longrightarrow> event_ok cfg orders (advance c e)"
  by (cases "se_schedule e")
     (auto simp: event_ok_def keeps_def should_reschedule_def not_le split: if_splits option.splits)

lemma fire_ready_events_spec:
  obtains es where "sorted (map next_fire_time es)"
    and "mset es = {#e \<in># mset (scheduled_events s). due c e \<and> work_order_events s (se_work_order e) \<noteq> None#}"
    and "sc_sent (fire_ready_events c s)
           = sc_sent s @ (if sc_receiver s then map fired_of es else [])"
    and "mset (scheduled_events (fire_ready_events c s))
           = {#e \<in># mset (scheduled_events s). \<not> due c e#}
             + image_mset (advance c) {#e \<in># mset es. keeps c e#}"
    and "work_order_events (fire_ready_events c s) = work_order_events s"
    and "sc_config (fire_ready_events c s) = sc_config s"
    and "sc_receiver (fire_ready_events c s) = sc_receiver s"
proof -
  obtain h tf ag where l: "fire_loop c (work_order_events s) (scheduled_events s) [] [] = (h, tf, ag)"
    by (metis prod_cases3)
  from fire_loop_spec [OF l] obtain es where "sorted (map next_fire_time es)"
      "mset es = {#e \<in># mset (scheduled_events s). due c e \<and> work_order_events s (se_work_order e) \<noteq> None#}"
      "tf = map fired_of es" "ag = map (advance c) (filter (keeps c) es)"
      "mset h = {#e \<in># mset (scheduled_events s). \<not> due c e#}" by auto
  then show thesis
    by (intro that [of es])
       (simp_all add: fire_ready_events_def l event_heap.items_push_all)
qed

lemma fire_ready_events_inv: "sched_inv cfg s \<Longrightarrow> sched_inv cfg (fire_ready_events c s)"
proof -
  assume i: "sched_inv cfg s"
  obtain es where es: "mset es = {#e \<in># mset (scheduled_events s). due c e \<and> work_order_events s (se_work_order e) \<noteq> None#}"
      "mset (scheduled_events (fire_ready_events c s))
         = {#e \<in># mset (scheduled_events s). \<not> due c e#} + image_mset (advance c) {#e \<in># mset es. keeps c e#}"
      "work_order_events (fire_ready_events c s) = work_order_events s"
      "sc_config (fire_ready_events c s) = sc_config s"
    by (rule fire_ready_events_spec [where s = s and c = c]) blast
  have "e \<in> set (scheduled_events s)" if "e \<in> set es" for e
    using arg_cong [OF es(1), of set_mset] that by auto
  moreover have "set (scheduled_events (fire_ready_events c s))
      = {e \<in> set (scheduled_events s). \<not> due c e} \<union> advance c ` {e \<in> set es. keeps c e}"
    using arg_cong [OF es(2), of set_mset] by auto
  ultimately show ?thesis using i es(3,4) by (auto simp: sched_inv_def intro: advance_ok)
qed

lemma add_scheduled_event_inv:
  assumes "sched_inv cfg s" "schedule_ok cfg sch 0"
  shows "sched_inv cfg (add_scheduled_event c w hnd sch s)"
  using assms
  by (auto simp: sched_inv_def event_ok_def add_scheduled_event_def Let_def heap_push_def)

lemma remove_work_order_inv: "sched_inv cfg s \<Longrightarrow> sched_inv cfg (remove_work_order w s)"
proof -
  assume i: "sched_inv cfg s"
  have "set (keep_other_events w (scheduled_events s) []) = {e \<in> set (scheduled_events s). se_work_order e \<noteq> w}"
    using arg_cong [OF keep_other_events_mset [of w "scheduled_events s" "[]"], of set_mset] by simp
  with i show ?thesis by (auto simp: sched_inv_def event_ok_def remove_work_order_def)
qed

lemma handle_command_inv: "sched_inv cfg s \<Longrightarrow> sched_inv cfg (fst (handle_command c cmd s))"
proof (cases cmd)
  case (AddScheduledEvent w hnd sch)
  assume i: "sched_inv cfg s"
  then have "sc_config s = cfg" by (simp add: sched_inv_def)
  with i show ?thesis
    by (auto simp: handle_command_def AddScheduledEvent
        intro: add_scheduled_event_inv validate_schedule_ok split: sum.split)
qed (simp_all add: handle_command_def remove_work_order_inv)

lemma run_iteration_inv: "sched_inv cfg s \<Longrightarrow> sched_inv cfg (fst (run_iteration c w s))"
  by (cases w) (simp_all add: run_iteration_def handle_command_inv fire_ready_events_inv)

lemma sched_run_inv: "sched_run cfg tr s \<Longrightarrow> sched_inv cfg s"
proof (induction rule: sched_run.induct)
  case start
  show ?case by (simp add: sched_inv_def scheduler_new_def)
next
  case (round tr s c w s')
  then show ?case using run_iteration_inv [of cfg s c w] by simp
next
  case (hang_up tr s)
  then show ?case by (simp add: sched_inv_def)
qed

section \<open>The abstract scheduler\<close>

text \<open>
  What the service promises: a bag of active events and the log of what was fired. Firing removes
  every due event, logs them in the order of their fire times and brings back, with its next time
  and count, each one that goes on.
\<close>

inductive spec_step ::
  "scheduler_config \<Rightarrow> clock \<Rightarrow> wake \<Rightarrow> scheduled_event multiset \<times> scheduled_event_fired list
     \<Rightarrow> scheduled_event multiset \<times> scheduled_event_fired list \<Rightarrow> bool" for cfg c where
  accept: "validate_schedule (utc_now c) sch cfg = Inr () \<Longrightarrow>
     spec_step cfg c (Received (AddScheduledEvent w hnd sch)) (M, log)
       (add_mset \<lparr>se_work_order = w, se_handler = hnd,
          next_fire_time = calculate_next_fire_time (utc_now c) sch (mono_now c),
          se_schedule = sch, occurrence_count = 0\<rparr> M, log)"
| reject: "validate_schedule (utc_now c) sch cfg = Inl e \<Longrightarrow>
     spec_step cfg c (Received (AddScheduledEvent w hnd sch)) (M, log) (M, log)"
| remove: "spec_step cfg c (Received (RemoveWorkOrder w)) (M, log)
     ({#e \<in># M. se_work_order e \<noteq> w#}, log)"
| stop: "spec_step cfg c (Received StopScheduler) (M, log) (M, log)"
| fire: "mset es = {#e \<in># M. due c e#} \<Longrightarrow> sorted (map next_fire_time es) \<Longrightarrow>
     spec_step cfg c TimedOut (M, log)
       ({#e \<in># M. \<not> due c e#} + image_mset (advance c) {#e \<in># M. due c e \<and> keeps c e#},
        log @ map fired_of es)"

definition sched_abs :: "scheduler \<Rightarrow> scheduled_event multiset \<times> scheduled_event_fired list" where
  "sched_abs s = (mset (scheduled_events s), sc_sent s)"

lemma tracked_filter:
  assumes "sched_inv cfg s"
  shows "{#e \<in># mset (scheduled_events s). due c e \<and> work_order_events s (se_work_order e) \<noteq> None#}
    = {#e \<in># mset (scheduled_events s). due c e#}"
  by (rule filter_mset_cong) (use assms in \<open>auto simp: sched_inv_def event_ok_def\<close>)

lemma fire_ready_events_refines:
  assumes "sched_inv cfg s" "sc_receiver s"
  shows "spec_step cfg c TimedOut (sched_abs s) (sched_abs (fire_ready_events c s))"
proof -
  obtain es where es: "sorted (map next_fire_time es)"
      "mset es = {#e \<in># mset (scheduled_events s). due c e \<and> work_order_events s (se_work_order e) \<noteq> None#}"
      "sc_sent (fire_ready_events c s) = sc_sent s @ (if sc_receiver s then map fired_of es else [])"
      "mset (scheduled_events (fire_ready_events c s))
         = {#e \<in># mset (scheduled_events s). \<not> due c e#} + image_mset (advance c) {#e \<in># mset es. keeps c e#}"
    by (rule fire_ready_events_spec [where s = s and c = c]) blast
  have m: "mset es = {#e \<in># mset (scheduled_events s). due c e#}"
    using es(2) tracked_filter [OF assms(1)] by simp
  then have "{#e \<in># mset es. keeps c e#} = {#e \<in># mset (scheduled_events s). due c e \<and> keeps c e#}"
    by (simp add: filter_filter_mset conj_commute)
  with spec_step.fire [OF m es(1), of cfg "sc_sent s"] es(3,4) assms(2) show ?thesis
    by (simp add: sched_abs_def)
qed

lemma handle_command_refines:
  assumes "sc_config s = cfg"
  shows "spec_step cfg c (Received cmd) (sched_abs s) (sched_abs (fst (handle_command c cmd s)))"
proof (cases cmd)
  case (AddScheduledEvent w hnd sch)
  then show ?thesis using assms
    by (auto simp: handle_command_def sched_abs_def add_scheduled_event_def Let_def
        event_heap.items_push split: sum.split intro: spec_step.intros)
qed (auto simp: handle_command_def sched_abs_def remove_work_order_def keep_other_events_mset
    intro: spec_step.intros)

section \<open>Counting occurrences\<close>

fun schedule_remaining :: "schedule \<Rightarrow> u64 \<Rightarrow> nat" where
  "schedule_remaining (Rate r) n = (case max_occurrences r of Some m \<Rightarrow> unat m - unat n | None \<Rightarrow> 0)"

fun schedule_capped :: "schedule \<Rightarrow> bool" where
  "schedule_capped (Rate r) \<longleftrightarrow> max_occurrences r \<noteq> None"

text \<open>The occurrences that an added schedule of a work order's handler may use.\<close>

fun added_budget :: "string \<Rightarrow> string \<Rightarrow> wake \<Rightarrow> nat" where
  "added_budget w hnd (Received (AddScheduledEvent w' hnd' sch)) =
     (if w' = w \<and> hnd' = hnd then schedule_remaining sch 0 else 0)"
| "added_budget w hnd _ = 0"

fun added_capped :: "string \<Rightarrow> string \<Rightarrow> wake \<Rightarrow> bool" where
  "added_capped w hnd (Received (AddScheduledEvent w' hnd' sch)) \<longleftrightarrow>
     (w' = w \<and> hnd' = hnd \<longrightarrow> schedule_capped sch)"
| "added_capped w hnd _ \<longleftrightarrow> True"

definition times_fired :: "string \<Rightarrow> string \<Rightarrow> scheduled_event_fired list \<Rightarrow> nat" where
  "times_fired w hnd log = length (filter (\<lambda>f. ef_work_order f = w \<and> ef_handler f = hnd) log)"

definition weight :: "string \<Rightarrow> string \<Rightarrow> scheduled_event \<Rightarrow> nat" where
  "weight w hnd e = (if se_work_order e = w \<and> se_handler e = hnd
     then schedule_remaining (se_schedule e) (occurrence_count e) else 0)"

definition capped_for :: "string \<Rightarrow> string \<Rightarrow> scheduled_event \<Rightarrow> bool" where
  "capped_for w hnd e \<longleftrightarrow>
     (se_work_order e = w \<and> se_handler e = hnd \<longrightarrow> schedule_capped (se_schedule e))"

lemma times_fired_append [simp]: "times_fired w hnd (xs @ ys) = times_fired w hnd xs + times_fired w hnd ys"
  by (simp add: times_fired_def)

lemma capped_for_advance [simp]: "capped_for w hnd (advance c e) = capped_for w hnd e"
  by (simp add: capped_for_def)

lemma unat_inc: "n < (m :: 'a :: len word) \<Longrightarrow> unat (n + 1) = unat n + 1"
proof -
  assume "n < m"
  moreover have "unat m < 2 ^ LENGTH('a)" by (rule unsigned_less)
  ultimately have "unat n + 1 < 2 ^ LENGTH('a)" unfolding word_less_nat_alt by linarith
  then show ?thesis by (simp add: unat_word_ariths)
qed

lemma remove_work_order_simps [simp]:
  "sc_sent (remove_work_order w s) = sc_sent s"
  "sc_receiver (remove_work_order w s) = sc_receiver s"
  by (simp_all add: remove_work_order_def)

lemma firing_spends:
  assumes "event_ok cfg orders e" "capped_for w hnd e"
  shows "times_fired w hnd [fired_of e] + (if keeps c e then weight w hnd (advance c e) else 0)
    \<le> weight w hnd e"
proof (cases "se_work_order e = w \<and> se_handler e = hnd")
  case True
  obtain r where r: "se_schedule e = Rate r" by (cases "se_schedule e")
  from assms(2) True obtain m where m: "max_occurrences r = Some m"
    by (auto simp: capped_for_def r)
  from assms(1) have lt: "occurrence_count e < m" by (simp add: event_ok_def r m)
  then have "unat (occurrence_count e + 1) = unat (occurrence_count e) + 1"
    by (rule unat_inc)
  with lt True show ?thesis
    by (auto simp: times_fired_def fired_of_def weight_def r m word_less_nat_alt)
qed (auto simp: times_fired_def fired_of_def weight_def)

lemma firings_spend:
  assumes "\<forall>e \<in> set es. event_ok cfg orders e \<and> capped_for w hnd e"
  shows "times_fired w hnd (map fired_of es)
      + \<Sum>\<^sub># (image_mset (\<lambda>e. weight w hnd (advance c e)) {#e \<in># mset es. keeps c e#})
    \<le> \<Sum>\<^sub># (image_mset (weight w hnd) (mset es))"
  using assms
proof (induction es)
  case (Cons e es)
  have "times_fired w hnd (map fired_of (e # es))
      = times_fired w hnd [fired_of e] + times_fired w hnd (map fired_of es)"
    by (simp add: times_fired_def)
  with Cons firing_spends [of cfg orders e w hnd c] show ?case by (auto split: if_splits)
qed (simp add: times_fired_def)

definition spent :: "string \<Rightarrow> string \<Rightarrow> scheduler \<Rightarrow> nat" where
  "spent w hnd s = times_fired w hnd (sc_sent s)
     + \<Sum>\<^sub># (image_mset (weight w hnd) (mset (scheduled_events s)))"

lemma fire_ready_events_spent:
  assumes "sched_inv cfg s" "\<forall>e \<in> set (scheduled_events s). capped_for w hnd e"
  shows "spent w hnd (fire_ready_events c s) \<le> spent w hnd s
    \<and> (\<forall>e \<in> set (scheduled_events (fire_ready_events c s)). capped_for w hnd e)"
proof -
  obtain es where es:
      "mset es = {#e \<in># mset (scheduled_events s). due c e \<and> work_order_events s (se_work_order e) \<noteq> None#}"
      "sc_sent (fire_ready_events c s) = sc_sent s @ (if sc_receiver s then map fired_of es else [])"
      "mset (scheduled_events (fire_ready_events c s))
         = {#e \<in># mset (scheduled_events s). \<not> due c e#} + image_mset (advance c) {#e \<in># mset es. keeps c e#}"
    by (rule fire_ready_events_spec [where s = s and c = c]) blast
  have m: "mset es = {#e \<in># mset (scheduled_events s). due c e#}"
    using es(1) tracked_filter [OF assms(1)] by simp
  have sub: "set es \<subseteq> set (scheduled_events s)" using arg_cong [OF m, of set_mset] by auto
  have "mset (scheduled_events s) = mset es + {#e \<in># mset (scheduled_events s). \<not> due c e#}"
    unfolding m by (rule multiset_partition)
  then have sum: "\<Sum>\<^sub># (image_mset (weight w hnd) (mset (scheduled_events s)))
      = \<Sum>\<^sub># (image_mset (weight w hnd) (mset es))
        + \<Sum>\<^sub># (image_mset (weight w hnd) {#e \<in># mset (scheduled_events s). \<not> due c e#})"
    by (metis image_mset_union sum_mset.union)
  have "\<forall>e \<in> set es. event_ok cfg (work_order_events s) e \<and> capped_for w hnd e"
    using sub assms by (auto simp: sched_inv_def)
  from firings_spend [OF this, of c] have "spent w hnd (fire_ready_events c s) \<le> spent w hnd s"
    unfolding spent_def es(2,3) sum by (auto simp: multiset.map_comp comp_def times_fired_def)
  moreover have "capped_for w hnd e" if "e \<in> set (scheduled_events (fire_ready_events c s))" for e
    using arg_cong [OF es(3), of set_mset] that sub assms(2) by auto
  ultimately show ?thesis by blast
qed

lemma remove_work_order_events:
  "mset (scheduled_events (remove_work_order w s))
     = {#e \<in># mset (scheduled_events s). se_work_order e \<noteq> w#}"
  by (simp add: remove_work_order_def keep_other_events_mset)

lemma sum_filter_le: "\<Sum>\<^sub># (image_mset f {#x \<in># M. P x#}) \<le> (\<Sum>\<^sub># (image_mset f M) :: nat)"
  by (induction M) auto

lemma handle_command_spent:
  assumes "sched_inv cfg s" "\<forall>e \<in> set (scheduled_events s). capped_for w hnd e"
    and "added_capped w hnd (Received cmd)"
  shows "spent w hnd (fst (handle_command c cmd s)) \<le> spent w hnd s + added_budget w hnd (Received cmd)
    \<and> (\<forall>e \<in> set (scheduled_events (fst (handle_command c cmd s))). capped_for w hnd e)"
proof (cases cmd)
  case (RemoveWorkOrder x)
  have "e \<in> set (scheduled_events s)" if "e \<in> set (scheduled_events (remove_work_order x s))" for e
    using arg_cong [OF remove_work_order_events [of x s], of set_mset] that by auto
  then show ?thesis using assms(2)
    by (auto simp: handle_command_def RemoveWorkOrder spent_def remove_work_order_events
        sum_filter_le)
qed (use assms in \<open>auto simp: handle_command_def spent_def add_scheduled_event_def Let_def
    heap_push_def weight_def capped_for_def split: sum.split\<close>)

lemma run_iteration_spent:
  assumes "sched_inv cfg s" "\<forall>e \<in> set (scheduled_events s). capped_for w hnd e"
    and "added_capped w hnd x"
  shows "spent w hnd (fst (run_iteration c x s)) \<le> spent w hnd s + added_budget w hnd x
    \<and> (\<forall>e \<in> set (scheduled_events (fst (run_iteration c x s))). capped_for w hnd e)"
  using assms handle_command_spent [OF assms(1,2)] fire_ready_events_spent [OF assms(1,2)]
  by (cases x) (auto simp: run_iteration_def)

lemma sched_run_spent:
  "sched_run cfg tr s \<Longrightarrow> \<forall>x \<in> set tr. added_capped w hnd (snd x)
    \<Longrightarrow> spent w hnd s \<le> sum_list (map (added_budget w hnd \<circ> snd) tr)
      \<and> (\<forall>e \<in> set (scheduled_events s). capped_for w hnd e)"
proof (induction rule: sched_run.induct)
  case start
  show ?case by (simp add: spent_def scheduler_new_def times_fired_def)
next
  case (round tr s c x s')
  have i: "sched_inv cfg s" by (rule sched_run_inv [OF round.hyps(1)])
  from round.IH round.prems have ih: "spent w hnd s \<le> sum_list (map (added_budget w hnd \<circ> snd) tr)"
    "\<forall>e \<in> set (scheduled_events s). capped_for w hnd e" and x: "added_capped w hnd x" by (simp_all add: comp_def)
  from run_iteration_spent [OF i ih(2) x, of c] ih(1) round.hyps(2) show ?case by (simp add: comp_def)
next
  case (hang_up tr s)
  then show ?case by (simp add: spent_def)
qed

definition run_rounds :: "(clock \<times> wake) list \<Rightarrow> scheduler \<Rightarrow> scheduler" where
  "run_rounds tr s = foldl (\<lambda>s (c, x). fst (run_iteration c x s)) s tr"

lemma run_iteration_silent:
  assumes "\<forall>e \<in> set (scheduled_events s). se_work_order e \<noteq> w"
    and "\<forall>hnd sch. x \<noteq> Received (AddScheduledEvent w hnd sch)"
  shows "(\<forall>e \<in> set (scheduled_events (fst (run_iteration c x s))). se_work_order e \<noteq> w)
    \<and> filter (\<lambda>f. ef_work_order f = w) (sc_sent (fst (run_iteration c x s)))
        = filter (\<lambda>f. ef_work_order f = w) (sc_sent s)"
proof (cases x)
  case TimedOut
  obtain es where es:
      "mset es = {#e \<in># mset (scheduled_events s). due c e \<and> work_order_events s (se_work_order e) \<noteq> None#}"
      "sc_sent (fire_ready_events c s) = sc_sent s @ (if sc_receiver s then map fired_of es else [])"
      "mset (scheduled_events (fire_ready_events c s))
         = {#e \<in># mset (scheduled_events s). \<not> due c e#} + image_mset (advance c) {#e \<in># mset es. keeps c e#}"
    by (rule fire_ready_events_spec [where s = s and c = c]) blast
  have "\<forall>e \<in> set es. se_work_order e \<noteq> w"
    using arg_cong [OF es(1), of set_mset] assms(1) by auto
  moreover have "set (scheduled_events (fire_ready_events c s))
      = {e \<in> set (scheduled_events s). \<not> due c e} \<union> advance c ` {e \<in> set es. keeps c e}"
    using arg_cong [OF es(3), of set_mset] by auto
  ultimately show ?thesis using assms(1)
    by (auto simp: TimedOut run_iteration_def es(2) fired_of_def filter_empty_conv)
next
  case (Received cmd)
  have "e \<in> set (scheduled_events s)" if "e \<in> set (scheduled_events (remove_work_order y s))" for e y
    using arg_cong [OF remove_work_order_events [of y s], of set_mset] that by auto
  then show ?thesis using assms
    by (cases cmd) (auto simp: Received run_iteration_def handle_command_def add_scheduled_event_def
        Let_def heap_push_def split: sum.split)
qed (use assms in \<open>simp add: run_iteration_def\<close>)

section \<open>Properties\<close>

definition sample_config :: scheduler_config where
  "sample_config = \<lparr>min_schedule_interval_ms = 10\<rparr>"

definition sample_trace :: "(clock \<times> wake) list" where
  "sample_trace =
    [(\<lparr>mono_now = 0, utc_now = 0\<rparr>, Received (AddScheduledEvent ''wo'' ''tick''
        (Rate ((rate_mode_new 50)\<lparr>max_occurrences := Some 2\<rparr>)))),
     (\<lparr>mono_now = 50000000, utc_now = 50000000\<rparr>, TimedOut)]"

definition sample_scheduler :: scheduler where
  "sample_scheduler = run_rounds sample_trace (scheduler_new sample_config)"

lemma sched_run_append:
  "sched_run cfg tr s \<Longrightarrow> \<forall>x \<in> set tr'. snd x \<noteq> ChannelClosed
    \<Longrightarrow> sched_run cfg (tr @ tr') (run_rounds tr' s)"
proof (induction tr' arbitrary: tr s)
  case (Cons x tr')
  obtain c y where x: "x = (c, y)" by fastforce
  have "run_iteration c y s = (fst (run_iteration c y s), True)"
    using Cons.prems(2) by (auto simp: x run_iteration_def split: wake.split)
  from Cons.IH [OF sched_run.round [OF Cons.prems(1) this]] Cons.prems(2) show ?case
    by (simp add: run_rounds_def x)
qed (simp add: run_rounds_def)

lemma sample_sched_run: "sched_run sample_config sample_trace sample_scheduler"
  using sched_run_append [OF sched_run.start, of sample_trace sample_config]
  by (simp add: sample_scheduler_def sample_trace_def)

lemmas sched_eval = run_iteration_def handle_command_def add_scheduled_event_def fire_ready_events_def
  fire_loop.simps heap_push_def heap_pop_def calculate_rate_mode_next_fire_time_def ms_to_ns_def
  should_reschedule_def fired_of_def wait_duration_def rbind_def Let_def

lemma sample_scheduler_eval:
  "sc_receiver sample_scheduler \<and> scheduled_events sample_scheduler =
     [\<lparr>se_work_order = ''wo'', se_handler = ''tick'', next_fire_time = 100000000,
       se_schedule = Rate ((rate_mode_new 50)\<lparr>max_occurrences := Some 2\<rparr>), occurrence_count = 1\<rparr>]
   \<and> sc_sent sample_scheduler = [\<lparr>ef_work_order = ''wo'', ef_handler = ''tick''\<rparr>]"
  by (simp add: sample_scheduler_def sample_trace_def sample_config_def scheduler_new_def run_rounds_def
      sched_eval rate_mode_new_def, simp add: word_le_nat_alt)

text \<open>
  C11: The service implements its specification: in every reachable state, each round of the loop (a
  command, accepted, rejected or ignored, or a timeout) changes the bag of active events and the log
  of fired events as the abstract scheduler does, while the receiver exists; in particular no due
  event is dropped or fired twice and due events are fired in the order of their times.
\<close>

theorem scheduler_refines_spec:
  assumes "sched_run cfg tr s" "sc_receiver s" "x \<noteq> ChannelClosed"
  shows "spec_step cfg c x (sched_abs s) (sched_abs (fst (run_iteration c x s)))
    \<and> snd (run_iteration c x s)"
proof -
  have i: "sched_inv cfg s" by (rule sched_run_inv [OF assms(1)])
  then have "sc_config s = cfg" by (simp add: sched_inv_def)
  with i assms(2,3) show ?thesis
    by (cases x) (auto simp: run_iteration_def handle_command_refines fire_ready_events_refines)
qed

theorem scheduler_refines_spec_witness:
  "spec_step sample_config \<lparr>mono_now = 100000000, utc_now = 100000000\<rparr> TimedOut
     (sched_abs sample_scheduler)
     (sched_abs (fst (run_iteration \<lparr>mono_now = 100000000, utc_now = 100000000\<rparr> TimedOut sample_scheduler)))"
  using scheduler_refines_spec [OF sample_sched_run, of TimedOut "\<lparr>mono_now = 100000000, utc_now = 100000000\<rparr>"]
    sample_scheduler_eval by simp

text \<open>
  A handler is fired at most as often as its schedules allow: in every run in which all schedules
  that were added for a handler of a work order have a maximum, the handler has fired at most the sum
  of these maxima.
\<close>

theorem occurrences_bounded:
  assumes "sched_run cfg tr s" "\<forall>x \<in> set tr. added_capped w hnd (snd x)"
  shows "times_fired w hnd (sc_sent s) \<le> sum_list (map (added_budget w hnd \<circ> snd) tr)"
  using sched_run_spent [OF assms] by (simp add: spent_def)

theorem occurrences_bounded_witness:
  "times_fired ''wo'' ''tick'' (sc_sent sample_scheduler) \<le> 2"
  using occurrences_bounded [OF sample_sched_run, of "''wo''" "''tick''"] by (simp add: sample_trace_def)

text \<open>
  Pacing: after the due events have been fired nothing is left that is due, so the loop sleeps, and
  an event that was brought back waits at least the configured minimum interval, unless its start
  time is still ahead by the wall clock.
\<close>

theorem firing_paced:
  assumes "sched_run cfg tr s" "0 < min_schedule_interval_ms cfg"
    and "e \<in> set (scheduled_events (fire_ready_events c s))"
  shows "mono_now c < next_fire_time e \<and> 0 < wait_duration (mono_now c) (fire_ready_events c s)
    \<and> (e \<in> set (scheduled_events s)
       \<or> mono_now c + ms_to_ns (min_schedule_interval_ms cfg) \<le> next_fire_time e
       \<or> (\<exists>r st. se_schedule e = Rate r \<and> start_at r = Some st \<and> utc_now c < st))"
proof -
  have i: "sched_inv cfg s" by (rule sched_run_inv [OF assms(1)])
  obtain es where es:
      "mset es = {#e \<in># mset (scheduled_events s). due c e \<and> work_order_events s (se_work_order e) \<noteq> None#}"
      "mset (scheduled_events (fire_ready_events c s))
         = {#e \<in># mset (scheduled_events s). \<not> due c e#} + image_mset (advance c) {#e \<in># mset es. keeps c e#}"
    by (rule fire_ready_events_spec [where s = s and c = c]) blast
  have "set (scheduled_events (fire_ready_events c s))
      = {e \<in> set (scheduled_events s). \<not> due c e} \<union> advance c ` {e \<in> set es. keeps c e}"
    using arg_cong [OF es(2), of set_mset] by auto
  moreover have "set es \<subseteq> set (scheduled_events s)" using arg_cong [OF es(1), of set_mset] by auto
  ultimately have ev: "(f \<in> set (scheduled_events s) \<and> \<not> due c f)
      \<or> (\<exists>g \<in> set (scheduled_events s). f = advance c g)"
    if "f \<in> set (scheduled_events (fire_ready_events c s))" for f using that by auto
  have adv: "mono_now c < next_fire_time (advance c g)
      \<and> (mono_now c + ms_to_ns (min_schedule_interval_ms cfg) \<le> next_fire_time (advance c g)
         \<or> (\<exists>r st. se_schedule g = Rate r \<and> start_at r = Some st \<and> utc_now c < st))"
    if "g \<in> set (scheduled_events s)" for g
  proof -
    obtain r where r: "se_schedule g = Rate r" by (cases "se_schedule g")
    have "min_schedule_interval_ms cfg \<le> period_ms r"
      using i that by (auto simp: sched_inv_def event_ok_def r)
    then have "unat (min_schedule_interval_ms cfg) \<le> unat (period_ms r)"
      "0 < unat (min_schedule_interval_ms cfg)" using assms(2) by (auto simp: word_le_nat_alt word_less_nat_alt)
    then show ?thesis
      by (auto simp: r calculate_rate_mode_next_fire_time_def ms_to_ns_def split: option.split)
  qed
  have later: "mono_now c < next_fire_time f"
    if "f \<in> set (scheduled_events (fire_ready_events c s))" for f
    using ev [OF that] adv by (auto simp: due_def)
  have "0 < wait_duration (mono_now c) (fire_ready_events c s)"
    using later heap_peek_Some by (fastforce simp: wait_duration_def split: option.split)
  moreover have "mono_now c < next_fire_time e" by (rule later [OF assms(3)])
  ultimately show ?thesis using ev [OF assms(3)] adv by (metis advance_simps(3))
qed

theorem firing_paced_witness:
  "mono_now \<lparr>mono_now = 100, utc_now = 100\<rparr> < 100000000
    \<and> 0 < wait_duration 100 (fire_ready_events \<lparr>mono_now = 100, utc_now = 100\<rparr> sample_scheduler)"
proof -
  let ?c = "\<lparr>mono_now = 100, utc_now = 100\<rparr>"
  let ?e = "hd (scheduled_events sample_scheduler)"
  have "?e \<in> set (scheduled_events (fire_ready_events ?c sample_scheduler))"
    using sample_scheduler_eval by (simp add: fire_ready_events_def fire_loop.simps)
  from firing_paced [OF sample_sched_run _ this] sample_scheduler_eval show ?thesis
    by (simp add: sample_config_def)
qed

text \<open>
  A removed work order is silent: after its removal none of its handlers is fired, whatever else
  happens, until an event is added for it again.
\<close>

theorem removed_work_order_silent:
  assumes "\<forall>x \<in> set tr. \<forall>hnd sch. snd x \<noteq> Received (AddScheduledEvent w hnd sch)"
  shows "filter (\<lambda>f. ef_work_order f = w) (sc_sent (run_rounds tr (remove_work_order w s)))
    = filter (\<lambda>f. ef_work_order f = w) (sc_sent s)"
proof -
  have "(\<forall>e \<in> set (scheduled_events (run_rounds tr s')). se_work_order e \<noteq> w)
      \<and> filter (\<lambda>f. ef_work_order f = w) (sc_sent (run_rounds tr s'))
          = filter (\<lambda>f. ef_work_order f = w) (sc_sent s')"
    if "\<forall>e \<in> set (scheduled_events s'). se_work_order e \<noteq> w" for s'
    using assms that
  proof (induction tr arbitrary: s')
    case (Cons x tr)
    obtain c y where x: "x = (c, y)" by fastforce
    from Cons.prems(1) run_iteration_silent [OF Cons.prems(2), of y c]
      Cons.IH [of "fst (run_iteration c y s')"]
    show ?case by (simp add: x run_rounds_def)
  qed (simp add: run_rounds_def)
  moreover have "\<forall>e \<in> set (scheduled_events (remove_work_order w s)). se_work_order e \<noteq> w"
    using arg_cong [OF remove_work_order_events [of w s], of set_mset] by auto
  ultimately show ?thesis by simp
qed

theorem removed_work_order_silent_witness:
  "filter (\<lambda>f. ef_work_order f = ''wo'')
     (sc_sent (run_rounds [(\<lparr>mono_now = 100000000, utc_now = 100000000\<rparr>, TimedOut)]
        (remove_work_order ''wo'' sample_scheduler)))
   = [\<lparr>ef_work_order = ''wo'', ef_handler = ''tick''\<rparr>]"
  using removed_work_order_silent [of "[(\<lparr>mono_now = 100000000, utc_now = 100000000\<rparr>, TimedOut)]"
      "''wo''" sample_scheduler] sample_scheduler_eval by simp

text \<open>
  Progress: when the loop's wait, computed at some time, runs out without a command, the earliest
  event is due and is the next one that is sent, whatever the number of events.
\<close>

theorem timeout_fires_earliest:
  assumes "sched_run cfg tr s" "sc_receiver s" "scheduled_events s \<noteq> []"
    and "t + wait_duration t s \<le> mono_now c"
  shows "\<exists>e rest. e \<in> set (scheduled_events s)
    \<and> (\<forall>f \<in> set (scheduled_events s). next_fire_time e \<le> next_fire_time f)
    \<and> sc_sent (fst (run_iteration c TimedOut s)) = sc_sent s @ fired_of e # rest"
proof -
  obtain e0 where peek: "heap_peek (scheduled_events s) = Some e0" using assms(3) by fastforce
  have e0: "due c e0" using assms(4) peek by (auto simp: wait_duration_def due_def split: if_splits)
  obtain es where es: "sorted (map next_fire_time es)"
      "mset es = {#e \<in># mset (scheduled_events s). due c e \<and> work_order_events s (se_work_order e) \<noteq> None#}"
      "sc_sent (fire_ready_events c s) = sc_sent s @ (if sc_receiver s then map fired_of es else [])"
    by (rule fire_ready_events_spec [where s = s and c = c]) blast
  have m: "mset es = {#e \<in># mset (scheduled_events s). due c e#}"
    using es(2) tracked_filter [OF sched_run_inv [OF assms(1)]] by simp
  have set: "set es = {e \<in> set (scheduled_events s). due c e}" using arg_cong [OF m, of set_mset] by simp
  with e0 heap_peek_Some [OF peek] obtain e rest where c: "es = e # rest" and "e0 \<in> set es"
    by (cases es) auto
  have "next_fire_time e \<le> next_fire_time e0" using es(1) \<open>e0 \<in> set es\<close> by (auto simp: c)
  with heap_peek_Some [OF peek] have "\<forall>f \<in> set (scheduled_events s). next_fire_time e \<le> next_fire_time f"
    using order_trans by blast
  moreover have "e \<in> set (scheduled_events s)" using set by (auto simp: c)
  ultimately show ?thesis using es(3) assms(2) by (auto simp: run_iteration_def c)
qed

theorem timeout_fires_earliest_witness:
  "\<exists>e rest. e \<in> set (scheduled_events sample_scheduler)
    \<and> sc_sent (fst (run_iteration \<lparr>mono_now = 100000000, utc_now = 0\<rparr> TimedOut sample_scheduler))
        = sc_sent sample_scheduler @ fired_of e # rest"
proof -
  have "60000000 + wait_duration 60000000 sample_scheduler \<le> mono_now \<lparr>mono_now = 100000000, utc_now = 0\<rparr>"
    using sample_scheduler_eval by (simp add: wait_duration_def)
  from timeout_fires_earliest [OF sample_sched_run _ _ this] sample_scheduler_eval show ?thesis by auto
qed

end
