(* ===== verification/Daemon_Orders.thy ===== *)
theory Daemon_Orders
  imports Daemon_Secrets Scheduler
begin

text \<open>
  Work orders: the orchestrator (\<open>src/node/daemon/src/services/work_order_orchestrator.rs\<close>), the gRPC
  handlers for them (\<open>grpc/work_orders.rs\<close>) and the two tasks of \<open>main.rs\<close> that turn fired schedules
  into deliveries and hand the deliveries to the enclave in batches.

  Submitting waits for missing secrets; the model splits the call there, as the secrets service does.
  \<open>prepare_work_order\<close> runs up to the wait and \<open>start_work_order\<close> from it. The state holds what the
  code keeps behind locks and what it has sent over its channels; a listener that it spawns is an
  entry of \<open>or_listeners\<close>.
\<close>

section \<open>State\<close>

record 'j active_work_order =
  aw_payload :: "'j work_order_payload"
  aw_worker_id :: string
  aw_hash :: string
  aw_vm_id :: string

record web3_listener =
  wl_order :: string
  wl_worker_id :: string
  wl_handler :: string
  wl_config :: web3_event

record 'j orchestrator =
  or_active :: "string \<rightharpoonup> 'j active_work_order"
  or_mounts :: "string \<rightharpoonup> string"
  or_queue :: "event_delivery list"
  or_queue_open :: bool
  or_scheduler :: scheduler_handle
  or_listeners :: "web3_listener list"
  or_vms :: vm_registry
  or_secrets :: secrets_service

record ('w, 'j, 'p) order_ext =
  ox_service :: "('w, 'j, 'p) service_ext"
  ox_sha256 :: "bytes \<Rightarrow> bytes"
  ox_b64url :: "bytes \<Rightarrow> string"
  ox_payload_json :: "bytes \<Rightarrow> string + 'j work_order_payload"
  ox_debug :: "app_error \<Rightarrow> string"
  ox_secret_text :: "secret_id \<Rightarrow> string"
  ox_identity_text :: "secret_id \<Rightarrow> string"
  ox_conversion_text :: "conversion_error \<Rightarrow> string"

text \<open>What a submission has established when it comes to run the worker.\<close>

record 'j prepared_order =
  po_hash :: string
  po_payload :: "'j work_order_payload"
  po_bundle :: worker_bundle
  po_vm_id :: string

datatype 'j submission =
    AlreadyActive string
  | AwaitSecrets u64 "'j prepared_order"
  | Prepared "'j prepared_order"

section \<open>Submitting\<close>

definition work_order_hash :: "('w, 'j, 'p) order_ext \<Rightarrow> bytes \<Rightarrow> string" where
  "work_order_hash ox dsse = ox_b64url ox (ox_sha256 ox dsse)"

definition inner_text :: "app_error \<Rightarrow> string" where
  "inner_text e = (case e of AppIo m \<Rightarrow> m | _ \<Rightarrow> app_error_text e)"

definition worker_consumer :: "('w, 'j, 'p) order_ext \<Rightarrow> worker_bundle \<Rightarrow> app_error + consumer_info" where
  "worker_consumer ox bundle =
    (let bx = dx_bundle (sx_daemon (ox_service ox)) in
     rbind (map_err (\<lambda>e. AppValidation (''Failed to hash worker bundle payload: '' @ ox_conversion_text ox e))
       (hash_signed_payload bx bundle)) (\<lambda>h.
     rbind (map_err (\<lambda>e. AppValidation (''Failed to get worker bundle signature: '' @ ox_conversion_text ox e))
       (get_dsse_signature bx bundle)) (\<lambda>sg.
     Inr (ConsumerInfo h sg))))"

fun authorize_identities ::
  "('w, 'j, 'p) order_ext \<Rightarrow> string \<Rightarrow> env_report \<Rightarrow> consumer_info \<Rightarrow> (secret_id \<times> string) list \<Rightarrow> ('w, unit) io" where
  "authorize_identities ox hash er ci [] = io_ok ()"
| "authorize_identities ox hash er ci ((sid, name) # ids) =
    (let sx = ox_service ox; dx = sx_daemon sx in
     io_bind (get_policy (dx_bundle dx) (dx_web3 dx) (dx_policy dx) (sx_policies sx) sid) (\<lambda>pkg.
     io_bind (io_map_app (\<lambda>e. AppService (''Policy execution for self-auth of secret ''
           @ ox_identity_text ox sid @ '' failed: '' @ app_error_text e))
         (check_policy_for_env dx pkg er sid ci)) (\<lambda>authorized.
     if \<not> authorized then io_fail (AppAuthorization (''Self-authorization policy denied for secret ''
       @ ox_secret_text ox sid @ '' for work order (hash: '' @ hash @ '')''))
     else authorize_identities ox hash er ci ids)))"

definition missing_requests ::
  "('w, 'j, 'p) service_ext \<Rightarrow> u64 \<Rightarrow> consumer_info \<Rightarrow> (secret_id \<times> bool \<times> u64) list \<Rightarrow> secret_requests" where
  "missing_requests sx now ci sts =
    map (\<lambda>i. (i, [\<lparr>sr_secret_id = i, sr_consumer = ci\<rparr>])) (sx_order sx (remdups
      (map fst (filter (\<lambda>(i, found, expiry). \<not> found \<or> (expiry \<noteq> 0 \<and> expiry \<le> now)) sts))))"

definition on_secrets :: "(secrets_service \<times> 'w, 'a) io \<Rightarrow> ('j orchestrator \<times> 'w, 'a) io" where
  "on_secrets m = (\<lambda>(s, w). case m (or_secrets s, w) of (r, (sv, w')) \<Rightarrow> (r, (s\<lparr>or_secrets := sv\<rparr>, w')))"

definition secrets_failure :: "('w, 'j, 'p) order_ext \<Rightarrow> string \<Rightarrow> app_error \<Rightarrow> app_error" where
  "secrets_failure ox hash e = AppService (''Failed to get secrets for work order '' @ hash @ '': ''
     @ (case e of AppIo m \<Rightarrow> m | _ \<Rightarrow> ox_debug ox e))"

text \<open>Step 8: the id of the request to wait for, if a secret is missing.\<close>

definition ensure_secrets ::
  "('w, 'j, 'p) order_ext \<Rightarrow> string \<Rightarrow> consumer_info \<Rightarrow> (secret_id \<times> string) list
     \<Rightarrow> ('j orchestrator \<times> 'w, u64 option) io" where
  "ensure_secrets ox hash ci ids =
    (let sx = ox_service ox; dx = sx_daemon sx in
     if ids = [] then io_ok None else
     io_bind (on_world (io_map_err (\<lambda>e. AppService (''Failed to check secrets for work order '' @ hash @ '': '' @ e))
         (client_check_secrets (dx_rpc dx) (map fst ids)))) (\<lambda>sts.
     io_bind (on_world (current_unix_time dx)) (\<lambda>now.
     let reqs = missing_requests sx now ci sts in
     if reqs = [] then io_ok None else
     io_bind (on_world (io_map_app (\<lambda>e. AppService (''Failed to get daemon env report for work order ''
           @ hash @ '': '' @ inner_text e))
         (get_own_env_report dx))) (\<lambda>er.
     io_map_app (\<lambda>e. secrets_failure ox hash e)
       (on_secrets (service_get_secrets sx reqs er))))))"

text \<open>Steps 1 to 3, the decoding of the envelope, around the test for a duplicate.\<close>

definition decode_payload ::
  "('w, 'j, 'p) order_ext \<Rightarrow> dsse_envelope \<Rightarrow> app_error + 'j work_order_payload" where
  "decode_payload ox env =
    (if dsse_payload_type env \<noteq> DSSE_WORK_ORDER_PAYLOAD_TYPE
     then Inl (AppService (''Invalid WorkOrder DSSE payloadType: expected '' @ [CHR 0x27] @ DSSE_WORK_ORDER_PAYLOAD_TYPE
       @ [CHR 0x27] @ '', got '' @ [CHR 0x27] @ dsse_payload_type env @ [CHR 0x27])) else
     rbind (map_err (\<lambda>e. AppService (''Failed to base64 decode WorkOrder payload: '' @ e))
       (b64_decode (dx_bundle (sx_daemon (ox_service ox))) (dsse_payload env))) (\<lambda>raw.
     map_err (\<lambda>e. AppService (''Failed to parse WorkOrderPayload: '' @ e)) (ox_payload_json ox raw)))"

definition prepare_decoded ::
  "('w, 'j, 'p) order_ext \<Rightarrow> string \<Rightarrow> 'j work_order_payload \<Rightarrow> ('j orchestrator \<times> 'w, 'j submission) io" where
  "prepare_decoded ox hash payload = (\<lambda>(s, w).
    (let sx = ox_service ox; dx = sx_daemon sx; manifest = wo_worker payload in
     io_bind (on_world (io_map_app (\<lambda>e. AppService (''Failed to fetch worker bundle from source ''
           @ [CHR 0x27] @ wbp_source (wm_bundle manifest) @ [CHR 0x27] @ '': '' @ inner_text e))
         (fetch_worker_bundle (dx_bundle dx) (dx_policy dx) (sx_policies sx) (wm_bundle manifest) ''work-order-context''))) (\<lambda>bundle.
     io_bind (io_of (map_err (\<lambda>e. AppValidation (''Failed to parse worker bundle payload: '' @ ox_conversion_text ox e))
         (bundle_payload (dx_bundle dx) bundle))) (\<lambda>bp.
     if \<not> has_vm (wb_vm bp) (or_vms s) then io_fail (AppValidation (''Work order (hash: '' @ hash
       @ '') requests VM '' @ [CHR 0x27] @ wb_vm bp @ [CHR 0x27] @ '', but it is not attached.'')) else
     io_bind (on_world (io_map_app (\<lambda>e. AppService (''Failed to get daemon env report for self-auth for work order ''
           @ hash @ '': '' @ inner_text e))
         (get_own_env_report dx))) (\<lambda>er.
     io_bind (io_of (worker_consumer ox bundle)) (\<lambda>ci.
     io_bind (on_world (authorize_identities ox hash er ci (wm_identities manifest))) (\<lambda>_.
     io_bind (ensure_secrets ox hash ci (wm_identities manifest)) (\<lambda>wait.
     let po = \<lparr>po_hash = hash, po_payload = payload, po_bundle = bundle, po_vm_id = wb_vm bp\<rparr> in
     io_ok (case wait of None \<Rightarrow> Prepared po | Some i \<Rightarrow> AwaitSecrets i po)))))))) (s, w))"

definition prepare_work_order ::
  "('w, 'j, 'p) order_ext \<Rightarrow> bytes \<Rightarrow> ('j orchestrator \<times> 'w, 'j submission) io" where
  "prepare_work_order ox dsse = (\<lambda>(s, w).
    (let hash = work_order_hash ox dsse in
     io_bind (io_of (map_err (\<lambda>e. AppService (''Failed to parse WorkOrder DSSE envelope: '' @ e))
         (envelope_from_json (dx_bundle (sx_daemon (ox_service ox))) dsse))) (\<lambda>env.
     if or_active s hash \<noteq> None then io_ok (AlreadyActive hash) else
     io_bind (io_of (decode_payload ox env)) (\<lambda>payload. prepare_decoded ox hash payload))) (s, w))"

section \<open>Starting\<close>

definition launch_delivery :: "string \<Rightarrow> worker_event \<Rightarrow> event_delivery" where
  "launch_delivery worker_id e =
    \<lparr>ed_worker_id = worker_id, ed_event_payload = Some (Some PLaunchEvent), ed_handler_name = handler e\<rparr>"

definition launch_events :: "worker_event list \<Rightarrow> worker_event list" where
  "launch_events evs = filter (\<lambda>e. event_kind e = Launch) evs"

fun web3_configs :: "worker_event list \<Rightarrow> web3_event list" where
  "web3_configs [] = []"
| "web3_configs (e # evs) = (case event_kind e of Web3Event c \<Rightarrow> c # web3_configs evs | _ \<Rightarrow> web3_configs evs)"

fun scheduled_handlers :: "worker_event list \<Rightarrow> (string \<times> schedule) list" where
  "scheduled_handlers [] = []"
| "scheduled_handlers (e # evs) = (case event_kind e of
      Scheduled sch \<Rightarrow> (handler e, sch) # scheduled_handlers evs | _ \<Rightarrow> scheduled_handlers evs)"

definition http_requested :: "worker_event list \<Rightarrow> bool" where
  "http_requested evs \<longleftrightarrow> (\<exists>e \<in> set evs. event_kind e = HttpRequest)"

text \<open>The handler of a listener is that of the first event with the same configuration.\<close>

definition listener_for :: "string \<Rightarrow> string \<Rightarrow> worker_event list \<Rightarrow> web3_event \<Rightarrow> web3_listener option" where
  "listener_for hash worker_id evs c =
    map_option (\<lambda>e. \<lparr>wl_order = hash, wl_worker_id = worker_id, wl_handler = handler e, wl_config = c\<rparr>)
      (List.find (\<lambda>e. event_kind e = Web3Event c) evs)"

fun spawn_listeners ::
  "string \<Rightarrow> string \<Rightarrow> worker_event list \<Rightarrow> web3_event list \<Rightarrow> ('j orchestrator \<times> 'w, unit) io" where
  "spawn_listeners hash worker_id evs [] = io_ok ()"
| "spawn_listeners hash worker_id evs (c # cs) =
    io_bind (io_of (ok_or (AppInternal ''Could not find original Web3Event config'')
        (listener_for hash worker_id evs c))) (\<lambda>l.
    io_bind (on_state (\<lambda>s. s\<lparr>or_listeners := or_listeners s @ [l]\<rparr>)) (\<lambda>_.
    spawn_listeners hash worker_id evs cs))"

fun schedule_all :: "string \<Rightarrow> (string \<times> schedule) list \<Rightarrow> ('j orchestrator \<times> 'w, unit) io" where
  "schedule_all hash [] = io_ok ()"
| "schedule_all hash ((h, sch) # rest) = (\<lambda>(s, w).
    (case handle_add_scheduled_event hash h sch (or_scheduler s) of
       (sh, Inl e) \<Rightarrow> (Inl (AppService (''Failed to schedule event for handler '' @ h @ '': '' @ e)),
                      (s\<lparr>or_scheduler := sh\<rparr>, w))
     | (sh, Inr _) \<Rightarrow> schedule_all hash rest (s\<lparr>or_scheduler := sh\<rparr>, w)))"

definition activate :: "'j prepared_order \<Rightarrow> string \<Rightarrow> 'j orchestrator \<Rightarrow> 'j orchestrator" where
  "activate po worker_id s = s\<lparr>or_active := (or_active s)(po_hash po \<mapsto>
     \<lparr>aw_payload = po_payload po, aw_worker_id = worker_id, aw_hash = po_hash po, aw_vm_id = po_vm_id po\<rparr>)\<rparr>"

definition queue_launches :: "string \<Rightarrow> worker_event list \<Rightarrow> 'j orchestrator \<Rightarrow> 'j orchestrator" where
  "queue_launches worker_id evs s =
    (if or_queue_open s then s\<lparr>or_queue := or_queue s @ map (launch_delivery worker_id) (launch_events evs)\<rparr> else s)"

definition mount_worker :: "string \<Rightarrow> string \<Rightarrow> worker_event list \<Rightarrow> 'j orchestrator \<Rightarrow> 'j orchestrator" where
  "mount_worker hash worker_id evs s =
    (if http_requested evs then s\<lparr>or_mounts := (or_mounts s)(hash \<mapsto> worker_id)\<rparr> else s)"

definition start_work_order ::
  "('w, 'j, 'p) order_ext \<Rightarrow> 'j prepared_order \<Rightarrow> ('j orchestrator \<times> 'w, string) io" where
  "start_work_order ox po =
    (let dx = sx_daemon (ox_service ox); evs = wo_events (po_payload po); hash = po_hash po in
     io_bind (io_of (map_err (\<lambda>e. AppInternal (''Failed to serialize worker manifest: '' @ e))
         (dx_manifest_to_json dx (wo_worker (po_payload po))))) (\<lambda>manifest.
     io_bind (on_world (io_map_err (\<lambda>e. AppService (''Failed to run worker in enclave for '' @ hash @ '': '' @ e))
         (client_run_worker (dx_rpc dx) hash (po_vm_id po) manifest (bundle_bytes (po_bundle po))))) (\<lambda>worker_id.
     io_bind (on_state (\<lambda>s. mount_worker hash worker_id evs (queue_launches worker_id evs (activate po worker_id s)))) (\<lambda>_.
     io_bind (\<lambda>(s, w). if launch_events evs = [] \<or> or_queue_open s
         then spawn_listeners hash worker_id evs (web3_configs evs) (s, w) else (Inr (), (s, w))) (\<lambda>_.
     io_bind (schedule_all hash (scheduled_handlers evs)) (\<lambda>_. io_ok hash))))))"

text \<open>The submission that waited resumes with the answer of the secrets service.\<close>

definition resume_work_order ::
  "('w, 'j, 'p) order_ext \<Rightarrow> 'j prepared_order \<Rightarrow> app_error + unit \<Rightarrow> ('j orchestrator \<times> 'w, string) io" where
  "resume_work_order ox po answer = (case answer of
      Inl e \<Rightarrow> io_fail (if e = AppPanic then AppPanic else secrets_failure ox (po_hash po) e)
    | Inr _ \<Rightarrow> start_work_order ox po)"

text \<open>The call as a whole, when no secret is missing or the order is known.\<close>

definition submit_work_order ::
  "('w, 'j, 'p) order_ext \<Rightarrow> bytes \<Rightarrow> ('j orchestrator \<times> 'w, string + u64 \<times> 'j prepared_order) io" where
  "submit_work_order ox dsse =
    io_bind (prepare_work_order ox dsse) (\<lambda>x. case x of
        AlreadyActive hash \<Rightarrow> io_ok (Inl hash)
      | Prepared po \<Rightarrow> io_bind (start_work_order ox po) (\<lambda>hash. io_ok (Inl hash))
      | AwaitSecrets i po \<Rightarrow> io_ok (Inr (i, po)))"

section \<open>Handlers of the daemon's own service\<close>

definition grpc_submit_response :: "app_error + string \<Rightarrow> string \<times> bool" where
  "grpc_submit_response r = (case r of Inr i \<Rightarrow> (i, True) | Inl _ \<Rightarrow> ([], False))"

record order_status =
  os_found :: bool
  os_is_running :: bool
  os_status_message :: string
  os_worker_id :: string
  os_vm_id :: string

definition WORKER_STATUS_RUNNING :: int where
  "WORKER_STATUS_RUNNING = 2"

definition order_worker_status ::
  "'w enclave_rpc \<Rightarrow> string \<Rightarrow> ('j orchestrator \<times> 'w, string, order_status) call" where
  "order_worker_status rpc order_id = (\<lambda>(s, w). case or_active s order_id of
      None \<Rightarrow> (Inr \<lparr>os_found = False, os_is_running = False,
                os_status_message = ''Work order not found or not active'', os_worker_id = [], os_vm_id = []\<rparr>, (s, w))
    | Some aw \<Rightarrow> io_bind (on_world (client_check_worker_status rpc (aw_worker_id aw))) (\<lambda>(st, msg).
        io_ok \<lparr>os_found = True, os_is_running = (st = WORKER_STATUS_RUNNING), os_status_message = msg,
               os_worker_id = aw_worker_id aw, os_vm_id = aw_vm_id aw\<rparr>) (s, w))"

section \<open>Tasks of the main program\<close>

text \<open>A fired schedule becomes a delivery to the worker of its work order.\<close>

definition scheduled_delivery :: "'j orchestrator \<Rightarrow> scheduled_event_fired \<Rightarrow> event_delivery option" where
  "scheduled_delivery s f = map_option (\<lambda>aw.
      \<lparr>ed_worker_id = aw_worker_id aw, ed_event_payload = Some (Some PScheduledEvent), ed_handler_name = ef_handler f\<rparr>)
    (or_active s (ef_work_order f))"

definition forward_scheduled :: "scheduled_event_fired \<Rightarrow> 'j orchestrator \<Rightarrow> 'j orchestrator" where
  "forward_scheduled f s = (case scheduled_delivery s f of
      Some d \<Rightarrow> if or_queue_open s then s\<lparr>or_queue := or_queue s @ [d]\<rparr> else s
    | None \<Rightarrow> s)"

definition EVENT_BATCH_SIZE :: nat where
  "EVENT_BATCH_SIZE = 100"

text \<open>
  The task that hands events to the enclave: the queue it reads, the batch it fills and the batches
  it has tried to deliver. A batch that the enclave does not accept is dropped.
\<close>

record delivery_task =
  dt_queue :: "event_delivery list"
  dt_batch :: "event_delivery list"
  dt_attempted :: "event_delivery list list"
  dt_open :: bool
  dt_stopped :: bool

datatype delivery_op = Enqueue event_delivery | SendersDropped | ReceiveEvent | TickElapsed | DeliveryShutdown

definition delivery_new :: delivery_task where
  "delivery_new = \<lparr>dt_queue = [], dt_batch = [], dt_attempted = [], dt_open = True, dt_stopped = False\<rparr>"

definition flush_if_due :: "delivery_task \<Rightarrow> delivery_task" where
  "flush_if_due d =
    (if EVENT_BATCH_SIZE \<le> length (dt_batch d) \<or> (dt_batch d \<noteq> [] \<and> dt_queue d = [])
     then d\<lparr>dt_attempted := dt_attempted d @ [dt_batch d], dt_batch := []\<rparr> else d)"

fun delivery_step :: "delivery_task \<Rightarrow> delivery_op \<Rightarrow> delivery_task" where
  "delivery_step d (Enqueue e) = (if dt_stopped d \<or> \<not> dt_open d then d else d\<lparr>dt_queue := dt_queue d @ [e]\<rparr>)"
| "delivery_step d SendersDropped = d\<lparr>dt_open := False\<rparr>"
| "delivery_step d ReceiveEvent = (if dt_stopped d then d else case dt_queue d of
      [] \<Rightarrow> if dt_open d then d else d\<lparr>dt_stopped := True\<rparr>
    | e # q \<Rightarrow> flush_if_due (d\<lparr>dt_queue := q, dt_batch := dt_batch d @ [e]\<rparr>))"
| "delivery_step d TickElapsed = (if dt_stopped d \<or> dt_batch d = [] then d else flush_if_due d)"
| "delivery_step d DeliveryShutdown = (if dt_stopped d then d else
     d\<lparr>dt_attempted := dt_attempted d @ (if dt_batch d = [] then [] else [dt_batch d]), dt_batch := [],
       dt_stopped := True\<rparr>)"

section \<open>What starting does\<close>

lemma web3_config_listener: "c \<in> set (web3_configs evs) \<Longrightarrow> \<exists>l. listener_for hash wid evs c = Some l"
proof -
  assume "c \<in> set (web3_configs evs)"
  then have "\<exists>e \<in> set evs. event_kind e = Web3Event c"
    by (induction evs) (auto split: worker_event_kind.splits)
  then have "List.find (\<lambda>e. event_kind e = Web3Event c) evs \<noteq> None" by (auto simp: find_None_iff)
  then show ?thesis by (auto simp: listener_for_def)
qed

lemma spawn_listeners_eq:
  "set cs \<subseteq> set (web3_configs evs) \<Longrightarrow> spawn_listeners hash wid evs cs (s, w)
    = (Inr (), (s\<lparr>or_listeners := or_listeners s @ map (\<lambda>c. the (listener_for hash wid evs c)) cs\<rparr>, w))"
proof (induction cs arbitrary: s)
  case (Cons c cs)
  then obtain l where "listener_for hash wid evs c = Some l" using web3_config_listener [of c] by force
  with Cons show ?case by (simp add: io_bind_def io_of_def on_state_def)
qed (simp add: io_ok_def)

definition order_commands :: "string \<Rightarrow> worker_event list \<Rightarrow> scheduler_command list" where
  "order_commands hash evs = map (\<lambda>(h, sch). AddScheduledEvent hash h sch) (scheduled_handlers evs)"

lemma schedule_all_running:
  "sh_running (or_scheduler s) \<Longrightarrow> schedule_all hash hs (s, w) = (Inr (), (s\<lparr>or_scheduler :=
      (or_scheduler s)\<lparr>sh_commands := sh_commands (or_scheduler s) @ map (\<lambda>(h, sch). AddScheduledEvent hash h sch) hs\<rparr>\<rparr>, w))"
proof (induction hs arbitrary: s)
  case (Cons x hs)
  obtain h sch where "x = (h, sch)" by fastforce
  with Cons show ?case by (simp add: handle_add_scheduled_event_def handle_send_def)
qed (simp add: io_ok_def)

lemma schedule_all_stopped:
  "\<not> sh_running (or_scheduler s) \<Longrightarrow> schedule_all hash hs (s, w)
    = ((if hs = [] then Inr () else Inl (AppService (''Failed to schedule event for handler '' @ fst (hd hs)
         @ '': Failed to send add command: channel closed''))), (s, w))"
  by (cases hs) (auto simp: io_ok_def handle_add_scheduled_event_def handle_send_def)

definition started :: "'j prepared_order \<Rightarrow> string \<Rightarrow> 'j orchestrator \<Rightarrow> 'j orchestrator" where
  "started po wid s =
    (let evs = wo_events (po_payload po); hash = po_hash po in
     s\<lparr>or_active := (or_active s)(hash \<mapsto>
         \<lparr>aw_payload = po_payload po, aw_worker_id = wid, aw_hash = hash, aw_vm_id = po_vm_id po\<rparr>),
       or_mounts := (if http_requested evs then (or_mounts s)(hash \<mapsto> wid) else or_mounts s),
       or_queue := or_queue s @ (if or_queue_open s then map (launch_delivery wid) (launch_events evs) else []),
       or_listeners := or_listeners s @ (if launch_events evs = [] \<or> or_queue_open s
         then map (\<lambda>c. the (listener_for hash wid evs c)) (web3_configs evs) else []),
       or_scheduler := (or_scheduler s)\<lparr>sh_commands := sh_commands (or_scheduler s)
         @ (if sh_running (or_scheduler s) then order_commands hash evs else [])\<rparr>\<rparr>)"

lemma start_work_order_run:
  assumes "dx_manifest_to_json (sx_daemon (ox_service ox)) (wo_worker (po_payload po)) = Inr m"
    and "client_run_worker (dx_rpc (sx_daemon (ox_service ox))) (po_hash po) (po_vm_id po) m
           (bundle_bytes (po_bundle po)) w = (Inr wid, w')"
  shows "\<exists>r. start_work_order ox po (s, w) = (r, (started po wid s, w'))
    \<and> (r = Inr (po_hash po) \<longleftrightarrow> sh_running (or_scheduler s) \<or> scheduled_handlers (wo_events (po_payload po)) = [])
    \<and> (\<forall>h. r = Inr h \<longrightarrow> h = po_hash po)"
proof -
  let ?evs = "wo_events (po_payload po)" and ?hash = "po_hash po"
  let ?s1 = "mount_worker ?hash wid ?evs (queue_launches wid ?evs (activate po wid s))"
  let ?s2 = "if launch_events ?evs = [] \<or> or_queue_open s
    then ?s1\<lparr>or_listeners := or_listeners s @ map (\<lambda>c. the (listener_for ?hash wid ?evs c)) (web3_configs ?evs)\<rparr> else ?s1"
  have s1: "or_queue_open ?s1 = or_queue_open s" "or_listeners ?s1 = or_listeners s" "or_scheduler ?s1 = or_scheduler s"
    by (simp_all add: mount_worker_def queue_launches_def activate_def)
  have sp: "(if launch_events ?evs = [] \<or> or_queue_open ?s1
      then spawn_listeners ?hash wid ?evs (web3_configs ?evs) (?s1, w') else (Inr (), (?s1, w'))) = (Inr (), (?s2, w'))"
    using s1 spawn_listeners_eq [of "web3_configs ?evs" ?evs ?hash wid ?s1 w'] by simp
  have s2: "started po wid s = ?s2\<lparr>or_scheduler := (or_scheduler ?s2)\<lparr>sh_commands := sh_commands (or_scheduler ?s2)
      @ (if sh_running (or_scheduler s) then order_commands ?hash ?evs else [])\<rparr>\<rparr>"
    by (cases s) (simp add: started_def Let_def mount_worker_def queue_launches_def activate_def)
  have running: "sh_running (or_scheduler ?s2) = sh_running (or_scheduler s)" using s1 by simp
  obtain r :: "app_error + unit" where sch: "schedule_all ?hash (scheduled_handlers ?evs) (?s2, w') = (r, (started po wid s, w'))"
    and r: "r = Inr () \<longleftrightarrow> sh_running (or_scheduler s) \<or> scheduled_handlers ?evs = []"
  proof (cases "sh_running (or_scheduler s)")
    case True
    show thesis
      by (rule that [of "Inr ()"], unfold s2)
        (use schedule_all_running [of ?s2 ?hash "scheduled_handlers ?evs" w'] running True
          in \<open>simp_all add: order_commands_def\<close>)
  next
    case False
    then have "started po wid s = ?s2" unfolding s2 by simp
    with schedule_all_stopped [of ?s2 ?hash "scheduled_handlers ?evs" w'] running False
    have "schedule_all ?hash (scheduled_handlers ?evs) (?s2, w')
      = ((if scheduled_handlers ?evs = [] then Inr () else Inl (AppService (''Failed to schedule event for handler ''
          @ fst (hd (scheduled_handlers ?evs)) @ '': Failed to send add command: channel closed''))), (started po wid s, w'))"
      by simp
    from that [OF this] False show thesis by simp
  qed
  have "start_work_order ox po (s, w) = io_bind (\<lambda>_. (r, (started po wid s, w'))) (\<lambda>_. io_ok ?hash) (s, w)"
    using assms sp sch by (simp add: start_work_order_def Let_def io_bind_def io_of_def on_world_def io_map_err_def
        on_state_def)
  then show ?thesis using r by (cases r) (auto simp: io_bind_def io_ok_def)
qed

section \<open>What preparing establishes\<close>

definition policy_approved ::
  "('w, 'j, 'p) order_ext \<Rightarrow> env_report \<Rightarrow> consumer_info \<Rightarrow> secret_id \<Rightarrow> bool" where
  "policy_approved ox er ci sid \<longleftrightarrow>
    (let sx = ox_service ox; dx = sx_daemon sx in
     \<exists>pkg w0 w1 w2. get_policy (dx_bundle dx) (dx_web3 dx) (dx_policy dx) (sx_policies sx) sid w0 = (Inr pkg, w1)
       \<and> check_policy_for_env dx pkg er sid ci w1 = (Inr True, w2))"

lemma authorize_identities_ok:
  "authorize_identities ox hash er ci ids w = (Inr x, w') \<Longrightarrow> (sid, name) \<in> set ids \<Longrightarrow> policy_approved ox er ci sid"
proof (induction ids arbitrary: w)
  case (Cons y ids)
  obtain sid' name' where y: "y = (sid', name')" by fastforce
  let ?sx = "ox_service ox"
  let ?dx = "sx_daemon ?sx"
  from Cons.prems(1) y obtain pkg w1 w2 b where
    p: "get_policy (dx_bundle ?dx) (dx_web3 ?dx) (dx_policy ?dx) (sx_policies ?sx) sid' w = (Inr pkg, w1)"
    and c: "check_policy_for_env ?dx pkg er sid' ci w1 = (Inr b, w2)"
    and b: "b" "authorize_identities ox hash er ci ids w2 = (Inr x, w')"
    by (auto simp: Let_def io_ok_iffs io_fail_def split: if_splits)
  then have "policy_approved ox er ci sid'" by (auto simp: policy_approved_def Let_def)
  with Cons.IH [OF b(2)] Cons.prems(2) y show ?case by auto
qed simp

lemma on_secrets_iff:
  "on_secrets m (s, w) = (r, (s', w')) \<longleftrightarrow> (\<exists>sv. m (or_secrets s, w) = (r, (sv, w')) \<and> s' = s\<lparr>or_secrets := sv\<rparr>)"
  by (auto simp: on_secrets_def split: prod.splits)

lemma ensure_secrets_frame:
  assumes "ensure_secrets ox hash ci ids (s, w) = (Inr x, (s', w'))"
  shows "s' = s\<lparr>or_secrets := or_secrets s'\<rparr>"
  using assms by (auto simp: ensure_secrets_def Let_def io_ok_iffs io_ok_def on_world_iff on_secrets_iff split: if_splits)

definition order_prepared :: "('w, 'j, 'p) order_ext \<Rightarrow> bytes \<Rightarrow> vm_registry \<Rightarrow> 'j prepared_order \<Rightarrow> bool" where
  "order_prepared ox dsse reg po \<longleftrightarrow>
    (let bx = dx_bundle (sx_daemon (ox_service ox)) in
     po_hash po = work_order_hash ox dsse
     \<and> (\<exists>env. envelope_from_json bx dsse = Inr env \<and> decode_payload ox env = Inr (po_payload po))
     \<and> (\<exists>bp. bundle_payload bx (po_bundle po) = Inr bp \<and> wb_vm bp = po_vm_id po) \<and> po_vm_id po \<in> reg
     \<and> (\<exists>er ci. worker_consumer ox (po_bundle po) = Inr ci
          \<and> (\<forall>(sid, name) \<in> set (wm_identities (wo_worker (po_payload po))). policy_approved ox er ci sid)))"

lemma prepare_decoded_ok:
  assumes "prepare_decoded ox hash payload (s, w) = (Inr x, (s', w'))"
  obtains wb bp er ci wait w1 where
    "bundle_payload (dx_bundle (sx_daemon (ox_service ox))) wb = Inr bp" "wb_vm bp \<in> or_vms s"
    "worker_consumer ox wb = Inr ci"
    "\<forall>(sid, name) \<in> set (wm_identities (wo_worker payload)). policy_approved ox er ci sid"
    "ensure_secrets ox hash ci (wm_identities (wo_worker payload)) (s, w1) = (Inr wait, (s', w'))"
    "x = (let po = \<lparr>po_hash = hash, po_payload = payload, po_bundle = wb, po_vm_id = wb_vm bp\<rparr> in
       case wait of None \<Rightarrow> Prepared po | Some i \<Rightarrow> AwaitSecrets i po)"
proof -
  let ?dx = "sx_daemon (ox_service ox)" and ?ids = "wm_identities (wo_worker payload)"
  from assms obtain wb bp er ci wait w0 w1 where
    b: "bundle_payload (dx_bundle ?dx) wb = Inr bp" "wb_vm bp \<in> or_vms s" "worker_consumer ox wb = Inr ci"
    and a: "authorize_identities ox hash er ci ?ids w0 = (Inr (), w1)"
    and e: "ensure_secrets ox hash ci ?ids (s, w1) = (Inr wait, (s', w'))"
    and x: "x = (let po = \<lparr>po_hash = hash, po_payload = payload, po_bundle = wb, po_vm_id = wb_vm bp\<rparr> in
       case wait of None \<Rightarrow> Prepared po | Some i \<Rightarrow> AwaitSecrets i po)"
    unfolding prepare_decoded_def Let_def
    by (auto simp: io_ok_iffs on_world_iff map_err_Inr_iff io_ok_def io_fail_def has_vm_def split: if_splits)
  from that [OF b _ e x] authorize_identities_ok [OF a] show thesis by blast
qed

text \<open>
  C16: What preparing a work order establishes. A submission that goes on to run a worker, at once or
  after waiting for secrets, has parsed the envelope and the payload, names a VM that is attached,
  and for every identity of the manifest the policy was fetched and approved the worker's own
  consumer (bundle hash and signature). The order was not active, and of the orchestrator's state only
  the secrets service may have changed. A submission of an active order changes nothing.
\<close>

theorem order_prepared_sound:
  assumes "prepare_work_order ox dsse (s, w) = (Inr x, (s', w'))"
  shows "s' = s\<lparr>or_secrets := or_secrets s'\<rparr>
    \<and> (case x of AlreadyActive h \<Rightarrow> h = work_order_hash ox dsse \<and> or_active s h \<noteq> None \<and> s' = s \<and> w' = w
       | Prepared po \<Rightarrow> or_active s (po_hash po) = None \<and> order_prepared ox dsse (or_vms s) po
       | AwaitSecrets i po \<Rightarrow> or_active s (po_hash po) = None \<and> order_prepared ox dsse (or_vms s) po)"
proof -
  let ?h = "work_order_hash ox dsse"
  from assms obtain env where env: "envelope_from_json (dx_bundle (sx_daemon (ox_service ox))) dsse = Inr env"
    and rest: "(if or_active s ?h \<noteq> None then io_ok (AlreadyActive ?h) else
       io_bind (io_of (decode_payload ox env)) (\<lambda>payload. prepare_decoded ox ?h payload)) (s, w) = (Inr x, (s', w'))"
    unfolding prepare_work_order_def Let_def by (auto simp: io_ok_iffs map_err_Inr_iff)
  show ?thesis
  proof (cases "or_active s ?h = None")
    case True
    with rest obtain payload where p: "decode_payload ox env = Inr payload"
      and d: "prepare_decoded ox ?h payload (s, w) = (Inr x, (s', w'))" by (auto simp: io_ok_iffs)
    from prepare_decoded_ok [OF d] obtain wb bp er ci wait w1 where
      b: "bundle_payload (dx_bundle (sx_daemon (ox_service ox))) wb = Inr bp" "wb_vm bp \<in> or_vms s"
      "worker_consumer ox wb = Inr ci"
      "\<forall>(sid, name) \<in> set (wm_identities (wo_worker payload)). policy_approved ox er ci sid"
      and e: "ensure_secrets ox ?h ci (wm_identities (wo_worker payload)) (s, w1) = (Inr wait, (s', w'))"
      and x: "x = (let po = \<lparr>po_hash = ?h, po_payload = payload, po_bundle = wb, po_vm_id = wb_vm bp\<rparr> in
         case wait of None \<Rightarrow> Prepared po | Some i \<Rightarrow> AwaitSecrets i po)" by metis
    have "order_prepared ox dsse (or_vms s) \<lparr>po_hash = ?h, po_payload = payload, po_bundle = wb, po_vm_id = wb_vm bp\<rparr>"
      unfolding order_prepared_def Let_def using env p b by fastforce
    with True x ensure_secrets_frame [OF e] show ?thesis by (cases wait) auto
  next
    case False
    with rest show ?thesis by (auto simp: io_ok_def)
  qed
qed

section \<open>Prepared orders and the enclave\<close>

lemma checked_present:
  assumes "(i, found, expiry) \<in> set (check_secrets now s ids)" "found"
  shows "\<exists>x. secrets_storage s i = Some x \<and> unexpired now (ss_expiry x)"
  using assms by (auto simp: check_secrets_def split: option.splits)

lemma check_local_enclave:
  assumes sb: "served_by dx st ct tx E" and wf: "list_all (secret_id_wf tx) (map fst reqs)" and "reqs \<noteq> []"
    and run: "check_local dx reqs (k, s) = (Inr (l, []), (k', s'))"
  shows "k' = k + 1 \<and> s' = s
    \<and> (\<forall>i \<in> fst ` set reqs. \<exists>x. secrets_storage (r_secrets s) i = Some x \<and> unexpired (ee_now (E k)) (ss_expiry x))"
proof -
  let ?sts = "check_secrets (ee_now (E k)) (r_secrets s) (map fst reqs)"
  have rpc: "dx_rpc dx = grpc_service st ct tx E" "ee_text (E k) = tx" using sb by (auto simp: served_by_def)
  have "client_check_secrets (dx_rpc dx) (map fst reqs) (k, s) = (Inr ?sts, (k + 1, s))"
    unfolding rpc(1) by (rule client_check_secrets_eq [where E = E, OF rpc(2) wf])
  with run assms(3) obtain now where "filter (\<lambda>r. fst r \<notin> set (present_ids now ?sts)) reqs = []" "k' = k + 1" "s' = s"
    by (auto simp: check_local_def io_ok_iffs io_ok_def Let_def current_unix_time_def io_read_def)
  then have "i \<in> set (present_ids now ?sts)" if "i \<in> fst ` set reqs" for i
    using that by (auto simp: filter_empty_conv)
  with \<open>k' = k + 1\<close> \<open>s' = s\<close> show ?thesis
    by (fastforce simp: present_ids_def dest: checked_present)
qed

lemma not_missing:
  assumes "\<And>xs. set (sx_order sx xs) = set xs" "i \<in> set ids"
    and "i \<notin> fst ` set (missing_requests sx now ci (check_secrets t s ids))"
  shows "\<exists>x. secrets_storage s i = Some x \<and> unexpired t (ss_expiry x)"
proof -
  from assms(2) check_secrets_ids [of t s ids] have "i \<in> fst ` set (check_secrets t s ids)"
    by (simp flip: set_map)
  then obtain f e where st: "(i, f, e) \<in> set (check_secrets t s ids)" by force
  with assms(1,3) have "f" by (force simp: missing_requests_def image_image)
  with st show ?thesis by (rule checked_present)
qed

lemma ensure_secrets_present:
  assumes sb: "served_by (sx_daemon (ox_service ox)) st ct tx E" and wf: "list_all (secret_id_wf tx) (map fst ids)"
    and ord: "\<And>xs. set (sx_order (ox_service ox) xs) = set xs"
    and rd: "\<And>path v. snd (px_read_file (dx_policy (sx_daemon (ox_service ox))) path v) = v"
    and run: "ensure_secrets ox hash ci ids (s, (k1, r1)) = (Inr None, (s', (k, r)))"
    and i: "i \<in> fst ` set ids"
  shows "\<exists>x j. j < k \<and> secrets_storage (r_secrets r) i = Some x \<and> unexpired (ee_now (E j)) (ss_expiry x)"
proof -
  let ?sx = "ox_service ox"
  let ?dx = "sx_daemon ?sx" and ?sts = "check_secrets (ee_now (E k1)) (r_secrets r1) (map fst ids)"
  have rpc: "dx_rpc ?dx = grpc_service st ct tx E" "ee_text (E k1) = tx" using sb by (auto simp: served_by_def)
  have c: "client_check_secrets (dx_rpc ?dx) (map fst ids) (k1, r1) = (Inr ?sts, (k1 + 1, r1))"
    unfolding rpc(1) by (rule client_check_secrets_eq [where E = E, OF rpc(2) wf])
  from i have ne: "ids \<noteq> []" by auto
  with run c obtain now where d: "(let reqs = missing_requests ?sx now ci ?sts in if reqs = [] then io_ok None else
      io_bind (on_world (io_map_app (\<lambda>e. AppService (''Failed to get daemon env report for work order ''
         @ hash @ '': '' @ inner_text e)) (get_own_env_report ?dx))) (\<lambda>er.
      io_map_app (\<lambda>e. secrets_failure ox hash e) (on_secrets (service_get_secrets ?sx reqs er)))) (s, (k1 + 1, r1))
      = (Inr None, (s', (k, r)))"
    unfolding ensure_secrets_def Let_def
    by (auto simp: io_ok_iffs on_world_iff current_unix_time_def io_read_def)
  let ?reqs = "missing_requests ?sx now ci ?sts"
  have pres: "\<exists>x. secrets_storage (r_secrets r1) i = Some x \<and> unexpired (ee_now (E k1)) (ss_expiry x)"
    if "i \<notin> fst ` set ?reqs" using not_missing [OF ord _ that] i by simp
  show ?thesis
  proof (cases "?reqs = []")
    case True
    with d have "k = k1 + 1" "r = r1" by (simp_all add: io_ok_def)
    with pres True show ?thesis by auto
  next
    case False
    with d obtain er k2 r2 sv where own: "get_own_env_report ?dx (k1 + 1, r1) = (Inr er, (k2, r2))"
      and get: "service_get_secrets ?sx ?reqs er (or_secrets s, (k2, r2)) = (Inr None, (sv, (k, r)))"
      by (auto simp: Let_def io_ok_iffs on_world_iff on_secrets_iff)
    from own_report_world [OF sb rd own] have w: "r2 = r1" "k1 < k2" by auto
    from get obtain l where l: "check_local ?dx ?reqs (k2, r2) = (Inr (l, []), (k, r))"
      by (auto simp: service_get_secrets_def Let_def io_ok_iffs on_world_iff io_ok_def split: if_splits)
    have "list_all (secret_id_wf tx) (map fst ?reqs)"
      using wf ord by (auto simp: list_all_iff missing_requests_def check_secrets_def split: option.splits)
    from check_local_enclave [OF sb this False l] w have k: "k = k2 + 1" "r = r1" and
      fresh: "i \<in> fst ` set ?reqs \<Longrightarrow> \<exists>x. secrets_storage (r_secrets r1) i = Some x \<and> unexpired (ee_now (E k2)) (ss_expiry x)"
      by auto
    show ?thesis
    proof (cases "i \<in> fst ` set ?reqs")
      case True
      with fresh k show ?thesis by auto
    next
      case False
      from pres [OF this] k w show ?thesis by (metis less_Suc_eq Suc_eq_plus1 less_SucI)
    qed
  qed
qed

section \<open>Properties of submissions\<close>

text \<open>
  A work order that is ready without waiting runs with its secrets: when preparing reports that
  nothing is missing, the enclave that the daemon talks to holds every secret of the manifest, and
  each was unexpired at one of the enclave's answers during the submission. \<open>sx_order\<close> is the iteration
  order of a hash map; reading the operator's key file is assumed to leave the enclave alone.
\<close>

theorem prepared_secrets_present:
  assumes "served_by (sx_daemon (ox_service ox)) st ct tx E"
    and "list_all (secret_id_wf tx) (map fst (wm_identities (wo_worker (po_payload po))))"
    and "\<And>xs. set (sx_order (ox_service ox) xs) = set xs"
    and "\<And>path v. snd (px_read_file (dx_policy (sx_daemon (ox_service ox))) path v) = v"
    and run: "prepare_work_order ox dsse (s, w) = (Inr (Prepared po), (s', (k, r)))"
  shows "\<forall>(i, name) \<in> set (wm_identities (wo_worker (po_payload po))). \<exists>x j. j < k
    \<and> secrets_storage (r_secrets r) i = Some x \<and> unexpired (ee_now (E j)) (ss_expiry x)"
proof -
  from run obtain payload where d: "prepare_decoded ox (work_order_hash ox dsse) payload (s, w) = (Inr (Prepared po), (s', (k, r)))"
    unfolding prepare_work_order_def Let_def by (auto simp: io_ok_iffs io_ok_def split: if_splits)
  from prepare_decoded_ok [OF d] obtain wb bp er ci wait w1 where
    b: "bundle_payload (dx_bundle (sx_daemon (ox_service ox))) wb = Inr bp" "wb_vm bp \<in> or_vms s"
    "worker_consumer ox wb = Inr ci" "\<forall>(sid, name) \<in> set (wm_identities (wo_worker payload)). policy_approved ox er ci sid"
    and e: "ensure_secrets ox (work_order_hash ox dsse) ci (wm_identities (wo_worker payload)) (s, w1) = (Inr wait, (s', (k, r)))"
    and po: "Prepared po = (let po = \<lparr>po_hash = work_order_hash ox dsse, po_payload = payload, po_bundle = wb,
        po_vm_id = wb_vm bp\<rparr> in case wait of None \<Rightarrow> Prepared po | Some i \<Rightarrow> AwaitSecrets i po)" by metis
  from po have x: "wait = None" "po_payload po = payload" by (auto simp: Let_def split: option.splits)
  obtain k1 r1 where "w1 = (k1, r1)" by fastforce
  with e x have "ensure_secrets ox (work_order_hash ox dsse) ci (wm_identities (wo_worker (po_payload po))) (s, (k1, r1))
      = (Inr None, (s', (k, r)))" by simp
  from ensure_secrets_present [OF assms(1-4) this] show ?thesis by force
qed

definition order_bx :: bundle_ext where
  "order_bx = sample_bx\<lparr>envelope_from_json := (\<lambda>bs. if bs = [8]
     then Inr \<lparr>dsse_payload = ''o'', dsse_payload_type = DSSE_WORK_ORDER_PAYLOAD_TYPE, dsse_signatures = []\<rparr>
     else envelope_from_json sample_bx bs)\<rparr>"

definition sample_rate :: rate_mode where
  "sample_rate = rate_mode_new 5"

definition sample_payload :: "unit work_order_payload" where
  "sample_payload = \<lparr>wo_id = ''order'', wo_worker = \<lparr>wm_bundle = \<lparr>wbp_source = ''https://example.com/worker'', wbp_hash = None\<rparr>,
       wm_identities = [(sample_sid, ''key'')], wm_userdata = Map.empty\<rparr>,
     wo_events = [\<lparr>handler = ''start'', event_kind = Launch\<rparr>, \<lparr>handler = ''tick'', event_kind = Scheduled (Rate sample_rate)\<rparr>]\<rparr>"

definition sample_order_daemon :: "(nat \<times> unit runner, unit, unit) daemon_ext" where
  "sample_order_daemon = sample_daemon\<lparr>dx_bundle := order_bx\<rparr>"

definition sample_orders :: "(nat \<times> unit runner, unit, unit) order_ext" where
  "sample_orders = \<lparr>ox_service = sample_secrets_service\<lparr>sx_daemon := sample_order_daemon\<rparr>,
     ox_sha256 = (\<lambda>b. b), ox_b64url = (\<lambda>_. ''wo''), ox_payload_json = (\<lambda>_. Inr sample_payload), ox_debug = (\<lambda>_. ''error''),
     ox_secret_text = (\<lambda>_. ''secret''), ox_identity_text = (\<lambda>_. ''identity''), ox_conversion_text = (\<lambda>_. ''conversion'')\<rparr>"

definition sample_orchestrator :: "unit orchestrator" where
  "sample_orchestrator = \<lparr>or_active = Map.empty, or_mounts = Map.empty, or_queue = [], or_queue_open = True,
     or_scheduler = fst (scheduler_handle_new sample_config), or_listeners = [], or_vms = {''vm''},
     or_secrets = secrets_service_new\<rparr>"

definition sample_prepared :: "unit prepared_order" where
  "sample_prepared = \<lparr>po_hash = ''wo'', po_payload = sample_payload, po_bundle = WorkerBundle [1], po_vm_id = ''vm''\<rparr>"

lemma sample_order_served:
  "served_by (sx_daemon (ox_service sample_orders)) (\<lambda>_. ''status'') (\<lambda>_. ''conversion'') sample_text (\<lambda>_. sample_enclave_env)"
  using sample_served by (simp add: served_by_def sample_orders_def sample_order_daemon_def)

lemma daemon_without_bundles:
  "run_worker_in_default_vm (dx\<lparr>dx_bundle := b\<rparr>) = run_worker_in_default_vm dx"
  "service_execute_policy (dx\<lparr>dx_bundle := b\<rparr>) = service_execute_policy dx"
  "service_terminate_worker (dx\<lparr>dx_bundle := b\<rparr>) = service_terminate_worker dx"
  by (intro ext, simp add: run_worker_in_default_vm_def service_execute_policy_def service_terminate_worker_def
      cong: sum.case_cong option.case_cong)+

lemma sample_order_check:
  "check_policy_for_env sample_order_daemon = check_policy_for_env sample_daemon"
  unfolding sample_order_daemon_def check_policy_for_env_def daemon_without_bundles ..

lemma sample_order_report: "get_own_env_report sample_order_daemon (k, s) = (Inr (sample_env_report [2]), (Suc k, s))"
  using sample_own_report [of k s]
  by (simp add: get_own_env_report_def sample_order_daemon_def) (simp add: sample_daemon_def)

lemma sample_order_policy:
  "get_policy (dx_bundle sample_order_daemon) (dx_web3 sample_order_daemon) (dx_policy sample_order_daemon)
     \<lparr>pm_default_vm_id = ''vm''\<rparr> sample_sid w = (Inr sample_package, w)"
  by (simp add: get_policy_def get_policy_url_def get_rpc_urls_for_chain_id_def sample_order_daemon_def sample_daemon_def
      io_bind_def io_map_err_def io_simps starts_with_def fetch_worker_manifest_def decode_data_url_def order_bx_def
      strip_prefix_def sample_bx_def fetch_worker_bundle_def fetch_bundle_bytes_def sample_package_def
      bundle_payload_def bundle_envelope_def ends_with_def sample_sid_def sample_secret_def)

lemma sample_order_bundle:
  "fetch_worker_bundle (dx_bundle sample_order_daemon) (dx_policy sample_order_daemon) pm (wm_bundle (wo_worker sample_payload)) ctxt w
    = (Inr (WorkerBundle [1]), w)"
  "bundle_payload (dx_bundle sample_order_daemon) (WorkerBundle [1]) = Inr \<lparr>wb_vm = ''vm'', wb_executable = [9], wb_metadata = []\<rparr>"
  "worker_consumer sample_orders (WorkerBundle [1]) = Inr (ConsumerInfo [2] [2])"
  by (simp_all add: fetch_worker_bundle_def fetch_bundle_bytes_def sample_order_daemon_def sample_daemon_def order_bx_def
      sample_bx_def sample_payload_def io_bind_def io_map_err_def io_simps starts_with_def bundle_payload_def bundle_envelope_def
      worker_consumer_def sample_orders_def hash_signed_payload_def get_dsse_signature_def)

lemma sample_order_decoded:
  "work_order_hash sample_orders b = ''wo''"
  "\<exists>env. envelope_from_json (dx_bundle sample_order_daemon) [8] = Inr env \<and> decode_payload sample_orders env = Inr sample_payload"
  by (simp_all add: work_order_hash_def decode_payload_def sample_order_daemon_def order_bx_def sample_bx_def sample_orders_def)

lemma sample_order_prepared:
  "\<exists>k r. prepare_work_order sample_orders [8] (sample_orchestrator, (0, sample_runner))
     = (Inr (Prepared sample_prepared), (sample_orchestrator, (k, r)))"
proof -
  let ?E = "\<lambda>_ :: nat. sample_enclave_env" and ?rpc = "dx_rpc sample_order_daemon"
  have "vms sample_runner ''vm'' = Some ()" by (simp add: sample_runner_def)
  from sample_check_policy [OF this sample_wf, of "[2]" "ConsumerInfo [2] [2]" 1] obtain k s where
    run: "check_policy_for_env sample_daemon sample_package (sample_env_report [2]) sample_sid (ConsumerInfo [2] [2])
      (1, sample_runner) = (Inr True, (k, s))" by blast
  from check_policy_enclave [OF sample_served sample_wf run]
  have store: "secrets_storage (r_secrets s) = secrets_storage (r_secrets sample_runner)"
    using execute_policy_storage by fastforce
  have rpc: "?rpc = grpc_service (\<lambda>_. ''status'') (\<lambda>_. ''conversion'') sample_text ?E"
    by (simp add: sample_order_daemon_def sample_daemon_def sample_rpc_def)
  have tx: "ee_text (?E n) = sample_text" for n by (simp add: sample_enclave_env_def)
  have chk: "client_check_secrets ?rpc [sample_sid] (k, s) = (Inr [(sample_sid, True, 0)], (k + 1, s))"
    unfolding rpc using client_check_secrets_eq [where E = ?E and ids = "[sample_sid]", OF tx] sample_wf store
    by (simp add: check_secrets_def unexpired_def sample_runner_def runner_new_def sample_secrets_def)
  have ids: "wm_identities (wo_worker sample_payload) = [(sample_sid, ''key'')]" by (simp add: sample_payload_def)
  have sx: "ox_service sample_orders = sample_secrets_service\<lparr>sx_daemon := sample_order_daemon\<rparr>"
    by (simp add: sample_orders_def)
  have now: "dx_now sample_order_daemon w = Inr 100" for w by (simp add: sample_order_daemon_def sample_daemon_def)
  have pm: "sx_policies (ox_service sample_orders) = \<lparr>pm_default_vm_id = ''vm''\<rparr>" "sx_daemon (ox_service sample_orders) = sample_order_daemon"
    by (simp_all add: sx sample_secrets_service_def)
  have order: "sx_order (ox_service sample_orders) [] = []" by (simp add: sx sample_secrets_service_def)
  have ens: "ensure_secrets sample_orders h ci [(sample_sid, ''key'')] (sample_orchestrator, (k, s))
      = (Inr None, (sample_orchestrator, (k + 1, s)))" for h ci
    using chk by (simp add: ensure_secrets_def Let_def pm io_bind_def on_world_def io_map_err_def current_unix_time_def
        io_read_def io_simps now missing_requests_def order)
  have auth: "authorize_identities sample_orders h (sample_env_report [2]) (ConsumerInfo [2] [2]) [(sample_sid, ''key'')] (1, sample_runner)
      = (Inr (), (k, s))" for h
    using run by (simp add: pm sample_order_policy sample_order_check io_bind_def io_map_app_def io_map_err_def io_ok_def)
  have "prepare_decoded sample_orders ''wo'' sample_payload (sample_orchestrator, (0, sample_runner))
      = (Inr (Prepared sample_prepared), (sample_orchestrator, (k + 1, s)))"
    using ens auth by (simp add: prepare_decoded_def Let_def pm sample_order_bundle sample_order_report io_bind_def on_world_def
        io_map_app_def io_map_err_def io_simps ids has_vm_def sample_prepared_def) (simp add: sample_orchestrator_def)
  moreover obtain env where "envelope_from_json (dx_bundle sample_order_daemon) [8] = Inr env"
    "decode_payload sample_orders env = Inr sample_payload" using sample_order_decoded by blast
  ultimately show ?thesis
    by (simp add: prepare_work_order_def Let_def io_bind_def io_of_def pm sample_order_decoded(1))
      (simp add: sample_orchestrator_def)
qed

theorem order_prepared_sound_witness:
  "order_prepared sample_orders [8] {''vm''} sample_prepared"
proof -
  from sample_order_prepared obtain k r where
    "prepare_work_order sample_orders [8] (sample_orchestrator, (0, sample_runner))
     = (Inr (Prepared sample_prepared), (sample_orchestrator, (k, r)))" by blast
  from order_prepared_sound [OF this] show ?thesis by (simp add: sample_orchestrator_def)
qed

theorem prepared_secrets_present_witness:
  "\<exists>s k r x. prepare_work_order sample_orders [8] (sample_orchestrator, (0, sample_runner)) = (Inr (Prepared sample_prepared), (s, (k, r)))
     \<and> secrets_storage (r_secrets r) sample_sid = Some x"
proof -
  from sample_order_prepared obtain k r where
    run: "prepare_work_order sample_orders [8] (sample_orchestrator, (0, sample_runner))
     = (Inr (Prepared sample_prepared), (sample_orchestrator, (k, r)))" by blast
  from prepared_secrets_present [OF sample_order_served _ _ _ run] run show ?thesis
    using sample_wf by (auto simp: sample_prepared_def sample_payload_def sample_orders_def sample_secrets_service_def
        sample_order_daemon_def sample_daemon_def)
qed

section \<open>Properties of started orders and deliveries\<close>


lemma sample_client_run:
  assumes "vms s ''vm'' = Some ()"
  shows "client_run_worker sample_rpc ''wo'' ''vm'' [5] [1] (k, s) = (Inr ''wo'', (Suc k, s\<lparr>vms := (vms s)(''vm'' \<mapsto> ()),
    worker_map := (worker_map s)(''wo'' \<mapsto> ''vm'')\<rparr>))"
  using assms
  by (simp add: client_run_worker_def sample_rpc_def io_bind_def io_map_err_def io_simps at_tick_def grpc_run_worker_def
      sample_enclave_env_def run_worker_def prepare_worker_def bundle_payload_def bundle_envelope_def sample_bundle_ext_def
      call_vm_def sample_vm_ops_def sample_rx_def Let_def)

lemma sample_order_run:
  "\<exists>w'. client_run_worker (dx_rpc (sx_daemon (ox_service sample_orders))) (po_hash sample_prepared) (po_vm_id sample_prepared) [5]
    (bundle_bytes (po_bundle sample_prepared)) (0, sample_runner) = (Inr ''wo'', w')"
  using sample_client_run [of sample_runner 0]
  by (simp add: sample_orders_def sample_order_daemon_def sample_daemon_def sample_prepared_def sample_runner_def)

lemma sample_order_json:
  "dx_manifest_to_json (sx_daemon (ox_service sample_orders)) (wo_worker (po_payload sample_prepared)) = Inr [5]"
  by (simp add: sample_orders_def sample_order_daemon_def sample_daemon_def)


text \<open>
  A schedule faster than the configured minimum does not reject the work order: the submission succeeds
  and sends the schedule, and the scheduler drops it without a trace in its state.
\<close>

theorem fast_schedule_accepted:
  assumes "dx_manifest_to_json (sx_daemon (ox_service ox)) (wo_worker (po_payload po)) = Inr m"
    and "client_run_worker (dx_rpc (sx_daemon (ox_service ox))) (po_hash po) (po_vm_id po) m
           (bundle_bytes (po_bundle po)) w = (Inr wid, w')"
    and "(hnd, Rate r) \<in> set (scheduled_handlers (wo_events (po_payload po)))" "sh_running (or_scheduler s)"
    and "period_ms r < min_schedule_interval_ms (sc_config q)"
  shows "\<exists>s'. start_work_order ox po (s, w) = (Inr (po_hash po), (s', w'))
    \<and> AddScheduledEvent (po_hash po) hnd (Rate r) \<in> set (sh_commands (or_scheduler s'))
    \<and> (\<forall>c. handle_command c (AddScheduledEvent (po_hash po) hnd (Rate r)) q
         = (q, Inl (IntervalTooFast (period_ms r) (min_schedule_interval_ms (sc_config q)))))"
proof -
  from start_work_order_run [OF assms(1,2), of s] assms(4)
  have "start_work_order ox po (s, w) = (Inr (po_hash po), (started po wid s, w'))" by auto
  moreover have "AddScheduledEvent (po_hash po) hnd (Rate r) \<in> set (sh_commands (or_scheduler (started po wid s)))"
    using assms(3,4) by (auto simp: started_def Let_def order_commands_def image_iff)
  ultimately show ?thesis using assms(5) by (auto simp: handle_command_def)
qed

theorem fast_schedule_accepted_witness:
  "\<exists>s' w'. start_work_order sample_orders sample_prepared (sample_orchestrator, (0, sample_runner)) = (Inr ''wo'', (s', w'))
     \<and> handle_command \<lparr>mono_now = 0, utc_now = 0\<rparr> (AddScheduledEvent ''wo'' ''tick'' (Rate sample_rate)) (scheduler_new sample_config)
         = (scheduler_new sample_config, Inl (IntervalTooFast 5 10))"
proof -
  from sample_order_run obtain w' where "client_run_worker (dx_rpc (sx_daemon (ox_service sample_orders))) (po_hash sample_prepared)
    (po_vm_id sample_prepared) [5] (bundle_bytes (po_bundle sample_prepared)) (0, sample_runner) = (Inr ''wo'', w')" by blast
  from fast_schedule_accepted [OF sample_order_json this, of "''tick''" sample_rate sample_orchestrator "scheduler_new sample_config"]
  show ?thesis
    by (auto simp: sample_prepared_def sample_payload_def sample_orchestrator_def scheduler_handle_new_def scheduler_new_def
        sample_config_def sample_rate_def rate_mode_new_def)
qed

lemma flush_effect:
  "concat (dt_attempted (flush_if_due d)) @ dt_batch (flush_if_due d) @ q = concat (dt_attempted d) @ dt_batch d @ q"
  "dt_queue (flush_if_due d) = dt_queue d" "dt_stopped (flush_if_due d) = dt_stopped d" "dt_open (flush_if_due d) = dt_open d"
  by (auto simp: flush_if_due_def)

text \<open>What was sent while the task ran and the channel was open.\<close>

fun enqueued :: "delivery_op list \<Rightarrow> event_delivery list" where
  "enqueued [] = []"
| "enqueued (Enqueue e # ops) = e # enqueued ops"
| "enqueued (DeliveryShutdown # ops) = []"
| "enqueued (SendersDropped # ops) = []"
| "enqueued (op # ops) = enqueued ops"

definition accepts :: "delivery_task \<Rightarrow> bool" where
  "accepts d \<longleftrightarrow> \<not> dt_stopped d \<and> dt_open d"

definition delivery_inv :: "delivery_task \<Rightarrow> bool" where
  "delivery_inv d \<longleftrightarrow> length (dt_batch d) < EVENT_BATCH_SIZE
     \<and> (\<forall>b \<in> set (dt_attempted d). b \<noteq> [] \<and> length b \<le> EVENT_BATCH_SIZE)
     \<and> (dt_queue d = [] \<or> dt_stopped d \<longrightarrow> dt_batch d = [])"

lemma flush_inv:
  assumes "length (dt_batch d) \<le> EVENT_BATCH_SIZE" "\<forall>b \<in> set (dt_attempted d). b \<noteq> [] \<and> length b \<le> EVENT_BATCH_SIZE"
    and "\<not> dt_stopped d"
  shows "delivery_inv (flush_if_due d)"
  using assms by (auto simp: delivery_inv_def flush_if_due_def EVENT_BATCH_SIZE_def)

lemma delivery_step_inv:
  assumes "delivery_inv d"
  shows "delivery_inv (delivery_step d op)"
proof -
  have d: "length (dt_batch d) < EVENT_BATCH_SIZE" "\<forall>b \<in> set (dt_attempted d). b \<noteq> [] \<and> length b \<le> EVENT_BATCH_SIZE"
    "dt_queue d = [] \<or> dt_stopped d \<Longrightarrow> dt_batch d = []"
    using assms by (auto simp: delivery_inv_def)
  have receive: "delivery_inv (flush_if_due (d\<lparr>dt_queue := q, dt_batch := dt_batch d @ [e]\<rparr>))" if "\<not> dt_stopped d" for q e
    by (rule flush_inv) (use d that in simp_all)
  have tick: "delivery_inv (flush_if_due d)" if "\<not> dt_stopped d"
    by (rule flush_inv) (use d that in simp_all)
  show ?thesis
  proof (cases op)
    case ReceiveEvent
    then show ?thesis using assms receive d by (cases "dt_queue d") (simp_all add: delivery_inv_def)
  next
    case TickElapsed
    then show ?thesis using assms tick by simp
  qed (use assms in \<open>auto simp: delivery_inv_def EVENT_BATCH_SIZE_def\<close>)
qed

lemma delivery_step_events:
  "concat (dt_attempted (delivery_step d op)) @ dt_batch (delivery_step d op) @ dt_queue (delivery_step d op)
    = concat (dt_attempted d) @ dt_batch d @ dt_queue d @ (if accepts d then enqueued [op] else [])"
  by (cases op) (simp_all add: flush_effect accepts_def split: list.split)

lemma delivery_step_accepts:
  "accepts (delivery_step d op) \<longleftrightarrow> accepts d \<and> op \<noteq> DeliveryShutdown \<and> op \<noteq> SendersDropped"
  by (cases op) (auto simp: accepts_def flush_effect split: list.split)

lemma enqueued_Cons:
  "enqueued (op # ops) = enqueued [op] @ (if op = DeliveryShutdown \<or> op = SendersDropped then [] else enqueued ops)"
  by (cases op) auto

lemma delivery_run_events:
  "let d' = foldl delivery_step d ops in concat (dt_attempted d') @ dt_batch d' @ dt_queue d'
    = concat (dt_attempted d) @ dt_batch d @ dt_queue d @ (if accepts d then enqueued ops else [])"
proof (induction ops arbitrary: d)
  case (Cons op ops)
  let ?rest = "if accepts (delivery_step d op) then enqueued ops else []"
  have "(concat (dt_attempted (delivery_step d op)) @ dt_batch (delivery_step d op) @ dt_queue (delivery_step d op)) @ ?rest
      = concat (dt_attempted d) @ dt_batch d @ dt_queue d @ (if accepts d then enqueued (op # ops) else [])"
    unfolding delivery_step_events delivery_step_accepts enqueued_Cons [of op ops] by simp
  with Cons [of "delivery_step d op"] show ?case by (simp add: Let_def)
qed simp

lemma delivery_run_inv: "delivery_inv d \<Longrightarrow> delivery_inv (foldl delivery_step d ops)"
  by (induction ops arbitrary: d) (auto intro: delivery_step_inv)

text \<open>
  C21: The delivery task, for any interleaving of arriving events, receptions, ticks, the end of the channel
  and the shutdown: every event sent before the end is in exactly one place, in the order of sending,
  first those tried in a batch, then the current batch, then the queue; no batch is empty or longer than
  the batch size. Nothing is left in the current batch when the queue is empty or the task has stopped, so
  that only what was still queued at the shutdown is lost.
\<close>

theorem events_delivered_in_order:
  "let d = foldl delivery_step delivery_new ops in
     concat (dt_attempted d) @ dt_batch d @ dt_queue d = enqueued ops
     \<and> length (dt_batch d) < EVENT_BATCH_SIZE
     \<and> (\<forall>b. b \<in> set (dt_attempted d) \<longrightarrow> b \<noteq> [] \<and> length b \<le> EVENT_BATCH_SIZE)
     \<and> (dt_queue d = [] \<or> dt_stopped d \<longrightarrow> dt_batch d = [])"
proof -
  have "delivery_inv (foldl delivery_step delivery_new ops)"
    by (rule delivery_run_inv) (simp add: delivery_inv_def delivery_new_def EVENT_BATCH_SIZE_def)
  then show ?thesis using delivery_run_events [of delivery_new ops]
    unfolding delivery_inv_def by (simp add: Let_def delivery_new_def accepts_def)
qed

definition sample_delivery :: "string \<Rightarrow> event_delivery" where
  "sample_delivery h = \<lparr>ed_worker_id = ''wo'', ed_event_payload = Some (Some PLaunchEvent), ed_handler_name = h\<rparr>"

theorem events_delivered_in_order_witness:
  "let d = foldl delivery_step delivery_new [Enqueue (sample_delivery ''a''), Enqueue (sample_delivery ''b''), ReceiveEvent,
       DeliveryShutdown, Enqueue (sample_delivery ''c'')] in
     dt_attempted d = [[sample_delivery ''a'']]
     \<and> concat (dt_attempted d) @ dt_batch d @ dt_queue d = [sample_delivery ''a'', sample_delivery ''b'']"
  using events_delivered_in_order [of "[Enqueue (sample_delivery ''a''), Enqueue (sample_delivery ''b''), ReceiveEvent,
      DeliveryShutdown, Enqueue (sample_delivery ''c'')]"]
  by (simp add: Let_def delivery_new_def flush_if_due_def EVENT_BATCH_SIZE_def)

end
