(* ===== verification/Worker_Logs.thy ===== *)
theory Worker_Logs
  imports Prelude
begin

text \<open>
  The logs of workers (\<open>src/node/vm/base/src/logging.rs\<close>): the bounded buffer of a worker, the
  retained logs of dead workers and the manager of a VM.

  A \<open>String\<close> is the list of its bytes and an instant is a number of nanoseconds. A buffer is shared
  (\<open>Arc\<close>) between the manager and the tasks that read a worker's output, so the manager's state
  holds a list of buffers and the map of active workers holds indices into it. The \<open>tokio\<close> broadcast
  channel is third-party code: a buffer records what was handed to it, and receiving is an argument
  of \<open>next_log\<close>.
\<close>

section \<open>The buffer of a worker\<close>

definition MAX_LINES :: nat where "MAX_LINES = 10000"

definition MAX_BYTES :: nat where "MAX_BYTES = 10 * 1024"

definition DEAD_WORKER_RETENTION :: nat where "DEAD_WORKER_RETENTION = 300 * 1000000000"

record log_entry =
  log_line :: string
  log_timestamp :: nat

record log_buffer =
  log_history :: "log_entry list"
  current_bytes :: nat
  log_broadcast :: "log_entry list"

definition log_buffer_new :: log_buffer where
  "log_buffer_new = \<lparr>log_history = [], current_bytes = 0, log_broadcast = []\<rparr>"

text \<open>The loop that makes room; the subtraction saturates.\<close>

fun trim :: "log_entry list \<Rightarrow> nat \<Rightarrow> log_entry list \<times> nat" where
  "trim [] b = ([], b)"
| "trim (e # h) b =
    (if length (e # h) \<ge> MAX_LINES \<or> b \<ge> MAX_BYTES then trim h (b - length (log_line e)) else (e # h, b))"

definition write_log :: "nat \<Rightarrow> string \<Rightarrow> log_buffer \<Rightarrow> log_buffer" where
  "write_log now line buf =
    (let e = \<lparr>log_line = line, log_timestamp = now\<rparr> in
     case trim (log_history buf) (current_bytes buf) of (h, b) \<Rightarrow>
       buf\<lparr>log_history := h @ [e], current_bytes := b + length line,
           log_broadcast := log_broadcast buf @ [e]\<rparr>)"

definition tail_of :: "nat option \<Rightarrow> log_entry list \<Rightarrow> log_entry list" where
  "tail_of max_lines h =
    (let n = min (case max_lines of Some m \<Rightarrow> m | None \<Rightarrow> length h) (length h) in
     if n = 0 then [] else drop (length h - n) h)"

definition get_tail :: "nat option \<Rightarrow> log_buffer \<Rightarrow> log_entry list" where
  "get_tail max_lines buf = tail_of max_lines (log_history buf)"

definition get_all_logs :: "log_buffer \<Rightarrow> log_entry list" where
  "get_all_logs buf = log_history buf"

datatype recv_result = RecvOk log_entry | RecvClosed | RecvLagged nat

text \<open>A lagging receiver tries once more; \<open>recv\<close> is the channel's receiver.\<close>

definition next_log :: "('r \<Rightarrow> recv_result \<times> 'r) \<Rightarrow> 'r \<Rightarrow> log_entry option \<times> 'r" where
  "next_log recv r = (case recv r of
      (RecvOk e, r') \<Rightarrow> (Some e, r')
    | (RecvClosed, r') \<Rightarrow> (None, r')
    | (RecvLagged _, r') \<Rightarrow> (case recv r' of
         (RecvOk e, r'') \<Rightarrow> (Some e, r'')
       | (_, r'') \<Rightarrow> (None, r'')))"

section \<open>Dead workers and the manager\<close>

record dead_worker_logs =
  dl_worker_id :: string
  dl_logs :: "log_entry list"
  dl_death_time :: nat

definition dead_worker_logs_new :: "nat \<Rightarrow> string \<Rightarrow> log_entry list \<Rightarrow> dead_worker_logs" where
  "dead_worker_logs_new now w h = \<lparr>dl_worker_id = w, dl_logs = h, dl_death_time = now\<rparr>"

definition dead_is_expired :: "nat \<Rightarrow> dead_worker_logs \<Rightarrow> bool" where
  "dead_is_expired now d \<longleftrightarrow> now - dl_death_time d > DEAD_WORKER_RETENTION"

definition dead_get_tail :: "nat option \<Rightarrow> dead_worker_logs \<Rightarrow> log_entry list" where
  "dead_get_tail max_lines d = tail_of max_lines (dl_logs d)"

record log_manager =
  log_buffers :: "log_buffer list"
  active_logs :: "string \<rightharpoonup> nat"
  dead_logs :: "string \<rightharpoonup> dead_worker_logs"

definition log_manager_new :: log_manager where
  "log_manager_new = \<lparr>log_buffers = [], active_logs = Map.empty, dead_logs = Map.empty\<rparr>"

definition register_worker :: "string \<Rightarrow> log_manager \<Rightarrow> log_manager \<times> nat" where
  "register_worker w m =
    (let i = length (log_buffers m) in
     (m\<lparr>log_buffers := log_buffers m @ [log_buffer_new], active_logs := (active_logs m)(w \<mapsto> i)\<rparr>, i))"

text \<open>A write through a shared buffer.\<close>

definition buffer_write :: "nat \<Rightarrow> string \<Rightarrow> nat \<Rightarrow> log_manager \<Rightarrow> log_manager" where
  "buffer_write now line i m =
    (if i < length (log_buffers m)
     then m\<lparr>log_buffers := (log_buffers m)[i := write_log now line (log_buffers m ! i)]\<rparr> else m)"

definition terminate_worker_logs :: "nat \<Rightarrow> string \<Rightarrow> log_manager \<Rightarrow> log_manager" where
  "terminate_worker_logs now w m = (case active_logs m w of
      Some i \<Rightarrow> m\<lparr>active_logs := (active_logs m)(w := None),
                 dead_logs := (dead_logs m)(w \<mapsto>
                   dead_worker_logs_new now w (log_history (log_buffers m ! i)))\<rparr>
    | None \<Rightarrow> m)"

definition manager_worker_logs :: "string \<Rightarrow> nat option \<Rightarrow> log_manager \<Rightarrow> log_entry list option" where
  "manager_worker_logs w tail_lines m = (case active_logs m w of
      Some i \<Rightarrow> Some (get_tail tail_lines (log_buffers m ! i))
    | None \<Rightarrow> map_option (dead_get_tail tail_lines) (dead_logs m w))"

definition get_worker_buffer :: "string \<Rightarrow> log_manager \<Rightarrow> nat option" where
  "get_worker_buffer w m = active_logs m w"

text \<open>A streamer is the buffer it subscribes to.\<close>

definition create_log_streamer :: "string \<Rightarrow> log_manager \<Rightarrow> nat option" where
  "create_log_streamer w m = active_logs m w"

text \<open>One round of the cleanup task.\<close>

definition cleanup_dead_logs :: "nat \<Rightarrow> log_manager \<Rightarrow> log_manager" where
  "cleanup_dead_logs now m = m\<lparr>dead_logs := (\<lambda>w. case dead_logs m w of
      Some d \<Rightarrow> if \<not> dead_is_expired now d then Some d else None
    | None \<Rightarrow> None)\<rparr>"

section \<open>The buffer's bounds\<close>

definition log_bytes :: "log_entry list \<Rightarrow> nat" where
  "log_bytes h = sum_list (map (length \<circ> log_line) h)"

lemma log_bytes_simps [simp]:
  "log_bytes [] = 0" "log_bytes (e # h) = length (log_line e) + log_bytes h"
  "log_bytes (g @ h) = log_bytes g + log_bytes h"
  by (simp_all add: log_bytes_def)

definition fits :: "log_entry list \<Rightarrow> bool" where
  "fits h \<longleftrightarrow> h = [] \<or> length h < MAX_LINES \<and> log_bytes h < MAX_BYTES"

lemma trim_spec:
  "\<exists>k \<le> length h. trim h (log_bytes h) = (drop k h, log_bytes (drop k h))
    \<and> fits (drop k h) \<and> (\<forall>j < k. \<not> fits (drop j h))"
proof (induction h)
  case (Cons e h)
  show ?case
  proof (cases "fits (e # h)")
    case True
    then show ?thesis by (intro exI [of _ 0]) (auto simp: fits_def)
  next
    case False
    from Cons obtain k where k: "k \<le> length h" "trim h (log_bytes h) = (drop k h, log_bytes (drop k h))"
      "fits (drop k h)" "\<forall>j < k. \<not> fits (drop j h)" by blast
    have "\<not> fits (drop j (e # h))" if "j < Suc k" for j using that False k(4) by (cases j) auto
    with k False show ?thesis by (intro exI [of _ "Suc k"]) (auto simp: fits_def)
  qed
qed (simp add: fits_def)

definition buffer_inv :: "log_entry list \<Rightarrow> log_buffer \<Rightarrow> bool" where
  "buffer_inv written buf \<longleftrightarrow> current_bytes buf = log_bytes (log_history buf)
     \<and> log_broadcast buf = written
     \<and> (\<exists>k \<le> length written. log_history buf = drop k written)
     \<and> (written \<noteq> [] \<longrightarrow> log_history buf \<noteq> [] \<and> fits (butlast (log_history buf)))"

lemma write_log_inv:
  assumes "buffer_inv written buf"
  shows "buffer_inv (written @ [\<lparr>log_line = line, log_timestamp = now\<rparr>]) (write_log now line buf)"
proof -
  let ?h = "log_history buf" and ?e = "\<lparr>log_line = line, log_timestamp = now\<rparr>"
  obtain k where k: "k \<le> length ?h" "trim ?h (log_bytes ?h) = (drop k ?h, log_bytes (drop k ?h))"
    "fits (drop k ?h)" using trim_spec by blast
  from assms obtain j where j: "j \<le> length written" "?h = drop j written" by (auto simp: buffer_inv_def)
  have "drop k ?h = drop (k + j) written" "k + j \<le> length written" using j k(1) by (simp_all add: add.commute)
  then have ex: "\<exists>k' \<le> length (written @ [?e]). drop k ?h @ [?e] = drop k' (written @ [?e])"
    by (intro exI [of _ "k + j"]) simp
  have w: "write_log now line buf = buf\<lparr>log_history := drop k ?h @ [?e],
      current_bytes := log_bytes (drop k ?h) + length line, log_broadcast := written @ [?e]\<rparr>"
    using assms k(2) by (simp add: buffer_inv_def write_log_def Let_def)
  show ?thesis unfolding buffer_inv_def w using ex k(3) by simp
qed

definition write_all :: "(nat \<times> string) list \<Rightarrow> log_buffer \<Rightarrow> log_buffer" where
  "write_all ls buf = foldl (\<lambda>buf (t, l). write_log t l buf) buf ls"

lemma write_all_inv:
  "buffer_inv written buf \<Longrightarrow>
   buffer_inv (written @ map (\<lambda>(t, l). \<lparr>log_line = l, log_timestamp = t\<rparr>) ls) (write_all ls buf)"
proof (induction ls arbitrary: written buf)
  case (Cons x ls)
  obtain t l where x: "x = (t, l)" by fastforce
  from Cons.IH [OF write_log_inv [OF Cons.prems, of l t]] show ?case by (simp add: write_all_def x)
qed (simp add: write_all_def)

section \<open>The manager's buffers\<close>

definition manager_inv :: "log_manager \<Rightarrow> bool" where
  "manager_inv m \<longleftrightarrow> ran (active_logs m) \<subseteq> {..<length (log_buffers m)}
     \<and> inj_on (active_logs m) (dom (active_logs m))
     \<and> (\<forall>buf \<in> set (log_buffers m). \<exists>written. buffer_inv written buf)"

datatype log_op =
    RegisterWorker string
  | WriteBuffer nat string nat
  | TerminateWorker nat string
  | CleanupDead nat

fun log_step :: "log_manager \<Rightarrow> log_op \<Rightarrow> log_manager" where
  "log_step m (RegisterWorker w) = fst (register_worker w m)"
| "log_step m (WriteBuffer t l i) = buffer_write t l i m"
| "log_step m (TerminateWorker t w) = terminate_worker_logs t w m"
| "log_step m (CleanupDead t) = cleanup_dead_logs t m"

lemma register_worker_inv: "manager_inv m \<Longrightarrow> manager_inv (fst (register_worker w m))"
proof -
  assume i: "manager_inv m"
  let ?n = "length (log_buffers m)"
  have fresh: "active_logs m x \<noteq> Some ?n" for x
    using i by (auto simp: manager_inv_def ran_def)
  have "inj_on ((active_logs m)(w \<mapsto> ?n)) (dom ((active_logs m)(w \<mapsto> ?n)))"
    using i fresh by (auto simp: manager_inv_def inj_on_def dom_def)
  moreover have "buffer_inv [] log_buffer_new" by (simp add: buffer_inv_def log_buffer_new_def)
  ultimately show ?thesis using i
    by (auto simp: manager_inv_def register_worker_def Let_def ran_def less_Suc_eq)
qed

lemma buffer_write_inv: "manager_inv m \<Longrightarrow> manager_inv (buffer_write t l i m)"
proof -
  assume m: "manager_inv m"
  have "\<exists>written. buffer_inv written (write_log t l (log_buffers m ! i))" if "i < length (log_buffers m)"
    using m that write_log_inv unfolding manager_inv_def by (meson nth_mem)
  with m show ?thesis
    by (auto simp: manager_inv_def buffer_write_def dest!: subsetD [OF set_update_subset_insert])
qed

lemma terminate_worker_logs_inv: "manager_inv m \<Longrightarrow> manager_inv (terminate_worker_logs t w m)"
  by (auto simp: manager_inv_def terminate_worker_logs_def ran_def inj_on_def dom_def split: option.split)

interpretation log_machine: invariant_machine log_step manager_inv
proof
  fix m op
  assume "manager_inv m"
  then show "manager_inv (log_step m op)"
    by (cases op) (simp_all add: register_worker_inv buffer_write_inv terminate_worker_logs_inv,
        simp add: manager_inv_def cleanup_dead_logs_def)
qed

lemma log_manager_new_inv: "manager_inv log_manager_new"
  by (simp add: manager_inv_def log_manager_new_def)

lemma buffer_write_other:
  assumes "manager_inv m" "active_logs m w = Some i" "w' \<noteq> w"
  shows "manager_worker_logs w' n (buffer_write t l i m) = manager_worker_logs w' n m"
proof (cases "active_logs m w'")
  case (Some j)
  then have "i \<noteq> j" using assms by (auto simp: manager_inv_def inj_on_def dom_def)
  then show ?thesis by (simp add: manager_worker_logs_def buffer_write_def Some)
qed (simp add: manager_worker_logs_def buffer_write_def)

section \<open>Properties\<close>

text \<open>
  The buffer of a worker holds the latest lines: after any sequence of writes it is a suffix of
  what was written (all of which went to the stream) that ends with the last line, has at most
  10000 lines, and without that last line it has fewer than 10 KiB. The byte count is exact.
\<close>

theorem log_buffer_keeps_latest:
  assumes "ls \<noteq> []"
  shows "let buf = write_all ls log_buffer_new;
             written = map (\<lambda>(t, l). \<lparr>log_line = l, log_timestamp = t\<rparr>) ls
         in log_broadcast buf = written
          \<and> (\<exists>k. get_all_logs buf = drop k written)
          \<and> get_all_logs buf \<noteq> [] \<and> last (get_all_logs buf) = last written
          \<and> length (get_all_logs buf) \<le> MAX_LINES
          \<and> log_bytes (butlast (get_all_logs buf)) < MAX_BYTES
          \<and> current_bytes buf = log_bytes (get_all_logs buf)"
proof -
  let ?buf = "write_all ls log_buffer_new"
  let ?w = "map (\<lambda>(t, l). \<lparr>log_line = l, log_timestamp = t\<rparr>) ls"
  have "buffer_inv [] log_buffer_new" by (simp add: buffer_inv_def log_buffer_new_def)
  from write_all_inv [OF this, of ls] have i: "buffer_inv ?w ?buf" by simp
  then obtain k where k: "log_history ?buf = drop k ?w" by (auto simp: buffer_inv_def)
  have ne: "log_history ?buf \<noteq> []" "fits (butlast (log_history ?buf))"
    using i assms by (auto simp: buffer_inv_def)
  then have "last (log_history ?buf) = last ?w" unfolding k by (simp add: last_drop)
  moreover have "length (log_history ?buf) \<le> MAX_LINES \<and> log_bytes (butlast (log_history ?buf)) < MAX_BYTES"
  proof (cases "butlast (log_history ?buf) = []")
    case True
    then have "length (log_history ?buf) \<le> 1" using length_butlast [of "log_history ?buf"] by simp
    then show ?thesis using True by (simp add: MAX_LINES_def MAX_BYTES_def)
  qed (use ne in \<open>auto simp: fits_def\<close>)
  ultimately show ?thesis using i k ne(1) by (auto simp: Let_def get_all_logs_def buffer_inv_def)
qed

theorem log_buffer_keeps_latest_witness:
  "log_bytes (butlast (get_all_logs (write_all [(1, ''first''), (2, ''second'')] log_buffer_new))) < MAX_BYTES"
  using log_buffer_keeps_latest [of "[(1, ''first''), (2, ''second'')]"] by (simp add: Let_def)

text \<open>
  Lines are given up only to make room, oldest first: a write keeps the longest suffix of the
  previous history that is empty or has fewer than 10000 lines and 10 KiB, and adds the new line
  whole, however long it is.
\<close>

theorem write_log_evicts_minimally:
  assumes "current_bytes buf = log_bytes (log_history buf)"
  shows "\<exists>k. log_history (write_log t l buf)
        = drop k (log_history buf) @ [\<lparr>log_line = l, log_timestamp = t\<rparr>]
    \<and> fits (drop k (log_history buf)) \<and> (\<forall>j < k. \<not> fits (drop j (log_history buf)))
    \<and> log_bytes (log_history (write_log t l buf)) < MAX_BYTES + length l"
proof -
  let ?h = "log_history buf"
  obtain k where k: "trim ?h (log_bytes ?h) = (drop k ?h, log_bytes (drop k ?h))"
    "fits (drop k ?h)" "\<forall>j < k. \<not> fits (drop j ?h)" using trim_spec [of ?h] by blast
  have h: "log_history (write_log t l buf) = drop k ?h @ [\<lparr>log_line = l, log_timestamp = t\<rparr>]"
    using k(1) assms by (simp add: write_log_def Let_def)
  have "log_bytes (drop k ?h) < MAX_BYTES"
    using k(2) unfolding fits_def by (elim disjE) (simp_all add: MAX_BYTES_def)
  with h k(2,3) show ?thesis by (intro exI [of _ k]) simp
qed

theorem write_log_evicts_minimally_witness:
  "\<exists>k. log_history (write_log 5 ''next'' log_buffer_new)
     = drop k [] @ [\<lparr>log_line = ''next'', log_timestamp = 5\<rparr>]"
  using write_log_evicts_minimally [of log_buffer_new 5 "''next''"] by (simp add: log_buffer_new_def)

text \<open>
  The logs of a worker outlive it: after the termination of an active worker its logs are returned as before and no longer change through the buffer that its
  tasks still hold; no stream can be opened; the cleanup task keeps them for five minutes and drops
  them afterwards.
\<close>

theorem dead_logs_retained:
  assumes "active_logs m w = Some i"
  shows "let m' = terminate_worker_logs t w m in
      manager_worker_logs w n m' = manager_worker_logs w n m
    \<and> manager_worker_logs w n (buffer_write t' l j m') = manager_worker_logs w n m
    \<and> create_log_streamer w m' = None
    \<and> (now \<le> t + DEAD_WORKER_RETENTION \<longrightarrow>
         manager_worker_logs w n (cleanup_dead_logs now m') = manager_worker_logs w n m)
    \<and> (t + DEAD_WORKER_RETENTION < now \<longrightarrow> manager_worker_logs w n (cleanup_dead_logs now m') = None)"
  using assms
  by (auto simp: Let_def manager_worker_logs_def terminate_worker_logs_def buffer_write_def
      create_log_streamer_def cleanup_dead_logs_def dead_is_expired_def dead_worker_logs_new_def
      get_tail_def dead_get_tail_def)

text \<open>
  Workers do not see each other's logs: in every state the manager reaches, a write to the buffer
  of one worker leaves the logs of every other worker as they are and appends the line to its own.
\<close>

theorem logs_isolated:
  assumes "m = foldl log_step log_manager_new ops" "active_logs m w = Some i" "w' \<noteq> w"
  shows "manager_worker_logs w' n (buffer_write t l i m) = manager_worker_logs w' n m
    \<and> (\<exists>old. manager_worker_logs w None (buffer_write t l i m)
          = Some (old @ [\<lparr>log_line = l, log_timestamp = t\<rparr>])
        \<and> (\<exists>k. Some old = map_option (drop k) (manager_worker_logs w None m)))"
proof -
  have inv: "manager_inv m" unfolding assms(1) by (rule log_machine.run_inv [OF log_manager_new_inv])
  then have i: "i < length (log_buffers m)" using assms(2) by (auto simp: manager_inv_def ran_def)
  let ?b = "log_buffers m ! i"
  have "current_bytes ?b = log_bytes (log_history ?b)" using inv i by (auto simp: manager_inv_def buffer_inv_def)
  then obtain k where "log_history (write_log t l ?b)
      = drop k (log_history ?b) @ [\<lparr>log_line = l, log_timestamp = t\<rparr>]"
    using trim_spec [of "log_history ?b"] by (auto simp: write_log_def Let_def)
  moreover have all: "tail_of None h = h" for h by (simp add: tail_of_def Let_def)
  ultimately show ?thesis using buffer_write_other [OF inv assms(2,3)] assms(2) i
    by (auto simp: manager_worker_logs_def buffer_write_def get_tail_def)
qed

definition sample_log_ops :: "log_op list" where
  "sample_log_ops = [RegisterWorker ''a'', RegisterWorker ''b'', WriteBuffer 1 ''one'' 0]"

lemma sample_log_state:
  "active_logs (foldl log_step log_manager_new sample_log_ops) ''a'' = Some 0"
  "manager_worker_logs ''a'' None (foldl log_step log_manager_new sample_log_ops)
     = Some [\<lparr>log_line = ''one'', log_timestamp = 1\<rparr>]"
  "manager_worker_logs ''b'' None (foldl log_step log_manager_new sample_log_ops) = Some []"
  by (simp_all add: sample_log_ops_def log_manager_new_def register_worker_def buffer_write_def
      write_log_def log_buffer_new_def Let_def manager_worker_logs_def get_tail_def tail_of_def)

theorem dead_logs_retained_witness:
  "manager_worker_logs ''a'' None
     (terminate_worker_logs 7 ''a'' (foldl log_step log_manager_new sample_log_ops))
   = Some [\<lparr>log_line = ''one'', log_timestamp = 1\<rparr>]"
  using dead_logs_retained [OF sample_log_state(1)] sample_log_state(2) by (simp add: Let_def)

theorem logs_isolated_witness:
  "manager_worker_logs ''b'' None
     (buffer_write 2 ''two'' 0 (foldl log_step log_manager_new sample_log_ops)) = Some []"
  using logs_isolated [OF refl sample_log_state(1), of "''b''" None 2 "''two''"] sample_log_state(3)
  by simp

end
