(* ===== verification/Vm_Server.thy ===== *)
theory Vm_Server
  imports Daemon_Base Worker_Logs
begin

text \<open>
  The service that a VM offers to the enclave (\<open>src/node/vm/base/src/server/mod.rs\<close>): the trait
  \<open>VmRuntime\<close> as a record of operations, the gRPC handlers over any runtime, and the locale of the laws
  that the runtimes of this code base keep.

  A call of a runtime takes its state, which holds its world, and returns a result and the state after
  it, or nothing when it does not return. A \<open>VmError\<close> is its text.
\<close>

section \<open>The trait\<close>

datatype worker_status = WsUnspecified | WsStarting | WsRunning | WsStopping | WsStopped | WsError

fun status_code :: "worker_status \<Rightarrow> int" where
  "status_code WsUnspecified = 0"
| "status_code WsStarting = 1"
| "status_code WsRunning = 2"
| "status_code WsStopping = 3"
| "status_code WsStopped = 4"
| "status_code WsError = 5"

fun status_text :: "worker_status \<Rightarrow> string" where
  "status_text WsUnspecified = ''Unspecified''"
| "status_text WsStarting = ''Starting''"
| "status_text WsRunning = ''Running''"
| "status_text WsStopping = ''Stopping''"
| "status_text WsStopped = ''Stopped''"
| "status_text WsError = ''Error''"

text \<open>\<open>WorkerStatus::try_from\<close> of a stored code, with \<open>Unspecified\<close> for other codes.\<close>

definition status_of_code :: "int \<Rightarrow> worker_status" where
  "status_of_code n = (if n = 1 then WsStarting else if n = 2 then WsRunning else if n = 3 then WsStopping
     else if n = 4 then WsStopped else if n = 5 then WsError else WsUnspecified)"

lemma status_of_code_inverse [simp]: "status_of_code (status_code s) = s"
  by (cases s) (simp_all add: status_of_code_def)

record vm_limits =
  vl_memory_mb :: u64
  vl_cpu_count :: u32
  vl_max_runtime_seconds :: u64

record untrusted_config =
  uc_userdata_json :: string
  uc_advanced :: "(string \<times> string) list"

record trusted_config =
  tc_secrets :: "(string \<times> bytes) list"
  tc_limits :: "vm_limits option"

record vm_header =
  vh_key :: string
  vh_value :: bytes

record vm_http_request =
  vr_method :: string
  vr_uri :: string
  vr_headers :: "vm_header list"
  vr_body :: bytes

record vm_http_response =
  vs_status_code :: nat
  vs_headers :: "vm_header list"
  vs_body :: bytes

record log_response =
  lr_line :: string
  lr_timestamp_ms :: nat
  lr_is_historical :: bool

text \<open>A stream of logs: what is sent at once, and the buffer that is followed from then on.\<close>

record log_stream =
  ls_sent :: "log_response list"
  ls_follow :: "nat option"

type_synonym ('s, 'a) vm_call = "'s \<Rightarrow> ((string + 'a) \<times> 's) option"

record ('s, 'b) vm_runtime =
  rt_start :: "string \<Rightarrow> bytes \<Rightarrow> untrusted_config \<Rightarrow> trusted_config \<Rightarrow> ('s, string) vm_call"
  rt_stop :: "string \<Rightarrow> ('s, unit) vm_call"
  rt_invoke :: "string \<Rightarrow> string \<Rightarrow> bytes \<Rightarrow> ('s, bytes) vm_call"
  rt_invoke_http :: "string \<Rightarrow> vm_http_request \<Rightarrow> ('s, vm_http_response) vm_call"
  rt_attestation :: "bytes \<Rightarrow> ('s, 'b) vm_call"
  rt_status :: "string \<Rightarrow> ('s, worker_status) vm_call"
  rt_list_running :: "('s, string list) vm_call"
  rt_logs :: "string \<Rightarrow> ('s, string) vm_call"
  rt_stream_logs :: "string \<Rightarrow> u32 \<Rightarrow> bool \<Rightarrow> ('s, log_stream) vm_call"
  rt_probe :: "string \<Rightarrow> ('s, worker_status \<times> string) vm_call"

definition vm_return :: "string + 'a \<Rightarrow> ('s, 'a) vm_call" where
  "vm_return r s = Some (r, s)"

section \<open>The gRPC handlers\<close>

datatype vm_grpc_status = InvalidArgument string | InternalStatus string

definition answer ::
  "('s, 'a) vm_call \<Rightarrow> (string + 'a \<Rightarrow> vm_grpc_status + 'r) \<Rightarrow> 's \<Rightarrow> ((vm_grpc_status + 'r) \<times> 's) option" where
  "answer m f s = map_option (\<lambda>(r, s'). (f r, s')) (m s)"

record start_request =
  sq_worker_id :: string
  sq_code :: bytes
  sq_untrusted :: "untrusted_config option"
  sq_trusted :: "trusted_config option"

record 'a vm_reply =
  vy_value :: 'a
  vy_success :: bool
  vy_error_message :: string

definition vm_reply_of :: "'a \<Rightarrow> string + 'a \<Rightarrow> 'a vm_reply" where
  "vm_reply_of d r = (case r of
      Inr x \<Rightarrow> \<lparr>vy_value = x, vy_success = True, vy_error_message = []\<rparr>
    | Inl e \<Rightarrow> \<lparr>vy_value = d, vy_success = False, vy_error_message = e\<rparr>)"

definition internal_error :: "string \<Rightarrow> string + 'a \<Rightarrow> vm_grpc_status + 'a" where
  "internal_error what r = map_err (\<lambda>e. InternalStatus (what @ e)) r"

definition untrusted_default :: untrusted_config where
  "untrusted_default = \<lparr>uc_userdata_json = [], uc_advanced = []\<rparr>"

definition trusted_default :: trusted_config where
  "trusted_default = \<lparr>tc_secrets = [], tc_limits = None\<rparr>"

definition serve_start_worker ::
  "('s, 'b) vm_runtime \<Rightarrow> start_request \<Rightarrow> 's \<Rightarrow> ((vm_grpc_status + string vm_reply) \<times> 's) option" where
  "serve_start_worker rt q = answer (rt_start rt (sq_worker_id q) (sq_code q)
     (unwrap_or untrusted_default (sq_untrusted q)) (unwrap_or trusted_default (sq_trusted q)))
     (\<lambda>r. Inr (vm_reply_of [] r))"

definition serve_stop_worker ::
  "('s, 'b) vm_runtime \<Rightarrow> string \<Rightarrow> 's \<Rightarrow> ((vm_grpc_status + unit vm_reply) \<times> 's) option" where
  "serve_stop_worker rt i = answer (rt_stop rt i) (\<lambda>r. Inr (vm_reply_of () r))"

definition serve_invoke_worker ::
  "('s, 'b) vm_runtime \<Rightarrow> string \<Rightarrow> string \<Rightarrow> bytes \<Rightarrow> 's \<Rightarrow> ((vm_grpc_status + bytes vm_reply) \<times> 's) option" where
  "serve_invoke_worker rt i hnd p = answer (rt_invoke rt i hnd p) (\<lambda>r. Inr (vm_reply_of [] r))"

definition serve_invoke_http ::
  "('s, 'b) vm_runtime \<Rightarrow> string \<Rightarrow> vm_http_request option \<Rightarrow> 's
     \<Rightarrow> ((vm_grpc_status + vm_http_response) \<times> 's) option" where
  "serve_invoke_http rt i q s = (case q of
      None \<Rightarrow> Some (Inl (InvalidArgument ''Missing HttpRequest in InvokeHttpRequest''), s)
    | Some q \<Rightarrow> answer (rt_invoke_http rt i q) (internal_error ''HTTP invocation failed: '') s)"

definition serve_get_attestation ::
  "('b \<Rightarrow> 'p) \<Rightarrow> ('s, 'b) vm_runtime \<Rightarrow> bytes \<Rightarrow> 's \<Rightarrow> ((vm_grpc_status + 'p) \<times> 's) option" where
  "serve_get_attestation to_proto rt u = answer (rt_attestation rt u)
     (\<lambda>r. rbind (internal_error ''Failed to get attestation: '' r) (\<lambda>b. Inr (to_proto b)))"

definition serve_worker_status ::
  "('s, 'b) vm_runtime \<Rightarrow> string \<Rightarrow> 's \<Rightarrow> ((vm_grpc_status + string \<times> int vm_reply) \<times> 's) option" where
  "serve_worker_status rt i = answer (rt_status rt i)
     (\<lambda>r. Inr (i, vm_reply_of (status_code WsUnspecified) (rbind r (\<lambda>st. Inr (status_code st)))))"

definition serve_list_running ::
  "('s, 'b) vm_runtime \<Rightarrow> 's \<Rightarrow> ((vm_grpc_status + string list) \<times> 's) option" where
  "serve_list_running rt = answer (rt_list_running rt) (internal_error ''Failed to list running workers: '')"

definition serve_worker_logs ::
  "('s, 'b) vm_runtime \<Rightarrow> string \<Rightarrow> 's \<Rightarrow> ((vm_grpc_status + string vm_reply) \<times> 's) option" where
  "serve_worker_logs rt i = answer (rt_logs rt i) (\<lambda>r. Inr (vm_reply_of [] r))"

definition serve_stream_logs ::
  "('s, 'b) vm_runtime \<Rightarrow> string \<Rightarrow> u32 \<Rightarrow> bool \<Rightarrow> 's \<Rightarrow> ((vm_grpc_status + log_stream) \<times> 's) option" where
  "serve_stream_logs rt i n follow =
    answer (rt_stream_logs rt i n follow) (internal_error ''Failed to stream worker logs: '')"

definition serve_probe_worker ::
  "('s, 'b) vm_runtime \<Rightarrow> string \<Rightarrow> 's \<Rightarrow> ((vm_grpc_status + int \<times> string) \<times> 's) option" where
  "serve_probe_worker rt i = answer (rt_probe rt i)
     (\<lambda>r. rbind (internal_error ''Failed to probe worker: '' r) (\<lambda>(st, m). Inr (status_code st, m)))"

section \<open>Logs of a VM\<close>

text \<open>
  Both runtimes stream logs from their log manager in the same way. Every historical line carries the
  time of the call; a stream follows the buffer only while the worker is active. The lines are put into
  the channel before its receiver is handed out, so that a send beyond the channel's capacity waits
  forever: then there is no answer.
\<close>

definition STREAM_CAPACITY :: nat where
  "STREAM_CAPACITY = 1000"

definition stream_from_manager ::
  "string \<Rightarrow> nat \<Rightarrow> log_manager \<Rightarrow> string \<Rightarrow> u32 \<Rightarrow> bool \<Rightarrow> (string + log_stream) option" where
  "stream_from_manager not_found now_ms m i n follow =
    (case manager_worker_logs i (if 0 < n then Some (unat n) else None) m of
       None \<Rightarrow> Some (Inl not_found)
     | Some es \<Rightarrow> if STREAM_CAPACITY < length es then None
         else Some (Inr \<lparr>ls_sent = map (\<lambda>e. \<lparr>lr_line = log_line e, lr_timestamp_ms = now_ms, lr_is_historical = True\<rparr>) es,
                         ls_follow = (if follow then create_log_streamer i m else None)\<rparr>))"

lemma write_log_keeps:
  assumes "buffer_inv written buf" "fits (log_history buf)"
  shows "log_history (write_log now line buf) = log_history buf @ [\<lparr>log_line = line, log_timestamp = now\<rparr>]"
proof -
  from assms(2) have "trim (log_history buf) (log_bytes (log_history buf)) = (log_history buf, log_bytes (log_history buf))"
    by (cases "log_history buf") (auto simp: fits_def)
  with assms(1) show ?thesis by (simp add: buffer_inv_def write_log_def Let_def)
qed

text \<open>Short lines are all kept, up to the two limits of the buffer.\<close>

lemma write_all_keeps:
  assumes "length ls \<le> MAX_LINES" "sum_list (map (length \<circ> snd) ls) < MAX_BYTES"
  shows "log_history (write_all ls log_buffer_new) = map (\<lambda>(t, l). \<lparr>log_line = l, log_timestamp = t\<rparr>) ls"
  using assms
proof (induction ls rule: rev_induct)
  case (snoc x ls)
  obtain t l where x: "x = (t, l)" by fastforce
  let ?b = "write_all ls log_buffer_new"
  have h: "log_history ?b = map (\<lambda>(t, l). \<lparr>log_line = l, log_timestamp = t\<rparr>) ls" using snoc by simp
  have "log_bytes (log_history ?b) = sum_list (map (length \<circ> snd) ls)"
    unfolding h log_bytes_def by (induction ls) auto
  moreover have "sum_list (map (length \<circ> snd) ls) \<le> sum_list (map (length \<circ> snd) (ls @ [x]))" by simp
  ultimately have "fits (log_history ?b)" using snoc.prems by (simp add: fits_def h comp_def)
  moreover have "buffer_inv (map (\<lambda>(t, l). \<lparr>log_line = l, log_timestamp = t\<rparr>) ls) ?b"
    using write_all_inv [of "[]" log_buffer_new ls] by (simp add: buffer_inv_def log_buffer_new_def)
  ultimately have "log_history (write_log t l ?b) = log_history ?b @ [\<lparr>log_line = l, log_timestamp = t\<rparr>]"
    by (rule write_log_keeps [rotated])
  then show ?case by (simp add: write_all_def x h [unfolded write_all_def])
qed (simp add: write_all_def log_buffer_new_def)

text \<open>
  A worker that has written more than a thousand short lines, which its buffer keeps, can never have its
  logs streamed from the start: the call waits for room in a channel that nobody reads yet.
\<close>

theorem long_history_never_streamed:
  assumes "STREAM_CAPACITY < length ls" "length ls \<le> MAX_LINES" "sum_list (map (length \<circ> snd) ls) < MAX_BYTES"
    and "active_logs m i = Some j" "log_buffers m ! j = write_all ls log_buffer_new"
  shows "stream_from_manager e now m i 0 follow = None"
  using assms write_all_keeps [OF assms(2,3)]
  by (cases "ls = []") (simp_all add: stream_from_manager_def manager_worker_logs_def get_tail_def tail_of_def Let_def)

theorem long_history_never_streamed_witness:
  "stream_from_manager ''?'' 0 \<lparr>log_buffers = [write_all (replicate 1001 (0, ''stdout:'')) log_buffer_new],
      active_logs = [''w'' \<mapsto> 0], dead_logs = Map.empty\<rparr> ''w'' 0 True = None"
  by (rule long_history_never_streamed [where ls = "replicate 1001 (0, ''stdout:'')" and j = 0])
    (simp_all add: STREAM_CAPACITY_def MAX_LINES_def MAX_BYTES_def sum_list_replicate)

section \<open>The laws of a runtime\<close>

locale runtime =
  fixes rt :: "('s, 'b) vm_runtime"
    and status :: "'s \<Rightarrow> string \<Rightarrow> worker_status option"
    and ok :: "'s \<Rightarrow> bool"
  assumes status_reads: "ok s \<Longrightarrow> \<exists>e. rt_status rt i s = Some ((case status s i of Some st \<Rightarrow> Inr st | None \<Rightarrow> Inl e), s)"
    and list_reads: "ok s \<Longrightarrow> \<exists>ids. rt_list_running rt s = Some (Inr ids, s) \<and> set ids = {i. status s i = Some WsRunning}"
    and invoke_guard: "ok s \<Longrightarrow> status s i \<noteq> Some WsRunning \<Longrightarrow> \<exists>e. rt_invoke rt i hnd p s = Some (Inl e, s)"
    and http_guard: "ok s \<Longrightarrow> status s i \<noteq> Some WsRunning \<Longrightarrow> \<exists>e. rt_invoke_http rt i q s = Some (Inl e, s)"
    and stop_stops: "ok s \<Longrightarrow> rt_stop rt i s = Some (Inr (), s') \<Longrightarrow> ok s' \<and> status s' i \<noteq> Some WsRunning"
begin

lemma stopped_not_invoked:
  assumes "ok s" "serve_stop_worker rt i s = Some (Inr r, s')" "vy_success r"
  shows "(\<exists>r'. serve_invoke_worker rt i hnd p s' = Some (Inr r', s') \<and> \<not> vy_success r' \<and> vy_value r' = [])
    \<and> (\<exists>e. serve_invoke_http rt i q s' = Some (Inl e, s'))"
proof -
  from assms(2) obtain x where x: "rt_stop rt i s = Some (x, s')" "r = vm_reply_of () x"
    by (auto simp: serve_stop_worker_def answer_def)
  with assms(3) have "rt_stop rt i s = Some (Inr (), s')" by (cases x) (simp_all add: vm_reply_of_def)
  from stop_stops [OF assms(1) this] have s': "ok s'" "status s' i \<noteq> Some WsRunning" by auto
  from invoke_guard [OF s'] http_guard [OF s'] show ?thesis
    by (fastforce simp: serve_invoke_worker_def serve_invoke_http_def answer_def vm_reply_of_def internal_error_def
        split: option.split)
qed

lemma listed_iff_running:
  assumes "ok s"
  shows "\<exists>ids. serve_list_running rt s = Some (Inr ids, s)
    \<and> (\<forall>i. i \<in> set ids \<longleftrightarrow> (\<exists>r. serve_worker_status rt i s = Some (Inr (i, r), s) \<and> vy_success r
         \<and> vy_value r = status_code WsRunning))"
proof -
  from list_reads [OF assms] obtain ids where ids: "rt_list_running rt s = Some (Inr ids, s)"
    "set ids = {i. status s i = Some WsRunning}" by blast
  have code: "status_code st = 2 \<longleftrightarrow> st = WsRunning" for st by (cases st) simp_all
  have "(\<exists>r. serve_worker_status rt i s = Some (Inr (i, r), s) \<and> vy_success r \<and> vy_value r = status_code WsRunning)
      \<longleftrightarrow> status s i = Some WsRunning" for i
    using status_reads [OF assms, of i]
    by (auto simp: serve_worker_status_def answer_def vm_reply_of_def code split: option.splits)
  with ids show ?thesis by (auto simp: serve_list_running_def answer_def internal_error_def)
qed

end

end
