(* ===== verification/Json_Values.thy ===== *)
theory Json_Values
  imports Prelude
begin

text \<open>
  JSON values as the code handles them (\<open>serde_json::Value\<close>). An object is the list of its fields in
  the order of the map, which sorts them by key; \<open>json_insert\<close> keeps that order.
\<close>

datatype json_number = PosInt u64 | NegInt int | FloatNumber string

datatype json =
    JNull
  | JBool bool
  | JNumber json_number
  | JString string
  | JArray "json list"
  | JObject "(string \<times> json) list"

type_synonym json_fields = "(string \<times> json) list"

text \<open>Keys are compared by their bytes.\<close>

fun key_less :: "string \<Rightarrow> string \<Rightarrow> bool" where
  "key_less [] ys \<longleftrightarrow> ys \<noteq> []"
| "key_less (x # xs) [] \<longleftrightarrow> False"
| "key_less (x # xs) (y # ys) \<longleftrightarrow>
    (of_char x :: nat) < of_char y \<or> (x = y \<and> key_less xs ys)"

fun json_insert :: "string \<Rightarrow> json \<Rightarrow> json_fields \<Rightarrow> json_fields" where
  "json_insert k v [] = [(k, v)]"
| "json_insert k v ((k', v') # kvs) =
    (if k = k' then (k, v) # kvs
     else if key_less k k' then (k, v) # (k', v') # kvs
     else (k', v') # json_insert k v kvs)"

definition json_get :: "string \<Rightarrow> json_fields \<Rightarrow> json option" where
  "json_get k kvs = map_of kvs k"

definition json_object :: "json_fields \<Rightarrow> json" where
  "json_object kvs = JObject (foldl (\<lambda>m (k, v). json_insert k v m) [] kvs)"

fun as_str :: "json \<Rightarrow> string option" where
  "as_str (JString s) = Some s"
| "as_str _ = None"

fun as_u64 :: "json \<Rightarrow> u64 option" where
  "as_u64 (JNumber (PosInt n)) = Some n"
| "as_u64 _ = None"

fun as_object :: "json \<Rightarrow> json_fields option" where
  "as_object (JObject kvs) = Some kvs"
| "as_object _ = None"

section \<open>Insertion\<close>

lemma json_insert_map: "distinct (map fst kvs) \<Longrightarrow> map_of (json_insert k v kvs) = (map_of kvs)(k \<mapsto> v)"
  by (induction k v kvs rule: json_insert.induct) (auto simp: fun_eq_iff)

lemma json_insert_keys: "fst ` set (json_insert k v kvs) = insert k (fst ` set kvs)"
  by (induction k v kvs rule: json_insert.induct) auto

lemma json_get_insert [simp]: "json_get k (json_insert k v kvs) = Some v"
  by (induction k v kvs rule: json_insert.induct) (auto simp: json_get_def)

lemma json_get_insert_other [simp]: "k \<noteq> k' \<Longrightarrow> json_get k' (json_insert k v kvs) = json_get k' kvs"
  by (induction k v kvs rule: json_insert.induct) (auto simp: json_get_def)

lemma json_object_get: "distinct (map fst kvs) \<Longrightarrow> as_object (json_object kvs) = Some m \<Longrightarrow> json_get k m = map_of kvs k"
proof -
  have "json_get k (foldl (\<lambda>m (k, v). json_insert k v m) acc kvs)
      = (case map_of kvs k of Some v \<Rightarrow> Some v | None \<Rightarrow> json_get k acc)"
    if "distinct (map fst kvs)" for acc
    using that
  proof (induction kvs arbitrary: acc)
    case (Cons x kvs)
    obtain k' v' where x: "x = (k', v')" by fastforce
    with Cons.prems have n: "map_of kvs k' = None" by (simp add: map_of_eq_None_iff)
    from Cons.IH [of "json_insert k' v' acc"] Cons.prems n x show ?case
      by (cases "k = k'") (auto split: option.split)
  qed simp
  then show "distinct (map fst kvs) \<Longrightarrow> as_object (json_object kvs) = Some m \<Longrightarrow> json_get k m = map_of kvs k"
    by (auto simp: json_object_def json_get_def split: option.split)
qed

end
