(* ===== verification/Daemon_Http.thy ===== *)
theory Daemon_Http
  imports Daemon_Orders Vm_Server Json_Values
begin

text \<open>
  The daemon's HTTP server (\<open>src/node/daemon/src/http_server.rs\<close>): the registry of connected peers, the
  handler that forwards requests to mounted workers, the handlers of the API and the routes that the
  configuration gives.

  A handler is a call on the state of the daemon and the world. Its result is the reply, built from
  the status, the headers that the handler sets and the body; framing, routing and JSON text are the
  web framework's. The enclave's theories carry the messages of an HTTP invocation as bytes:
  \<open>hx_pack\<close> and \<open>hx_unpack\<close> are the two views of one message.
\<close>

section \<open>Connected peers\<close>

type_synonym peer_registry = "string \<rightharpoonup> string set"

definition peers_new :: peer_registry where
  "peers_new = Map.empty"

definition add_peer :: "string \<Rightarrow> string \<Rightarrow> peer_registry \<Rightarrow> peer_registry" where
  "add_peer peer_id addr ps =
    ps(peer_id \<mapsto> insert addr (case ps peer_id of Some as \<Rightarrow> as | None \<Rightarrow> {}))"

definition remove_peer_addr :: "string \<Rightarrow> string \<Rightarrow> peer_registry \<Rightarrow> peer_registry" where
  "remove_peer_addr peer_id addr ps = (case ps peer_id of
      None \<Rightarrow> ps
    | Some as \<Rightarrow> if as - {addr} = {} then ps(peer_id := None) else ps(peer_id \<mapsto> as - {addr}))"

definition remove_peer :: "string \<Rightarrow> peer_registry \<Rightarrow> peer_registry" where
  "remove_peer peer_id ps = ps(peer_id := None)"

section \<open>Requests and replies\<close>

record incoming_request =
  rq_method :: string
  rq_path :: string
  rq_query :: "string option"
  rq_headers :: "(string \<times> bytes) list"
  rq_body :: "string + bytes"

text \<open>The lists of peers and VMs of a status have no order of their own.\<close>

record status_response =
  st_health :: string
  st_peer_id :: string
  st_connected_peers :: peer_registry
  st_vm_ids :: "string set"

record sse_event =
  se_event :: string
  se_data :: string

datatype http_body =
    PlainText string
  | RawBody bytes
  | ErrorJson string
  | SubmittedJson string bool
  | StatusJson status_response
  | EnvReportJson json "json option"
  | LogsJson json
  | EventStream "sse_event list"

record http_reply =
  hp_status :: nat
  hp_headers :: "(string \<times> bytes) list"
  hp_body :: http_body

definition reply :: "nat \<Rightarrow> http_body \<Rightarrow> http_reply" where
  "reply st b = \<lparr>hp_status = st, hp_headers = [], hp_body = b\<rparr>"

record http_ext =
  hx_pack :: "vm_http_request \<Rightarrow> bytes"
  hx_unpack :: "bytes \<Rightarrow> vm_http_response"
  hx_header_name :: "string \<Rightarrow> string option"
  hx_header_value_ok :: "bytes \<Rightarrow> bool"
  hx_headers_fit :: "(string \<times> bytes) list \<Rightarrow> bool"
  hx_attestation_json :: "attestation_bundle \<Rightarrow> string + json"
  hx_signature_json :: "operator_signature \<Rightarrow> string + json"
  hx_peer_id :: string

record 'j app_state =
  as_orders :: "'j orchestrator"
  as_peers :: peer_registry

definition on_orders :: "('j orchestrator \<times> 'w, 'e, 'a) call \<Rightarrow> ('j app_state \<times> 'w, 'e, 'a) call" where
  "on_orders m = (\<lambda>(s, w). case m (as_orders s, w) of (r, (o', w')) \<Rightarrow> (r, (s\<lparr>as_orders := o'\<rparr>, w')))"

section \<open>Errors of the API\<close>

definition api_error_message :: "app_error \<Rightarrow> nat \<times> string" where
  "api_error_message e = (case e of
      AppValidation _ \<Rightarrow> (400, app_error_text e)
    | AppAuthorization _ \<Rightarrow> (403, app_error_text e)
    | _ \<Rightarrow> (500, ''An internal error occurred''))"

definition api_error_reply :: "app_error \<Rightarrow> http_reply" where
  "api_error_reply e = (case api_error_message e of (st, msg) \<Rightarrow> reply st (ErrorJson msg))"

text \<open>A handler that returns \<open>Result<_, ApiError>\<close>; a panic closes the connection without a reply.\<close>

definition api_result :: "('s, http_reply) io \<Rightarrow> ('s, http_reply) io" where
  "api_result m = io_match m (\<lambda>r. case r of Inr x \<Rightarrow> io_ok x | Inl e \<Rightarrow> io_ok (api_error_reply e))"

section \<open>Forwarding to workers\<close>

definition mount_path :: "string \<Rightarrow> string \<times> string" where
  "mount_path path =
    (let path = dropWhile (\<lambda>c. c = CHR ''/'') path
     in case split_once CHR ''/'' path of Some x \<Rightarrow> x | None \<Rightarrow> (path, []))"

definition worker_uri :: "string \<Rightarrow> string option \<Rightarrow> string" where
  "worker_uri path query = ''/'' @ path @ (case query of Some q \<Rightarrow> ''?'' @ q | None \<Rightarrow> [])"

definition forwarded_request :: "string \<Rightarrow> bytes \<Rightarrow> incoming_request \<Rightarrow> vm_http_request" where
  "forwarded_request path body req =
    \<lparr>vr_method = rq_method req, vr_uri = worker_uri path (rq_query req),
     vr_headers = map (\<lambda>(k, v). \<lparr>vh_key = k, vh_value = v\<rparr>) (rq_headers req), vr_body = body\<rparr>"

text \<open>The status is cut to 16 bits; a number that is no status becomes 500.\<close>

definition reply_status :: "nat \<Rightarrow> nat" where
  "reply_status n = (let st = unat (word_of_nat n :: 16 word) in if 100 \<le> st \<and> st < 1000 then st else 500)"

fun reply_headers :: "http_ext \<Rightarrow> vm_header list \<Rightarrow> (string \<times> bytes) list" where
  "reply_headers hx [] = []"
| "reply_headers hx (h # hs) = (case hx_header_name hx (vh_key h) of
      Some name \<Rightarrow> if hx_header_value_ok hx (vh_value h) then (name, vh_value h) # reply_headers hx hs
                  else reply_headers hx hs
    | None \<Rightarrow> reply_headers hx hs)"

definition worker_reply :: "http_ext \<Rightarrow> vm_http_response \<Rightarrow> http_reply" where
  "worker_reply hx r =
    (let hs = reply_headers hx (vs_headers r)
     in if hx_headers_fit hx hs
        then \<lparr>hp_status = reply_status (vs_status_code r), hp_headers = hs, hp_body = RawBody (vs_body r)\<rparr>
        else reply 500 (PlainText ''Internal server error''))"

definition universal_http_handler ::
  "http_ext \<Rightarrow> 'w enclave_rpc \<Rightarrow> incoming_request \<Rightarrow> ('j app_state \<times> 'w, http_reply) io" where
  "universal_http_handler hx rpc req = (\<lambda>(s, w).
    let (segment, path) = mount_path (rq_path req) in
    if segment = [] then (Inr (reply 404 (PlainText ''Not Found'')), (s, w))
    else case or_mounts (as_orders s) segment of
        None \<Rightarrow> (Inr (reply 404 (PlainText (''No worker mounted at segment: '' @ segment))), (s, w))
      | Some worker_id \<Rightarrow> (case rq_body req of
            Inl _ \<Rightarrow> (Inr (reply 500 (PlainText ''Failed to read request body'')), (s, w))
          | Inr body \<Rightarrow>
              (case client_invoke_http_worker rpc worker_id (hx_pack hx (forwarded_request path body req)) w of
                 (Inr resp, w') \<Rightarrow> (Inr (worker_reply hx (hx_unpack hx resp)), (s, w'))
               | (Inl e, w') \<Rightarrow> (Inr (reply 500 (PlainText (''Error processing request: '' @ e))), (s, w')))))"

section \<open>The API\<close>

text \<open>A submission that waits for secrets has no reply yet; \<open>resume_submission\<close> gives it.\<close>

definition submission_reply :: "app_error + string \<Rightarrow> http_reply" where
  "submission_reply r = (case r of
      Inr work_order_id \<Rightarrow> reply 202 (SubmittedJson work_order_id True)
    | Inl e \<Rightarrow> api_error_reply e)"

definition submit_work_order_handler ::
  "('w, 'j, 'p) order_ext \<Rightarrow> bytes \<Rightarrow> ('j app_state \<times> 'w, http_reply + u64 \<times> 'j prepared_order) io" where
  "submit_work_order_handler ox body =
    io_match (on_orders (submit_work_order ox body)) (\<lambda>r. case r of
        Inr (Inr wait) \<Rightarrow> io_ok (Inr wait)
      | Inr (Inl hash) \<Rightarrow> io_ok (Inl (submission_reply (Inr hash)))
      | Inl e \<Rightarrow> io_ok (Inl (submission_reply (Inl e))))"

definition resume_submission ::
  "('w, 'j, 'p) order_ext \<Rightarrow> 'j prepared_order \<Rightarrow> app_error + unit \<Rightarrow> ('j app_state \<times> 'w, http_reply) io" where
  "resume_submission ox po ans =
    io_match (on_orders (resume_work_order ox po ans)) (\<lambda>r. io_ok (submission_reply r))"

definition status_handler :: "http_ext \<Rightarrow> ('j app_state \<times> 'w, http_reply) io" where
  "status_handler hx = io_read (\<lambda>(s, w). reply 200 (StatusJson
    \<lparr>st_health = ''ok'', st_peer_id = hx_peer_id hx, st_connected_peers = as_peers s,
     st_vm_ids = or_vms (as_orders s)\<rparr>))"

definition env_report_handler ::
  "http_ext \<Rightarrow> ('w, 'j, 'p) daemon_ext \<Rightarrow> ('j app_state \<times> 'w, http_reply) io" where
  "env_report_handler hx dx = api_result (on_world (
    io_bind (io_map_app (\<lambda>e. AppInternal (''Failed to get env report: '' @ app_error_text e))
        (get_own_env_report dx)) (\<lambda>er.
    io_bind (io_of (map_err (\<lambda>e. AppInternal (''Failed to serialize attestation: '' @ e))
        (hx_attestation_json hx (er_attestation er)))) (\<lambda>att.
    io_bind (io_of (case er_operator_signature er of
          None \<Rightarrow> Inr None
        | Some sig \<Rightarrow> map_err (\<lambda>e. AppInternal (''Failed to serialize operator signature: '' @ e))
            (rbind (hx_signature_json hx sig) (\<lambda>v. Inr (Some v))))) (\<lambda>sig.
    io_ok (reply 200 (EnvReportJson att sig)))))))"

text \<open>\<open>str::lines\<close>: a line ends with a line feed or with a carriage return and a line feed.\<close>

definition strip_cr :: "string \<Rightarrow> string" where
  "strip_cr l = (if l \<noteq> [] \<and> last l = CHR 0x0D then butlast l else l)"

fun text_lines :: "string list \<Rightarrow> string list" where
  "text_lines [] = []"
| "text_lines [l] = (if l = [] then [] else [l])"
| "text_lines (l # l' # ls) = strip_cr l # text_lines (l' # ls)"

definition lines_of :: "string \<Rightarrow> string list" where
  "lines_of s = text_lines (split_char CHR 0x0A s)"

definition limited_logs :: "u32 option \<Rightarrow> string list \<Rightarrow> string list" where
  "limited_logs tail ls = (case tail of
      Some n \<Rightarrow> if n > 0 \<and> length ls > unat n then drop (length ls - unat n) ls else ls
    | None \<Rightarrow> ls)"

definition log_worker :: "'j orchestrator \<Rightarrow> string \<Rightarrow> string" where
  "log_worker s worker_id = (case or_active s worker_id of Some order \<Rightarrow> aw_worker_id order | None \<Rightarrow> worker_id)"

definition logs_json :: "string \<Rightarrow> string list \<Rightarrow> json" where
  "logs_json worker_id ls = json_object
    [(''logs'', JArray (map JString ls)), (''worker_id'', JString worker_id),
     (''total_lines'', JNumber (PosInt (word_of_nat (length ls)))), (''is_streaming'', JBool False)]"

definition log_event :: "string + string \<Rightarrow> sse_event" where
  "log_event r = (case r of
      Inr l \<Rightarrow> \<lparr>se_event = ''log'', se_data = l\<rparr>
    | Inl e \<Rightarrow> \<lparr>se_event = ''error'', se_data = ''Error: '' @ e\<rparr>)"

definition worker_logs_handler ::
  "'w enclave_rpc \<Rightarrow> string \<Rightarrow> u32 option \<Rightarrow> bool \<Rightarrow> ('j app_state \<times> 'w, http_reply) io" where
  "worker_logs_handler rpc worker_id tail follow = api_result (\<lambda>(s, w).
    let resolved = log_worker (as_orders s) worker_id in
    if \<not> follow then
      io_bind (on_world (io_map_err (\<lambda>e. AppInternal (''Failed to retrieve logs: '' @ e))
          (client_get_worker_logs rpc resolved))) (\<lambda>logs.
      io_ok (reply 200 (LogsJson (logs_json worker_id (limited_logs tail (lines_of logs)))))) (s, w)
    else
      io_bind (on_world (io_map_err (\<lambda>e. AppInternal (''Failed to start log stream: '' @ e))
          (client_stream_worker_logs rpc resolved (case tail of Some n \<Rightarrow> n | None \<Rightarrow> 0) follow))) (\<lambda>ls.
      io_ok (reply 200 (EventStream (map (\<lambda>l. log_event (Inr l)) ls)))) (s, w))"

section \<open>Routes\<close>

record http_config =
  hc_http_listen_addr :: string
  hc_base_mount_path :: string
  hc_api_enabled :: bool
  hc_api_cors_allowed_origins :: "string list"

datatype cors = CorsAny | CorsOrigins "string list"

text \<open>An error of the start, and a panic.\<close>

datatype server_start_error = StartError string | StartPanic

datatype api_route = PostWorkOrders | GetStatus | GetEnvReport | GetWorkerLogs

record route_table =
  ro_api :: "(api_route list \<times> cors option) option"
  ro_workers :: string
  ro_listen :: string

text \<open>
  \<open>ro_workers\<close> is the path under which requests go to the workers, empty for every request that no
  other route takes; under such a path the router hands it over without that prefix. An origin that is no header value makes \<open>expect\<close> panic.
\<close>

definition http_routes :: "(string \<Rightarrow> bool) \<Rightarrow> (string \<Rightarrow> string + unit) \<Rightarrow> http_config \<Rightarrow> server_start_error + route_table" where
  "http_routes origin_ok addr_parse config =
    (let base = rev (dropWhile (\<lambda>c. c = CHR ''/'') (rev (hc_base_mount_path config)));
         origins = hc_api_cors_allowed_origins config
     in if \<not> starts_with ''/'' base \<and> base \<noteq> []
        then Inl (StartError ''HTTP base_mount_path must start with '/' or be empty for root'')
        else if hc_api_enabled config \<and> origins \<noteq> [] \<and> ''*'' \<notin> set origins \<and> \<not> list_all origin_ok origins
        then Inl StartPanic
        else rbind (map_err StartError (addr_parse (hc_http_listen_addr config))) (\<lambda>_.
          Inr \<lparr>ro_api = (if hc_api_enabled config
                 then Some ([PostWorkOrders, GetStatus, GetEnvReport, GetWorkerLogs],
                   if origins = [] then None else if ''*'' \<in> set origins then Some CorsAny
                   else Some (CorsOrigins origins))
                 else None),
               ro_workers = base, ro_listen = hc_http_listen_addr config\<rparr>))"

section \<open>Forwarding\<close>

lemma mount_path_eq:
  assumes "CHR ''/'' \<notin> set segment" "segment \<noteq> []"
  shows "mount_path (''/'' @ segment @ ''/'' @ path) = (segment, path)" "mount_path (''/'' @ segment) = (segment, [])"
proof -
  have d: "dropWhile (\<lambda>c. c = CHR ''/'') (segment @ x) = segment @ x" for x
    using assms by (cases segment) auto
  have n: "split_once CHR ''/'' segment = None" using assms(1) by (induction segment) auto
  show "mount_path (''/'' @ segment @ ''/'' @ path) = (segment, path)" "mount_path (''/'' @ segment) = (segment, [])"
    using d [of "CHR ''/'' # path"] d [of "[]"] n split_once_append [OF assms(1), of path] by (simp_all add: mount_path_def)
qed

lemma client_invoke_http_eq:
  assumes "worker_map r worker_id = Some vm_id" "vms r vm_id = Some c"
    and "vm_invoke_http (ee_ops (E k)) c worker_id req = (a, c')"
  shows "client_invoke_http_worker (grpc_service st ct tx E) worker_id req (k, r)
    = (map_err (\<lambda>e. st (map_runner_error (E k) (VmConnection e))) a, (k + 1, r\<lparr>vms := (vms r)(vm_id \<mapsto> c')\<rparr>))"
  using assms
  by (cases a) (simp_all add: client_invoke_http_worker_def io_bind_def io_map_err_def at_tick_def grpc_service_def
      grpc_invoke_http_worker_def io_simps runner_call_def invoke_http_worker_def worker_vm_def call_vm_def
      connection_result_def)

text \<open>A worker that the enclave reports as started is mapped to the VM that was asked for.\<close>

lemma run_worker_mapped:
  assumes "run_worker rx bx ax ops now own i v m b s = (s', Inr wid)"
  shows "worker_map s' wid = Some v \<and> (\<exists>c. vms s' v = Some c)"
  using assms
  by (auto simp: run_worker_def call_vm_def Let_def split: sum.split_asm prod.split_asm option.split_asm)

lemma grpc_run_worker_mapped:
  assumes "grpc_run_worker env i v m b s = (Inr x, s')" "rw_success x \<or> rw_worker_id x \<noteq> []"
  shows "worker_map s' (rw_worker_id x) = Some v \<and> (\<exists>c. vms s' v = Some c)"
proof -
  from assms(1) obtain man where g: "(case run_worker (ee_rx env) (ee_bx env) (ee_ax env) (ee_ops env) (ee_now env)
      (ee_own env) i v man (WorkerBundle b) s of
       (s', Inr w) \<Rightarrow> (Inr \<lparr>rw_success = True, rw_worker_id = w, rw_error_message = []\<rparr>, s')
     | (s', Inl (WorkerStartFailed msg)) \<Rightarrow> (Inr \<lparr>rw_success = False, rw_worker_id = [], rw_error_message = msg\<rparr>, s')
     | (s', Inl e) \<Rightarrow> (Inl (map_runner_error env e), s')) = (Inr x, s')"
    unfolding grpc_run_worker_def io_bind_ok_iff io_of_ok_iff by blast
  obtain s1 a where x: "run_worker (ee_rx env) (ee_bx env) (ee_ax env) (ee_ops env) (ee_now env)
      (ee_own env) i v man (WorkerBundle b) s = (s1, a)" by fastforce
  show ?thesis
  proof (cases a)
    case (Inr w)
    with x g have "rw_worker_id x = w" "s1 = s'" by auto
    with run_worker_mapped x Inr show ?thesis by blast
  next
    case (Inl e)
    with x g assms(2) show ?thesis by (cases e) auto
  qed
qed

lemma client_run_worker_mapped:
  assumes "client_run_worker (grpc_service st ct tx E) worker_id vm_id m b (k, r) = (Inr wid, (k', r'))"
  shows "worker_map r' wid = Some vm_id \<and> (\<exists>c. vms r' vm_id = Some c)"
proof -
  from assms obtain x w1 where g: "at_tick E (\<lambda>env. grpc_run_worker env worker_id vm_id m b) (k, r) = (Inr x, w1)"
    and x: "(if rw_success x \<or> rw_worker_id x \<noteq> [] then io_ok (rw_worker_id x)
      else io_fail (''Enclave runner failed to start worker: '' @ rw_error_message x)) w1 = (Inr wid, (k', r'))"
    unfolding client_run_worker_def io_bind_ok_iff io_map_err_ok_iff by (auto simp: grpc_service_def)
  from x have w: "rw_success x \<or> rw_worker_id x \<noteq> []" "wid = rw_worker_id x" "w1 = (k', r')"
    by (auto simp: io_ok_def io_fail_def split: if_splits)
  with g have "grpc_run_worker (E k) worker_id vm_id m b r = (Inr x, r')"
    by (auto simp: at_tick_def split: prod.splits)
  from grpc_run_worker_mapped [OF this w(1)] w(2) show ?thesis by simp
qed

lemma start_work_order_active:
  assumes "dx_rpc (sx_daemon (ox_service ox)) = grpc_service st ct tx E"
    and "start_work_order ox po (s, (k, r)) = (Inr hash, (s', (k', r')))" "http_requested (wo_events (po_payload po))"
  shows "\<exists>wid c. hash = po_hash po \<and> or_mounts s' hash = Some wid \<and> worker_map r' wid = Some (po_vm_id po)
    \<and> vms r' (po_vm_id po) = Some c"
proof -
  let ?rpc = "dx_rpc (sx_daemon (ox_service ox))"
  from assms(2) obtain m wid w1 where m: "dx_manifest_to_json (sx_daemon (ox_service ox)) (wo_worker (po_payload po)) = Inr m"
    and run: "client_run_worker ?rpc (po_hash po) (po_vm_id po) m (bundle_bytes (po_bundle po)) (k, r) = (Inr wid, w1)"
    by (auto simp: start_work_order_def Let_def call_ok_iffs on_world_iff map_err_def split: sum.splits)
  from start_work_order_run [OF m run, of s] assms(2) have s': "s' = started po wid s" "w1 = (k', r')" "hash = po_hash po"
    by auto
  with client_run_worker_mapped run assms(1) have "worker_map r' wid = Some (po_vm_id po) \<and> (\<exists>c. vms r' (po_vm_id po) = Some c)"
    by metis
  moreover have "or_mounts s' hash = Some wid" using s' assms(3) by (simp add: started_def Let_def)
  ultimately show ?thesis using s' by blast
qed

section \<open>Lines\<close>

lemma strip_cr_none: "l = [] \<or> last l \<noteq> CHR 0x0D \<Longrightarrow> strip_cr l = l"
  by (auto simp: strip_cr_def)

lemma text_lines_plain:
  "\<forall>l \<in> set ls. l = [] \<or> last l \<noteq> CHR 0x0D \<Longrightarrow> ls = [] \<or> last ls \<noteq> [] \<Longrightarrow> text_lines ls = ls"
  by (induction ls rule: text_lines.induct) (auto simp: strip_cr_none split: if_splits)

definition log_lines_ok :: "string list \<Rightarrow> bool" where
  "log_lines_ok ls \<longleftrightarrow> ls \<noteq> [] \<and> last ls \<noteq> [] \<and>
    (\<forall>l \<in> set ls. CHR 0x0A \<notin> set l \<and> (l = [] \<or> last l \<noteq> CHR 0x0D))"

lemma lines_of_join: "log_lines_ok ls \<Longrightarrow> lines_of (join_with [CHR 0x0A] ls) = ls"
  by (simp add: lines_of_def log_lines_ok_def split_join text_lines_plain)

section \<open>Properties\<close>

text \<open>
  C26: A work order that asked for HTTP requests is served once it has started. A request for a path under
  the order's hash reaches the VM of the order, for the worker that was started and with the method,
  headers, body and query of the caller and the rest of the path; what the worker answers is the reply,
  and an error of the VM is a reply with status 500.
\<close>

theorem started_order_served:
  assumes "dx_rpc (sx_daemon (ox_service ox)) = grpc_service st ct tx E"
    and "start_work_order ox po (as_orders s, (k, r)) = (Inr hash, (s', (k', r')))"
    and "http_requested (wo_events (po_payload po))" "CHR ''/'' \<notin> set hash" "hash \<noteq> []"
    and "rq_path req = ''/'' @ hash @ ''/'' @ path" "rq_body req = Inr body"
  shows "\<exists>wid c. or_mounts s' hash = Some wid \<and> vms r' (po_vm_id po) = Some c
    \<and> universal_http_handler hx (dx_rpc (sx_daemon (ox_service ox))) req (s\<lparr>as_orders := s'\<rparr>, (k', r'))
      = (case vm_invoke_http (ee_ops (E k')) c wid (hx_pack hx (forwarded_request path body req)) of (a, c') \<Rightarrow>
          (Inr (case a of Inr resp \<Rightarrow> worker_reply hx (hx_unpack hx resp)
             | Inl e \<Rightarrow> reply 500 (PlainText (''Error processing request: '' @ st (map_runner_error (E k') (VmConnection e))))),
           (s\<lparr>as_orders := s'\<rparr>, (k' + 1, r'\<lparr>vms := (vms r')(po_vm_id po \<mapsto> c')\<rparr>))))"
proof -
  from start_work_order_active [OF assms(1-3)] obtain wid c where
    m: "or_mounts s' hash = Some wid" "worker_map r' wid = Some (po_vm_id po)" "vms r' (po_vm_id po) = Some c" by blast
  obtain a c' where a: "vm_invoke_http (ee_ops (E k')) c wid (hx_pack hx (forwarded_request path body req)) = (a, c')"
    by fastforce
  have "mount_path (rq_path req) = (hash, path)" using mount_path_eq(1) [OF assms(4,5)] assms(6) by simp
  with m(1) a client_invoke_http_eq [where E = E and k = k', OF m(2,3) a, of st ct tx] assms(1,5,7)
  show ?thesis
    by (intro exI [of _ wid] exI [of _ c] conjI m) (cases a; simp add: universal_http_handler_def)
qed

definition sample_http :: http_ext where
  "sample_http = \<lparr>hx_pack = vr_body, hx_unpack = (\<lambda>b. \<lparr>vs_status_code = 200, vs_headers = [], vs_body = b\<rparr>),
     hx_header_name = Some, hx_header_value_ok = (\<lambda>_. True), hx_headers_fit = (\<lambda>_. True),
     hx_attestation_json = (\<lambda>_. Inr JNull), hx_signature_json = (\<lambda>_. Inr JNull), hx_peer_id = ''12D3KooW''\<rparr>"

definition sample_app :: "unit app_state" where
  "sample_app = \<lparr>as_orders = sample_orchestrator, as_peers = peers_new\<rparr>"

definition sample_http_order :: "unit prepared_order" where
  "sample_http_order = sample_prepared\<lparr>po_payload := sample_payload\<lparr>wo_events := [\<lparr>handler = ''fetch'', event_kind = HttpRequest\<rparr>]\<rparr>\<rparr>"

definition sample_request :: incoming_request where
  "sample_request = \<lparr>rq_method = ''POST'', rq_path = ''/wo/a/b'', rq_query = Some ''x=1'', rq_headers = [], rq_body = Inr [4, 2]\<rparr>"

theorem started_order_served_witness:
  "\<exists>s' w' w''. start_work_order sample_orders sample_http_order (sample_orchestrator, (0, sample_runner)) = (Inr ''wo'', (s', w'))
    \<and> universal_http_handler sample_http sample_rpc sample_request (sample_app\<lparr>as_orders := s'\<rparr>, w')
      = (Inr \<lparr>hp_status = 200, hp_headers = [], hp_body = RawBody [4, 2]\<rparr>, (sample_app\<lparr>as_orders := s'\<rparr>, w''))"
proof -
  have rpc: "dx_rpc (sx_daemon (ox_service sample_orders)) = sample_rpc"
    by (simp add: sample_orders_def sample_order_daemon_def sample_daemon_def)
  have json: "dx_manifest_to_json (sx_daemon (ox_service sample_orders)) (wo_worker (po_payload sample_http_order)) = Inr [5]"
    by (simp add: sample_orders_def sample_order_daemon_def sample_daemon_def)
  have evs: "http_requested (wo_events (po_payload sample_http_order))"
    "scheduled_handlers (wo_events (po_payload sample_http_order)) = []"
    by (simp_all add: sample_http_order_def http_requested_def)
  from sample_order_run obtain w1 where "client_run_worker (dx_rpc (sx_daemon (ox_service sample_orders)))
      (po_hash sample_http_order) (po_vm_id sample_http_order) [5] (bundle_bytes (po_bundle sample_http_order))
      (0, sample_runner) = (Inr ''wo'', w1)"
    by (auto simp: sample_http_order_def)
  from start_work_order_run [OF json this, of sample_orchestrator] evs(2) obtain s' k' r' where
    st: "start_work_order sample_orders sample_http_order (as_orders sample_app, (0, sample_runner)) = (Inr ''wo'', (s', (k', r')))"
    by (cases w1) (auto simp: sample_http_order_def sample_prepared_def sample_app_def)
  have "dx_rpc (sx_daemon (ox_service sample_orders)) = grpc_service (\<lambda>_. ''status'') (\<lambda>_. ''conversion'') sample_text
      (\<lambda>_. sample_enclave_env)"
    by (simp add: rpc sample_rpc_def)
  from started_order_served [OF this st evs(1), of sample_request "''a/b''" "[4, 2]" sample_http] st
  show ?thesis
    by (simp add: rpc sample_request_def sample_app_def sample_enclave_env_def sample_vm_ops_def worker_reply_def sample_http_def
        forwarded_request_def reply_status_def)
qed

text \<open>
  The log endpoint, with and without a limit: for a worker whose stored text has the lines \<open>ls\<close>, the
  reply holds the last of them, as many as the limit says and all of them for no limit or the limit 0,
  under the id of the request; the logs are those of the order's worker when the id is an active order.
  When the logs cannot be read the reply is the same whatever the error is.
\<close>

theorem logs_reply:
  assumes "log_lines_ok ls"
    and "client_get_worker_logs rpc (log_worker (as_orders s) i) w = (a, w')"
    and "a = Inr (join_with [CHR 0x0A] ls) \<or> a = Inl e"
  shows "worker_logs_handler rpc i tail False (s, w) = (Inr (case a of
      Inl _ \<Rightarrow> reply 500 (ErrorJson ''An internal error occurred'')
    | Inr _ \<Rightarrow> reply 200 (LogsJson (logs_json i (case tail of
          None \<Rightarrow> ls | Some n \<Rightarrow> if n = 0 then ls else drop (length ls - unat n) ls)))), (s, w'))"
  using assms(3)
proof
  assume a: "a = Inr (join_with [CHR 0x0A] ls)"
  have "limited_logs tail ls = (case tail of None \<Rightarrow> ls | Some n \<Rightarrow> if n = 0 then ls else drop (length ls - unat n) ls)"
    by (auto simp: limited_logs_def word_neq_0_conv split: option.split)
  with a lines_of_join [OF assms(1)] assms(2) show ?thesis
    by (simp add: worker_logs_handler_def api_result_def io_match_def io_bind_def on_world_def io_map_err_def io_simps Let_def)
next
  assume "a = Inl e"
  with assms(2) show ?thesis
    by (simp add: worker_logs_handler_def api_result_def io_match_def io_bind_def on_world_def io_map_err_def io_simps
        Let_def api_error_reply_def api_error_message_def)
qed

theorem logs_reply_witness:
  "worker_logs_handler (sample_rpc\<lparr>rpc_get_worker_logs := (\<lambda>_ w. (Inr (''a'' @ [CHR 0x0A] @ ''b''), w))\<rparr>) ''w'' (Some 1) False
      (sample_app, (0, sample_runner))
    = (Inr (reply 200 (LogsJson (logs_json ''w'' [''b'']))), (sample_app, (0, sample_runner)))"
proof -
  let ?rpc = "sample_rpc\<lparr>rpc_get_worker_logs := (\<lambda>_ w. (Inr (''a'' @ [CHR 0x0A] @ ''b''), w))\<rparr>"
  have ok: "log_lines_ok [''a'', ''b'']" by (simp add: log_lines_ok_def)
  have c: "client_get_worker_logs ?rpc (log_worker (as_orders sample_app) ''w'') (0, sample_runner)
    = (Inr (join_with [CHR 0x0A] [''a'', ''b'']), (0, sample_runner))"
    by (simp add: client_get_worker_logs_def io_map_err_def)
  from logs_reply [OF ok c disjI1 [OF refl], of "Some 1"] show ?thesis by simp
qed

end
