(* ===== verification/Daemon_Network.thy ===== *)
theory Daemon_Network
  imports Daemon_Http
begin

text \<open>
  The daemon's network (\<open>src/node/daemon/src/network.rs\<close>): the messages that nodes gossip, the events
  of the swarm with the registry of connected peers, and the loop that serves them.

  The swarm is libp2p's: its operations are calls on the world, and a multiaddr is kept as its text.
  One round of the loop is one step; a panic ends the task that runs the loop.
\<close>

section \<open>Messages and the swarm\<close>

datatype gossip_message =
    SecretBatchRequest u64 secret_requests env_report
  | SecretBatchResponse u64 secrets_box env_report
  | Notification string u64

datatype routing_update = RoutingSuccess | RoutingPending | RoutingFailed

record 'w network_ext =
  nx_build :: "('w, unit) io"
  nx_listen :: "string \<Rightarrow> ('w, string, unit) call"
  nx_dial :: "string \<Rightarrow> ('w, string, unit) call"
  nx_kad_add :: "string \<Rightarrow> string \<Rightarrow> 'w \<Rightarrow> routing_update \<times> 'w"
  nx_kad_remove :: "string \<Rightarrow> string \<Rightarrow> 'w \<Rightarrow> 'w"
  nx_kad_bootstrap :: "('w, string, unit) call"
  nx_kad_closest :: "'w \<Rightarrow> 'w"
  nx_publish :: "string \<Rightarrow> bytes \<Rightarrow> ('w, string, unit) call"
  nx_multiaddr :: "string \<Rightarrow> string + unit"
  nx_last_p2p :: "string \<Rightarrow> string option"
  nx_encode :: "gossip_message \<Rightarrow> string + bytes"
  nx_decode :: "bytes \<Rightarrow> string + gossip_message"
  nx_utf8 :: "bytes \<Rightarrow> string option"
  nx_trace :: bool

record network_state =
  ns_peers :: peer_registry
  ns_bootstrapped :: bool
  ns_secrets :: secrets_service

definition SECRETS_TOPIC :: string where
  "SECRETS_TOPIC = ''secrets''"

definition on_service :: "(secrets_service \<times> 'w, 'a) io \<Rightarrow> (network_state \<times> 'w, 'a) io" where
  "on_service m = (\<lambda>(s, w). case m (ns_secrets s, w) of (r, (sv, w')) \<Rightarrow> (r, (s\<lparr>ns_secrets := sv\<rparr>, w')))"

definition on_swarm :: "('w \<Rightarrow> 'w) \<Rightarrow> (network_state \<times> 'w, unit) io" where
  "on_swarm f = (\<lambda>(s, w). (Inr (), (s, f w)))"

text \<open>A call whose error is only logged.\<close>

definition logged :: "('s, 'a) io \<Rightarrow> ('s, unit) io" where
  "logged m = io_match m (\<lambda>_. io_ok ())"

section \<open>Publishing\<close>

definition publish_message :: "'w network_ext \<Rightarrow> gossip_message \<Rightarrow> ('w, unit) io" where
  "publish_message nx m =
    io_bind (io_of (map_err (\<lambda>e. AppNetwork (''Failed to serialize message: '' @ e)) (nx_encode nx m))) (\<lambda>bytes.
    io_map_err (\<lambda>e. AppNetwork (''Failed to publish message: '' @ e)) (nx_publish nx SECRETS_TOPIC bytes))"

fun gossip_of :: "secrets_message \<Rightarrow> gossip_message" where
  "gossip_of (PublishSecretsRequest i reqs er) = SecretBatchRequest i reqs er"
| "gossip_of (PublishSecretsResponse i box er) = SecretBatchResponse i box er"

definition handle_secrets_message :: "'w network_ext \<Rightarrow> secrets_message \<Rightarrow> ('w, unit) io" where
  "handle_secrets_message nx msg = publish_message nx (gossip_of msg)"

section \<open>Gossip\<close>

definition handle_secret_batch_request ::
  "'w network_ext \<Rightarrow> ('w, 'j, 'p) service_ext \<Rightarrow> u64 \<Rightarrow> secret_requests \<Rightarrow> env_report \<Rightarrow> ('w, unit) io" where
  "handle_secret_batch_request nx sx i reqs er =
    io_bind (handle_incoming_secret_batch_request sx reqs er) (\<lambda>r. case r of
        Some (box, our_report) \<Rightarrow> publish_message nx (SecretBatchResponse i box our_report)
      | None \<Rightarrow> io_ok ())"

text \<open>
  \<open>&s[..n]\<close> panics when \<open>n\<close> is inside a character; the bytes \<open>0x80\<close> to \<open>0xBF\<close> continue one. The slice
  is an argument of a \<open>trace!\<close>, which is evaluated only when that level is enabled.
\<close>

definition is_char_boundary :: "string \<Rightarrow> nat \<Rightarrow> bool" where
  "is_char_boundary s n \<longleftrightarrow> n = length s \<or> (n < length s \<and> \<not> (let b = of_char (s ! n) :: nat in 128 \<le> b \<and> b < 192))"

definition invalid_message :: "'w network_ext \<Rightarrow> bytes \<Rightarrow> ('s, unit) io" where
  "invalid_message nx data = (case nx_utf8 nx data of
      Some s \<Rightarrow> if nx_trace nx \<and> \<not> is_char_boundary s (min (length s) 100) then io_fail AppPanic else io_ok ()
    | None \<Rightarrow> io_ok ())"

definition handle_gossip_message ::
  "'w network_ext \<Rightarrow> ('w, 'j, 'p) service_ext \<Rightarrow> bytes \<Rightarrow> (network_state \<times> 'w, unit) io" where
  "handle_gossip_message nx sx data = (case nx_decode nx data of
      Inr (SecretBatchRequest i reqs er) \<Rightarrow> logged (on_world (handle_secret_batch_request nx sx i reqs er))
    | Inr (SecretBatchResponse i box er) \<Rightarrow> logged (on_service (handle_incoming_secret_batch_response sx i box er))
    | Inr (Notification content timestamp) \<Rightarrow> io_ok ()
    | Inl _ \<Rightarrow> invalid_message nx data)"

section \<open>Events of the swarm\<close>

datatype swarm_event =
    MdnsDiscovered "(string \<times> string) list"
  | MdnsExpired "(string \<times> string) list"
  | GossipsubMessage bytes
  | GossipsubOther
  | IdentifyReceived string "string list"
  | IdentifyOther
  | PingEvent
  | KademliaEvent
  | NewListenAddr string
  | ConnectionEstablished string string
  | ConnectionClosed string string
  | OtherSwarmEvent

fun mdns_discovered :: "'w network_ext \<Rightarrow> (string \<times> string) list \<Rightarrow> 'w \<Rightarrow> 'w" where
  "mdns_discovered nx [] w = w"
| "mdns_discovered nx ((peer, addr) # ps) w =
    mdns_discovered nx ps (snd (nx_dial nx addr (snd (nx_kad_add nx peer addr w))))"

definition mdns_expired :: "'w network_ext \<Rightarrow> (string \<times> string) list \<Rightarrow> 'w \<Rightarrow> 'w" where
  "mdns_expired nx ps w = foldl (\<lambda>w (peer, addr). nx_kad_remove nx peer addr w) w ps"

definition handle_identify :: "'w network_ext \<Rightarrow> string \<Rightarrow> string list \<Rightarrow> 'w \<Rightarrow> 'w" where
  "handle_identify nx peer addrs w = foldl (\<lambda>w addr. snd (nx_kad_add nx peer addr w)) w addrs"

definition peer_addr :: "string \<Rightarrow> string \<Rightarrow> string" where
  "peer_addr peer remote = remote @ ''/p2p/'' @ peer"

definition connection_established ::
  "'w network_ext \<Rightarrow> string \<Rightarrow> string \<Rightarrow> (network_state \<times> 'w, unit) io" where
  "connection_established nx peer remote = (\<lambda>(s, w).
    let s = s\<lparr>ns_peers := add_peer peer (peer_addr peer remote) (ns_peers s)\<rparr> in
    if ns_bootstrapped s then (Inr (), (s, w))
    else (case nx_kad_bootstrap nx w of
        (Inl _, w') \<Rightarrow> (Inr (), (s, w'))
      | (Inr _, w') \<Rightarrow> (Inr (), (s\<lparr>ns_bootstrapped := True\<rparr>, w'))))"

definition connection_closed :: "string \<Rightarrow> string \<Rightarrow> network_state \<Rightarrow> network_state" where
  "connection_closed peer remote s = s\<lparr>ns_peers := remove_peer_addr peer (peer_addr peer remote) (ns_peers s)\<rparr>"

fun handle_swarm_event ::
  "'w network_ext \<Rightarrow> ('w, 'j, 'p) service_ext \<Rightarrow> swarm_event \<Rightarrow> (network_state \<times> 'w, unit) io" where
  "handle_swarm_event nx sx (MdnsDiscovered ps) = on_swarm (mdns_discovered nx ps)"
| "handle_swarm_event nx sx (MdnsExpired ps) = on_swarm (mdns_expired nx ps)"
| "handle_swarm_event nx sx (GossipsubMessage data) = handle_gossip_message nx sx data"
| "handle_swarm_event nx sx (IdentifyReceived peer addrs) = on_swarm (handle_identify nx peer addrs)"
| "handle_swarm_event nx sx (ConnectionEstablished peer remote) = connection_established nx peer remote"
| "handle_swarm_event nx sx (ConnectionClosed peer remote) = on_state (connection_closed peer remote)"
| "handle_swarm_event nx sx GossipsubOther = io_ok ()"
| "handle_swarm_event nx sx IdentifyOther = io_ok ()"
| "handle_swarm_event nx sx PingEvent = io_ok ()"
| "handle_swarm_event nx sx KademliaEvent = io_ok ()"
| "handle_swarm_event nx sx (NewListenAddr _) = io_ok ()"
| "handle_swarm_event nx sx OtherSwarmEvent = io_ok ()"

section \<open>The loop\<close>

datatype 'w network_op =
    DhtMaintenance
  | SwarmEvent swarm_event
  | FromSecrets secrets_message
  | ShutdownReceived
  | WorldChanges "'w \<Rightarrow> 'w"

datatype task_status = TaskRunning | TaskFinished | TaskPanicked

type_synonym 'w network = "task_status \<times> network_state \<times> 'w"

definition dht_maintenance :: "'w network_ext \<Rightarrow> 'w \<Rightarrow> 'w" where
  "dht_maintenance nx w = nx_kad_closest nx (snd (nx_kad_bootstrap nx w))"

definition loop_round :: "(network_state \<times> 'w, unit) io \<Rightarrow> network_state \<times> 'w \<Rightarrow> 'w network" where
  "loop_round m sw = (case m sw of (r, sw') \<Rightarrow> (if r = Inl AppPanic then TaskPanicked else TaskRunning, sw'))"

fun network_step :: "'w network_ext \<Rightarrow> ('w, 'j, 'p) service_ext \<Rightarrow> 'w network \<Rightarrow> 'w network_op \<Rightarrow> 'w network" where
  "network_step nx sx (st, s, w) (WorldChanges f) = (st, s, f w)"
| "network_step nx sx (TaskRunning, sw) DhtMaintenance = loop_round (on_swarm (dht_maintenance nx)) sw"
| "network_step nx sx (TaskRunning, sw) (SwarmEvent e) = loop_round (handle_swarm_event nx sx e) sw"
| "network_step nx sx (TaskRunning, sw) (FromSecrets msg) =
    loop_round (logged (on_world (handle_secrets_message nx msg))) sw"
| "network_step nx sx (TaskRunning, sw) ShutdownReceived = (TaskFinished, sw)"
| "network_step nx sx (st, sw) _ = (st, sw)"

section \<open>Starting\<close>

definition multiaddr_parse :: "'w network_ext \<Rightarrow> string \<Rightarrow> ('w, unit) io" where
  "multiaddr_parse nx addr = io_of (map_err (\<lambda>e. AppNetwork (''Multiaddr error: '' @ e)) (nx_multiaddr nx addr))"

fun listen_all :: "'w network_ext \<Rightarrow> string list \<Rightarrow> ('w, unit) io" where
  "listen_all nx [] = io_ok ()"
| "listen_all nx (a # as) =
    io_bind (multiaddr_parse nx a) (\<lambda>_. io_try (nx_listen nx a) (\<lambda>_. listen_all nx as))"

definition dial_peer :: "'w network_ext \<Rightarrow> string \<Rightarrow> ('w, unit) io" where
  "dial_peer nx addr = io_bind (multiaddr_parse nx addr) (\<lambda>_ w. case nx_last_p2p nx addr of
      None \<Rightarrow> (Inr (), w)
    | Some peer \<Rightarrow> (case nx_kad_add nx peer addr w of
          (RoutingFailed, w') \<Rightarrow> (Inl (AppNetwork ''Failed to add address to Kademlia''), w')
        | (_, w') \<Rightarrow> io_map_err (\<lambda>e. AppNetwork (''Failed to dial: '' @ e)) (nx_dial nx addr) w'))"

fun dial_all :: "'w network_ext \<Rightarrow> string list \<Rightarrow> ('w, unit) io" where
  "dial_all nx [] = io_ok ()"
| "dial_all nx (a # as) = io_bind (dial_peer nx a) (\<lambda>_. dial_all nx as)"

definition network_start :: "'w network_ext \<Rightarrow> string list \<Rightarrow> string list \<Rightarrow> ('w, unit) io" where
  "network_start nx listen_addresses bootstrap_peers =
    io_bind (nx_build nx) (\<lambda>_. io_bind (listen_all nx listen_addresses) (\<lambda>_. dial_all nx bootstrap_peers))"

section \<open>The registry follows the connections\<close>

lemma network_run_stopped: "st \<noteq> TaskRunning \<Longrightarrow> \<exists>w'. foldl (network_step nx sx) (st, s, w) ops = (st, s, w')"
proof (induction ops arbitrary: w)
  case (Cons op ops)
  then have "\<exists>w'. network_step nx sx (st, s, w) op = (st, s, w')" by (cases st; cases op) auto
  then show ?case using Cons by auto
qed simp

lemma logged_eq: "m sw = (r, sw') \<Longrightarrow> logged m sw = (if r = Inl AppPanic then Inl AppPanic else Inr (), sw')"
  by (auto simp: logged_def io_match_def io_ok_def split: sum.splits app_error.splits)

lemma logged_peers:
  "ns_peers (fst (snd (logged (on_world m) (s, w)))) = ns_peers s"
  "ns_peers (fst (snd (logged (on_service m') (s, w)))) = ns_peers s"
proof -
  obtain r w' where m: "m w = (r, w')" by fastforce
  obtain r' sv w'' where m': "m' (ns_secrets s, w) = (r', (sv, w''))" by (metis prod.exhaust)
  show "ns_peers (fst (snd (logged (on_world m) (s, w)))) = ns_peers s"
    "ns_peers (fst (snd (logged (on_service m') (s, w)))) = ns_peers s"
    using m m' by (simp_all add: logged_eq on_world_def on_service_def)
qed

fun peers_step :: "'w network_op \<Rightarrow> peer_registry \<Rightarrow> peer_registry" where
  "peers_step (SwarmEvent (ConnectionEstablished p r)) ps = add_peer p (peer_addr p r) ps"
| "peers_step (SwarmEvent (ConnectionClosed p r)) ps = remove_peer_addr p (peer_addr p r) ps"
| "peers_step _ ps = ps"

lemma gossip_peers: "ns_peers (fst (snd (handle_gossip_message nx sx data (s, w)))) = ns_peers s"
  by (auto simp: handle_gossip_message_def invalid_message_def io_ok_def io_fail_def logged_peers
      split: sum.splits gossip_message.splits option.splits)

lemma swarm_event_peers:
  "ns_peers (fst (snd (handle_swarm_event nx sx e (s, w)))) = peers_step (SwarmEvent e) (ns_peers s)"
  by (cases e) (auto simp: on_swarm_def io_ok_def on_state_def connection_established_def connection_closed_def
      gossip_peers Let_def split: prod.split sum.split)

lemma network_step_peers:
  assumes "network_step nx sx (st, s, w) op = (TaskRunning, s', w')"
  shows "st = TaskRunning \<and> ns_peers s' = peers_step op (ns_peers s)"
proof (cases st)
  case TaskRunning
  have r: "ns_peers s' = ns_peers (fst (snd (m (s, w))))" if "loop_round m (s, w) = (TaskRunning, s', w')" for m
    using that by (auto simp: loop_round_def split: prod.splits)
  show ?thesis
  proof (cases op)
    case DhtMaintenance
    with TaskRunning assms show ?thesis by (auto dest!: r simp: on_swarm_def)
  next
    case (SwarmEvent e)
    with TaskRunning assms show ?thesis by (auto dest!: r simp: swarm_event_peers)
  next
    case (FromSecrets m)
    with TaskRunning assms show ?thesis by (auto dest!: r simp: logged_peers)
  qed (use TaskRunning assms in auto)
qed (use assms in \<open>cases op; simp\<close>)+

text \<open>The connections that are open, and that none is opened beside one with the same address.\<close>

fun conn_step :: "'w network_op \<Rightarrow> (string \<times> string) list \<Rightarrow> (string \<times> string) list" where
  "conn_step (SwarmEvent (ConnectionEstablished p r)) cs = (p, peer_addr p r) # cs"
| "conn_step (SwarmEvent (ConnectionClosed p r)) cs = remove1 (p, peer_addr p r) cs"
| "conn_step _ cs = cs"

fun never_doubled :: "'w network_op list \<Rightarrow> (string \<times> string) list \<Rightarrow> bool" where
  "never_doubled [] cs \<longleftrightarrow> True"
| "never_doubled (op # ops) cs \<longleftrightarrow> distinct (conn_step op cs) \<and> never_doubled ops (conn_step op cs)"

definition registered :: "peer_registry \<Rightarrow> (string \<times> string) set" where
  "registered ps = {(p, a). \<exists>as. ps p = Some as \<and> a \<in> as}"

definition peers_ok :: "peer_registry \<Rightarrow> (string \<times> string) list \<Rightarrow> bool" where
  "peers_ok ps cs \<longleftrightarrow> registered ps \<subseteq> set cs \<and> (\<forall>p as. ps p = Some as \<longrightarrow> as \<noteq> {})"

lemma registered_add: "registered (add_peer p a ps) = insert (p, a) (registered ps)"
  by (auto simp: registered_def add_peer_def split: option.splits if_splits)

lemma registered_remove: "registered (remove_peer_addr p a ps) = registered ps - {(p, a)}"
  by (auto simp: registered_def remove_peer_addr_def split: option.splits if_splits)

lemma peers_step_ok: "peers_ok ps cs \<Longrightarrow> peers_ok (peers_step op ps) (conn_step op cs)"
proof (induction op ps rule: peers_step.induct)
  case (1 p r ps)
  then have "registered (add_peer p (peer_addr p r) ps) \<subseteq> set ((p, peer_addr p r) # cs)"
    by (auto simp: peers_ok_def registered_add)
  moreover have "as \<noteq> {}" if "add_peer p (peer_addr p r) ps q = Some as" for q as
    using 1 that by (auto simp: peers_ok_def add_peer_def split: if_splits)
  ultimately show ?case by (simp add: peers_ok_def)
next
  case (2 p r ps)
  from 2 have "registered (remove_peer_addr p (peer_addr p r) ps) \<subseteq> set (remove1 (p, peer_addr p r) cs)"
  proof (intro subsetI)
    fix x assume "x \<in> registered (remove_peer_addr p (peer_addr p r) ps)"
    then have "x \<in> registered ps" "x \<noteq> (p, peer_addr p r)" unfolding registered_remove by auto
    with 2 show "x \<in> set (remove1 (p, peer_addr p r) cs)" by (auto simp: peers_ok_def)
  qed
  moreover have "as \<noteq> {}" if "remove_peer_addr p (peer_addr p r) ps q = Some as" for q as
    using 2 that by (auto simp: peers_ok_def remove_peer_addr_def split: option.splits if_splits)
  ultimately show ?case by (simp add: peers_ok_def)
qed simp_all

lemma peers_step_exact:
  "registered ps = set cs \<Longrightarrow> distinct cs \<Longrightarrow> registered (peers_step op ps) = set (conn_step op cs)"
  by (induction op ps rule: peers_step.induct) (auto simp: registered_add registered_remove)

lemma network_run_peers:
  "foldl (network_step nx sx) (st, s, w) ops = (TaskRunning, s', w') \<Longrightarrow>
    st = TaskRunning \<and> ns_peers s' = fold peers_step ops (ns_peers s)"
proof (induction ops arbitrary: st s w)
  case (Cons op ops)
  obtain st1 s1 w1 where x: "network_step nx sx (st, s, w) op = (st1, s1, w1)" by (metis prod.exhaust)
  with Cons.prems have "foldl (network_step nx sx) (st1, s1, w1) ops = (TaskRunning, s', w')" by simp
  from Cons.IH [OF this] x network_step_peers [of nx sx st s w op s1 w1] show ?case by simp
qed simp

lemma fold_peers_ok: "peers_ok ps cs \<Longrightarrow> peers_ok (fold peers_step ops ps) (fold conn_step ops cs)"
  by (induction ops arbitrary: ps cs) (auto intro: peers_step_ok)

lemma fold_peers_exact:
  "registered ps = set cs \<Longrightarrow> distinct cs \<Longrightarrow> never_doubled ops cs \<Longrightarrow>
    registered (fold peers_step ops ps) = set (fold conn_step ops cs)"
  by (induction ops arbitrary: ps cs) (auto simp: peers_step_exact)

text \<open>
  A peer with two connections that have the same address disappears from the registry when one of
  them is closed.
\<close>

lemma doubled_connection_lost:
  "fold peers_step [SwarmEvent (ConnectionEstablished p r), SwarmEvent (ConnectionEstablished p r),
      SwarmEvent (ConnectionClosed p r)] peers_new = peers_new
    \<and> fold conn_step [SwarmEvent (ConnectionEstablished p r), SwarmEvent (ConnectionEstablished p r),
      SwarmEvent (ConnectionClosed p r)] [] = [(p, peer_addr p r)]"
  by (auto simp: peers_new_def add_peer_def remove_peer_addr_def)

section \<open>Properties\<close>

definition sample_net :: "gossip_message \<Rightarrow> gossip_message \<Rightarrow> (nat \<times> unit runner) network_ext" where
  "sample_net m1 m2 = \<lparr>nx_build = io_ok (), nx_listen = (\<lambda>_. io_ok ()), nx_dial = (\<lambda>_. io_ok ()),
     nx_kad_add = (\<lambda>_ _ w. (RoutingSuccess, w)), nx_kad_remove = (\<lambda>_ _ w. w), nx_kad_bootstrap = io_ok (),
     nx_kad_closest = (\<lambda>w. w), nx_publish = (\<lambda>_ _. io_ok ()), nx_multiaddr = (\<lambda>_. Inr ()), nx_last_p2p = (\<lambda>_. None),
     nx_encode = (\<lambda>m. Inr (if m = m1 then [1] else [2])),
     nx_decode = (\<lambda>d. if d = [1] then Inr m1 else if d = [2] then Inr m2 else Inl ''not CBOR''),
     nx_utf8 = (\<lambda>_. Some (replicate 99 CHR ''a'' @ [CHR 0xC3, CHR 0xA9])), nx_trace = True\<rparr>"

definition sample_network :: network_state where
  "sample_network = \<lparr>ns_peers = peers_new, ns_bootstrapped = False, ns_secrets = secrets_service_new\<rparr>"

text \<open>
  C30: While the network task runs, every address in the registry of connected peers belongs to an open
  connection and no peer is listed without an address. When no two connections of a peer have the
  same address, the registry holds the open connections exactly.
\<close>

theorem registry_follows_connections:
  assumes "foldl (network_step nx sx) (TaskRunning, s, w) ops = (TaskRunning, s', w')" "ns_peers s = peers_new"
  shows "registered (ns_peers s') \<subseteq> set (fold conn_step ops []) \<and> (\<forall>p as. ns_peers s' p = Some as \<longrightarrow> as \<noteq> {})
    \<and> (never_doubled ops [] \<longrightarrow> registered (ns_peers s') = set (fold conn_step ops []))"
proof -
  from network_run_peers [OF assms(1)] assms(2) have ps: "ns_peers s' = fold peers_step ops peers_new" by simp
  have "peers_ok peers_new []" "registered peers_new = set []" by (auto simp: peers_ok_def registered_def peers_new_def)
  from fold_peers_ok [OF this(1), of ops] fold_peers_exact [OF this(2), of ops] show ?thesis
    by (simp add: ps peers_ok_def)
qed

theorem registry_follows_connections_witness:
  "registered (ns_peers (fst (snd (foldl (network_step (sample_net (Notification [] 0) (Notification [] 0)) sample_secrets_service)
      (TaskRunning, sample_network, (0, sample_runner))
      [SwarmEvent (ConnectionEstablished ''P'' ''/ip4/1''), SwarmEvent (ConnectionEstablished ''Q'' ''/ip4/2''),
       SwarmEvent (ConnectionClosed ''P'' ''/ip4/1'')])))) = {(''Q'', ''/ip4/2/p2p/Q'')}"
proof -
  let ?ops = "[SwarmEvent (ConnectionEstablished ''P'' ''/ip4/1''), SwarmEvent (ConnectionEstablished ''Q'' ''/ip4/2''),
       SwarmEvent (ConnectionClosed ''P'' ''/ip4/1'')] :: (nat \<times> unit runner) network_op list"
  have "fst (foldl (network_step (sample_net (Notification [] 0) (Notification [] 0)) sample_secrets_service)
      (TaskRunning, sample_network, (0, sample_runner)) ?ops) = TaskRunning"
    by (simp add: loop_round_def connection_established_def on_state_def sample_net_def sample_network_def io_ok_def Let_def)
  then obtain s w where r: "foldl (network_step (sample_net (Notification [] 0) (Notification [] 0)) sample_secrets_service)
      (TaskRunning, sample_network, (0, sample_runner)) ?ops = (TaskRunning, s, w)" by (metis prod.collapse)
  have "never_doubled ?ops []" by (simp add: peer_addr_def)
  with registry_follows_connections [OF r] have "registered (ns_peers s) = set (fold conn_step ?ops [])"
    by (simp add: sample_network_def)
  then show ?thesis unfolding r by (simp add: peer_addr_def)
qed

text \<open>
  C27: An exchange of secrets over the network. When a node publishes a request, a node that receives the
  message and can serve it publishes its box and its report under the number of the request, without a
  change of its own state; and any node that receives this message and has a pending request of that
  number records it for that request if the policies of the contained secrets accept the report.
\<close>

theorem secrets_exchanged:
  assumes "nx_encode na (SecretBatchRequest i reqs er) = Inr d" "nx_decode nb d = Inr (SecretBatchRequest i reqs er)"
    and "handle_incoming_secret_batch_request sxb reqs er wb = (Inr (Some (box, our)), wb1)"
    and "nx_encode nb (SecretBatchResponse i box our) = Inr d'" "nx_decode na d' = Inr (SecretBatchResponse i box our)"
    and "nx_publish na SECRETS_TOPIC d wa = (Inr (), wa1)" "nx_publish nb SECRETS_TOPIC d' wb1 = (Inr (), wb2)"
  shows "network_step na sxa (TaskRunning, sa, wa) (FromSecrets (PublishSecretsRequest i reqs er)) = (TaskRunning, sa, wa1)
    \<and> network_step nb sxb (TaskRunning, sb, wb) (SwarmEvent (GossipsubMessage d)) = (TaskRunning, sb, wb2)
    \<and> (\<forall>p w w'. sv_pending (ns_secrets sa) i = Some p
        \<longrightarrow> validate_response sxa p our (contained_secret_ids box) w = (Inr True, w')
        \<longrightarrow> network_step na sxa (TaskRunning, sa, w) (SwarmEvent (GossipsubMessage d'))
          = (TaskRunning, sa\<lparr>ns_secrets := record_response i p box our (ns_secrets sa)\<rparr>, w'))"
proof (intro conjI allI impI)
  have "handle_secrets_message na (PublishSecretsRequest i reqs er) wa = (Inr (), wa1)"
    using assms(1,6) by (simp add: handle_secrets_message_def publish_message_def io_simps io_bind_def)
  then show "network_step na sxa (TaskRunning, sa, wa) (FromSecrets (PublishSecretsRequest i reqs er)) = (TaskRunning, sa, wa1)"
    by (simp add: loop_round_def logged_eq on_world_def)
  have "handle_secret_batch_request nb sxb i reqs er wb = (Inr (), wb2)"
    using assms(3,4,7) by (simp add: handle_secret_batch_request_def publish_message_def io_simps io_bind_def)
  then show "network_step nb sxb (TaskRunning, sb, wb) (SwarmEvent (GossipsubMessage d)) = (TaskRunning, sb, wb2)"
    by (simp add: loop_round_def handle_gossip_message_def assms(2) logged_eq on_world_def)
  fix p w w'
  assume "sv_pending (ns_secrets sa) i = Some p" "validate_response sxa p our (contained_secret_ids box) w = (Inr True, w')"
  then have "handle_incoming_secret_batch_response sxa i box our (ns_secrets sa, w)
      = (Inr (), (record_response i p box our (ns_secrets sa), w'))"
    by (simp add: handle_incoming_secret_batch_response_def io_bind_def on_world_def on_state_def)
  then show "network_step na sxa (TaskRunning, sa, w) (SwarmEvent (GossipsubMessage d'))
      = (TaskRunning, sa\<lparr>ns_secrets := record_response i p box our (ns_secrets sa)\<rparr>, w')"
    by (simp add: loop_round_def handle_gossip_message_def assms(5) logged_eq on_service_def)
qed

theorem secrets_exchanged_witness:
  "\<exists>m k s. network_step (sample_net (SecretBatchRequest 7 sample_peer_requests (sample_env_report [1])) m) sample_secrets_service
      (TaskRunning, sample_network, (0, sample_runner)) (SwarmEvent (GossipsubMessage [1])) = (TaskRunning, sample_network, (k, s))
    \<and> (\<exists>box. m = SecretBatchResponse 7 box (sample_env_report [2]))"
proof -
  from sample_peer_served obtain box k s where
    h: "handle_incoming_secret_batch_request sample_secrets_service sample_peer_requests (sample_env_report [1])
      (0, sample_runner) = (Inr (Some (box, sample_env_report [2])), (k, s))" by blast
  let ?n = "sample_net (SecretBatchRequest 7 sample_peer_requests (sample_env_report [1]))
    (SecretBatchResponse 7 box (sample_env_report [2]))"
  have n: "nx_encode ?n (SecretBatchRequest 7 sample_peer_requests (sample_env_report [1])) = Inr [1]"
    "nx_decode ?n [1] = Inr (SecretBatchRequest 7 sample_peer_requests (sample_env_report [1]))"
    "nx_encode ?n (SecretBatchResponse 7 box (sample_env_report [2])) = Inr [2]"
    "nx_decode ?n [2] = Inr (SecretBatchResponse 7 box (sample_env_report [2]))"
    "nx_publish ?n t d w = (Inr (), w)" for t d w
    by (simp_all add: sample_net_def io_ok_def)
  from secrets_exchanged [OF n(1,2) h n(3,4) n(5) n(5), where sb = sample_network and sa = sample_network and sxa = sample_secrets_service]
  show ?thesis by blast
qed

text \<open>
  C32: A peer can stop the network of a node that logs at the level \<open>trace\<close>: a message that is no CBOR but a
  text whose byte 100 is inside a character ends the task that runs the loop, and whatever happens
  afterwards no event is served. Every other undecodable message is ignored.
\<close>

theorem invalid_message_stops_network:
  assumes "nx_decode nx data = Inl e"
  shows "case nx_utf8 nx data of
      Some t \<Rightarrow> if nx_trace nx \<and> length t > 100 \<and> \<not> is_char_boundary t 100
        then \<exists>w'. foldl (network_step nx sx) (TaskRunning, s, w) (SwarmEvent (GossipsubMessage data) # ops) = (TaskPanicked, s, w')
        else network_step nx sx (TaskRunning, s, w) (SwarmEvent (GossipsubMessage data)) = (TaskRunning, s, w)
    | None \<Rightarrow> network_step nx sx (TaskRunning, s, w) (SwarmEvent (GossipsubMessage data)) = (TaskRunning, s, w)"
proof (cases "nx_utf8 nx data")
  case None
  then show ?thesis by (simp add: loop_round_def handle_gossip_message_def assms invalid_message_def io_ok_def)
next
  case (Some t)
  show ?thesis
  proof (cases "nx_trace nx \<and> length t > 100 \<and> \<not> is_char_boundary t 100")
    case True
    then have "network_step nx sx (TaskRunning, s, w) (SwarmEvent (GossipsubMessage data)) = (TaskPanicked, s, w)"
      using Some by (simp add: loop_round_def handle_gossip_message_def assms invalid_message_def io_fail_def)
    with network_run_stopped [of TaskPanicked nx sx s w ops] True Some show ?thesis by simp
  next
    case False
    then have "nx_trace nx \<longrightarrow> is_char_boundary t (min (length t) 100)"
      by (cases "length t > 100") (auto simp: is_char_boundary_def)
    then have "network_step nx sx (TaskRunning, s, w) (SwarmEvent (GossipsubMessage data)) = (TaskRunning, s, w)"
      using Some by (auto simp: loop_round_def handle_gossip_message_def assms invalid_message_def io_ok_def)
    with False Some show ?thesis by auto
  qed
qed

theorem invalid_message_stops_network_witness:
  "\<exists>w. foldl (network_step (sample_net (Notification [] 0) (Notification [] 0)) sample_secrets_service)
      (TaskRunning, sample_network, (0, sample_runner))
      [SwarmEvent (GossipsubMessage [3]), SwarmEvent (ConnectionEstablished ''P'' ''/ip4/1'')]
    = (TaskPanicked, sample_network, w)"
proof -
  let ?n = "sample_net (Notification [] 0) (Notification [] 0)"
  have d: "nx_decode ?n [3] = Inl ''not CBOR''" by (simp add: sample_net_def)
  have u: "nx_utf8 ?n [3] = Some (replicate 99 CHR ''a'' @ [CHR 0xC3, CHR 0xA9])" "nx_trace ?n"
    by (simp_all add: sample_net_def)
  have b: "\<not> is_char_boundary (replicate 99 CHR ''a'' @ [CHR 0xC3, CHR 0xA9]) 100"
    by (simp add: is_char_boundary_def nth_append)
  from invalid_message_stops_network [OF d, of sample_secrets_service sample_network "(0, sample_runner)"
      "[SwarmEvent (ConnectionEstablished ''P'' ''/ip4/1'')]"] u b
  show ?thesis by simp
qed

end
