(* ===== verification/Daemon_Start.thy ===== *)
theory Daemon_Start
  imports Daemon_Network
begin

text \<open>
  Starting the daemon: its identity (\<open>src/node/daemon/src/identity.rs\<close>), the connection to the enclave
  and the order of the services (\<open>main.rs\<close>), the socket of the gRPC server (\<open>grpc/mod.rs\<close>) and its
  debug service (\<open>grpc/debug.rs\<close>).
\<close>

section \<open>Identity\<close>

record ('w, 'k) identity_ext =
  ix_exists :: "string \<Rightarrow> 'w \<Rightarrow> bool"
  ix_read :: "string \<Rightarrow> ('w, string, bytes) call"
  ix_create_parent :: "string \<Rightarrow> ('w, string, unit) call"
  ix_write :: "string \<Rightarrow> bytes \<Rightarrow> ('w, string, unit) call"
  ix_generate :: "'w \<Rightarrow> 'k \<times> 'w"
  ix_decode :: "bytes \<Rightarrow> 'k option"
  ix_encode :: "'k \<Rightarrow> string + bytes"

definition create_ephemeral_identity :: "('w, 'k) identity_ext \<Rightarrow> ('w, 'k) io" where
  "create_ephemeral_identity ix w = (case ix_generate ix w of (k, w') \<Rightarrow> (Inr k, w'))"

text \<open>The directory of the path is created first; a path without one has nothing to create.\<close>

definition create_and_save_identity :: "('w, 'k) identity_ext \<Rightarrow> string \<Rightarrow> ('w, 'k) io" where
  "create_and_save_identity ix path =
    io_bind (create_ephemeral_identity ix) (\<lambda>keypair.
    io_bind (io_map_err AppIo (ix_create_parent ix path)) (\<lambda>_.
    io_bind (io_of (map_err (\<lambda>e. AppIdentity (''Failed to serialize identity: '' @ e)) (ix_encode ix keypair))) (\<lambda>key_data.
    io_bind (io_map_err AppIo (ix_write ix path key_data)) (\<lambda>_. io_ok keypair))))"

definition get_or_create_identity :: "('w, 'k) identity_ext \<Rightarrow> string \<Rightarrow> ('w, 'k) io" where
  "get_or_create_identity ix path =
    io_bind (io_read (ix_exists ix path)) (\<lambda>ex.
    if ex then
      io_bind (io_map_err AppIo (ix_read ix path)) (\<lambda>key_data.
      case ix_decode ix key_data of
        Some keypair \<Rightarrow> io_ok keypair
      | None \<Rightarrow> create_and_save_identity ix path)
    else create_and_save_identity ix path)"

section \<open>Connecting to the enclave\<close>

definition MAX_ATTEMPTS :: nat where
  "MAX_ATTEMPTS = 10"

text \<open>
  The loop after \<open>attempts\<close> failures, with what it has slept in milliseconds; the last failure panics.
\<close>

function connect_enclave ::
  "('w, app_error, 'c) call \<Rightarrow> (nat \<Rightarrow> 'w \<Rightarrow> 'w) \<Rightarrow> nat \<Rightarrow> ('w, 'c) io" where
  "connect_enclave connect sleep attempts w =
    (let attempts = attempts + 1 in
     case connect w of
       (Inr client, w') \<Rightarrow> (Inr client, w')
     | (Inl _, w') \<Rightarrow> if attempts \<ge> MAX_ATTEMPTS then (Inl AppPanic, w')
         else connect_enclave connect sleep attempts (sleep (attempts * 100) w'))"
  by auto
termination by (relation "measure (\<lambda>(_, _, n, _). MAX_ATTEMPTS - n)") auto

declare connect_enclave.simps [simp del]

section \<open>The socket of the gRPC server\<close>

datatype connect_failure = ConnectionRefused string | OtherFailure string

record grpc_config =
  gr_mode :: string
  gr_uds_path :: string
  gr_vsock_cid :: u32
  gr_vsock_port :: u32
  gr_tcp_addr :: string

record ('w, 'l) grpc_ext =
  gx_exists :: "string \<Rightarrow> 'w \<Rightarrow> bool"
  gx_connect :: "string \<Rightarrow> ('w, connect_failure, unit) call"
  gx_remove :: "string \<Rightarrow> ('w, string, unit) call"
  gx_bind_uds :: "string \<Rightarrow> ('w, string, 'l) call"
  gx_bind_vsock :: "u32 \<Rightarrow> u32 \<Rightarrow> ('w, string, 'l) call"
  gx_serve :: "'l \<Rightarrow> ('w, string, unit) call"
  gx_serve_tcp :: "string \<Rightarrow> ('w, string, unit) call"
  gx_addr_ok :: "string \<Rightarrow> string + unit"

definition remove_stale_socket :: "('w, 'l) grpc_ext \<Rightarrow> string \<Rightarrow> ('w, unit) io" where
  "remove_stale_socket gx path =
    io_bind (io_read (gx_exists gx path)) (\<lambda>ex.
    if \<not> ex then io_ok ()
    else io_try (gx_connect gx path) (\<lambda>r. case r of
        Inr _ \<Rightarrow> io_fail (AppService (''UDS at '' @ path @ '' is already in use by a running server.''))
      | Inl (ConnectionRefused _) \<Rightarrow>
          io_map_err (\<lambda>e. AppService (''Failed to remove stale UDS file '' @ path @ '': '' @ e)) (gx_remove gx path)
      | Inl (OtherFailure e) \<Rightarrow> io_fail (AppService (''Error checking existing UDS at '' @ path @ '': '' @ e))))"

definition server_error :: "string \<Rightarrow> app_error" where
  "server_error e = AppService (''gRPC server error: '' @ e)"

definition start_grpc_server :: "('w, 'l) grpc_ext \<Rightarrow> grpc_config \<Rightarrow> ('w, unit) io" where
  "start_grpc_server gx c =
    (if gr_mode c = ''vsock'' then
       io_bind (io_map_err (\<lambda>e. AppService (''Failed to bind vsock: '' @ e)) (gx_bind_vsock gx (gr_vsock_cid c) (gr_vsock_port c)))
         (\<lambda>l. io_map_err server_error (gx_serve gx l))
     else if gr_mode c = ''uds'' then
       io_bind (remove_stale_socket gx (gr_uds_path c)) (\<lambda>_.
       io_bind (io_map_err (\<lambda>e. AppService (''Failed to bind UDS: '' @ e)) (gx_bind_uds gx (gr_uds_path c))) (\<lambda>l.
       io_bind (io_map_err server_error (gx_serve gx l)) (\<lambda>_.
       io_try (gx_remove gx (gr_uds_path c)) (\<lambda>_. io_ok ()))))
     else if gr_mode c = ''tcp'' then
       io_bind (io_of (map_err (\<lambda>e. AppService (''Invalid TCP address: '' @ e)) (gx_addr_ok gx (gr_tcp_addr c)))) (\<lambda>_.
       io_map_err server_error (gx_serve_tcp gx (gr_tcp_addr c)))
     else io_fail (AppService (''Invalid gRPC mode: '' @ gr_mode c)))"

section \<open>The debug service\<close>

text \<open>The error of the client is the text of the status \<open>internal\<close>.\<close>

definition debug_attach_vm ::
  "'w enclave_rpc \<Rightarrow> string \<Rightarrow> string \<Rightarrow> (vm_registry \<times> 'w, string, bool) call" where
  "debug_attach_vm rpc vm_id path =
    (let vm_id = (if vm_id = [] then path else vm_id) in
     io_bind (on_world (client_attach_vm rpc vm_id path)) (\<lambda>attached.
     if attached then io_bind (on_state (add_vm vm_id)) (\<lambda>_. io_ok True) else io_ok False))"

section \<open>The order of the start\<close>

text \<open>
  The steps of \<open>main\<close> up to the point where its tasks run, over the state that they share. Each step that
  fails ends the daemon; the attachment of the configured VMs panics.
\<close>

definition daemon_start ::
  "('w, 'k) identity_ext \<Rightarrow> ('w, app_error, unit) call \<Rightarrow> (nat \<Rightarrow> 'w \<Rightarrow> 'w) \<Rightarrow> ('w, 'j, 'p) daemon_ext \<Rightarrow> 'w network_ext
     \<Rightarrow> string option \<Rightarrow> string list \<Rightarrow> string list \<Rightarrow> (vm_registry \<times> 'w, 'k \<times> string list) io" where
  "daemon_start ix connect sleep dx nx identity_path listen bootstrap =
    io_bind (on_world (case identity_path of Some p \<Rightarrow> get_or_create_identity ix p | None \<Rightarrow> create_ephemeral_identity ix)) (\<lambda>key.
    io_bind (on_world (connect_enclave connect sleep 0)) (\<lambda>_.
    io_bind (io_map_app (\<lambda>_. AppPanic) (attach_configured_vms dx)) (\<lambda>ids.
    io_bind (on_world (network_start nx listen bootstrap)) (\<lambda>_. io_ok (key, ids)))))"

section \<open>Properties\<close>

text \<open>
  A node keeps its identity. When the identity was loaded or created, and the file still reads as it was
  left, every later start loads the same key pair and writes nothing.
\<close>

theorem identity_kept:
  assumes "get_or_create_identity ix path w = (Inr k, w')"
    and "\<And>k d. ix_encode ix k = Inr d \<Longrightarrow> ix_decode ix d = Some k"
    and "\<And>d v v'. ix_write ix path d v = (Inr (), v') \<Longrightarrow> ix_exists ix path v' \<and> ix_read ix path v' = (Inr d, v')"
    and "\<And>d v v'. ix_read ix path v = (Inr d, v') \<Longrightarrow> ix_exists ix path v' = ix_exists ix path v \<and> ix_read ix path v' = (Inr d, v')"
  shows "get_or_create_identity ix path w' = (Inr k, w')"
proof -
  have stay: "get_or_create_identity ix path v = (Inr k, v)"
    if "ix_exists ix path v" "ix_read ix path v = (Inr d, v)" "ix_decode ix d = Some k" for v d
    using that by (simp add: get_or_create_identity_def io_bind_def io_read_def io_map_err_def io_simps)
  have created: ?thesis if c: "create_and_save_identity ix path v = (Inr k, w')" for v
  proof -
    from c obtain d v' where "ix_encode ix k = Inr d" "ix_write ix path d v' = (Inr (), w')"
      by (auto simp: create_and_save_identity_def call_ok_iffs io_ok_def map_err_Inr_iff)
    with assms(2,3) stay show ?thesis by blast
  qed
  show ?thesis
  proof (cases "ix_exists ix path w")
    case False
    with assms(1) have "create_and_save_identity ix path w = (Inr k, w')"
      by (simp add: get_or_create_identity_def io_bind_def io_read_def)
    then show ?thesis by (rule created)
  next
    case True
    with assms(1) obtain d w1 where r: "ix_read ix path w = (Inr d, w1)"
      and x: "(case ix_decode ix d of Some keypair \<Rightarrow> io_ok keypair | None \<Rightarrow> create_and_save_identity ix path) w1 = (Inr k, w')"
      by (auto simp: get_or_create_identity_def io_bind_ok_iff io_map_err_ok_iff io_read_def)
    show ?thesis
    proof (cases "ix_decode ix d")
      case None
      with x show ?thesis by (auto intro: created)
    next
      case (Some k')
      with x have "k' = k" "w1 = w'" by (auto simp: io_ok_def)
      with assms(4) [OF r] True Some show ?thesis by (auto intro: stay)
    qed
  qed
qed

definition sample_identity :: "((bytes option \<times> nat), nat) identity_ext" where
  "sample_identity = \<lparr>ix_exists = (\<lambda>_ w. fst w \<noteq> None),
     ix_read = (\<lambda>_ w. (case fst w of Some d \<Rightarrow> Inr d | None \<Rightarrow> Inl ''no file'', w)), ix_create_parent = (\<lambda>_. io_ok ()),
     ix_write = (\<lambda>_ d w. (Inr (), (Some d, snd w))), ix_generate = (\<lambda>w. (snd w, (fst w, snd w + 1))),
     ix_decode = (\<lambda>d. case d of [x] \<Rightarrow> Some (unat x) | _ \<Rightarrow> None),
     ix_encode = (\<lambda>k. if k < 256 then Inr [word_of_nat k] else Inl ''too long'')\<rparr>"

theorem identity_kept_witness:
  "get_or_create_identity sample_identity ''key'' (Some [], 3) = (Inr 3, (Some [3], 4))
   \<and> get_or_create_identity sample_identity ''key'' (Some [3], 4) = (Inr 3, (Some [3], 4))"
proof -
  have c: "get_or_create_identity sample_identity ''key'' (Some [], 3) = (Inr 3, (Some [3], 4))"
    by (simp add: get_or_create_identity_def create_and_save_identity_def create_ephemeral_identity_def sample_identity_def
        io_bind_def io_read_def io_map_err_def io_simps)
  moreover have "get_or_create_identity sample_identity ''key'' (Some [3], 4) = (Inr 3, (Some [3], 4))"
    by (rule identity_kept [OF c]) (auto simp: sample_identity_def unat_of_nat split: if_splits option.splits)
  ultimately show ?thesis by blast
qed

text \<open>
  A socket that a server still uses is never removed. Unless the path is free or a connection to it is
  refused, the start of the gRPC server fails before it removes or binds anything.
\<close>

theorem socket_in_use_kept:
  assumes "gr_mode c = ''uds''" "gx_exists gx (gr_uds_path c) w"
    and "gx_connect gx (gr_uds_path c) w = (r, w')" "\<not> (\<exists>e. r = Inl (ConnectionRefused e))"
  shows "\<exists>e. start_grpc_server (gx\<lparr>gx_remove := f, gx_bind_uds := g, gx_serve := h\<rparr>) c w = (Inl (AppService e), w')"
proof (cases r)
  case (Inr u)
  with assms show ?thesis
    by (simp add: start_grpc_server_def remove_stale_socket_def io_bind_def io_read_def io_try_def io_simps)
next
  case (Inl x)
  with assms obtain e where "r = Inl (OtherFailure e)" by (cases x) auto
  with assms show ?thesis
    by (simp add: start_grpc_server_def remove_stale_socket_def io_bind_def io_read_def io_try_def io_simps)
qed

definition sample_grpc :: "(nat, unit) grpc_ext" where
  "sample_grpc = \<lparr>gx_exists = (\<lambda>_ _. True), gx_connect = (\<lambda>_. io_ok ()), gx_remove = (\<lambda>_ w. (Inr (), w + 1)),
     gx_bind_uds = (\<lambda>_. io_ok ()), gx_bind_vsock = (\<lambda>_ _. io_ok ()), gx_serve = (\<lambda>_. io_ok ()),
     gx_serve_tcp = (\<lambda>_. io_ok ()), gx_addr_ok = (\<lambda>_. Inr ())\<rparr>"

definition sample_grpc_config :: grpc_config where
  "sample_grpc_config = \<lparr>gr_mode = ''uds'', gr_uds_path = ''/tmp/d.sock'', gr_vsock_cid = 3, gr_vsock_port = 5000, gr_tcp_addr = []\<rparr>"

theorem socket_in_use_kept_witness: "\<exists>e. start_grpc_server sample_grpc sample_grpc_config 7 = (Inl (AppService e), 7)"
proof -
  have "gx_connect sample_grpc (gr_uds_path sample_grpc_config) 7 = (Inr (), 7)" by (simp add: sample_grpc_def io_ok_def)
  from socket_in_use_kept [of sample_grpc_config sample_grpc 7, OF _ _ this, where f = "gx_remove sample_grpc" and g = "gx_bind_uds sample_grpc" and h = "gx_serve sample_grpc"]
  show ?thesis by (simp add: sample_grpc_config_def sample_grpc_def)
qed

end
