(* ===== verification/Zenroom_Input.thy ===== *)
theory Zenroom_Input
  imports Vm_Server Json_Values
begin

text \<open>
  The Zenroom VM, part one (\<open>src/node/vm/zenroom/src/vmm/mod.rs\<close> and \<open>config.rs\<close>): the configuration of
  a worker, the input that a script is given and the injection of secrets into its keys.

  HKDF, base64, hex, the clock and the reading of JSON text are fields of \<open>zenroom_ext\<close>.
\<close>

section \<open>Configuration\<close>

record zenroom_config =
  zencode_exec_path :: string
  lua_exec_path :: string
  exec_timeout_ms :: u64
  postback_enabled :: bool
  postback_allowed_host_suffixes :: "string list"
  postback_allowed_schemes :: "string list"
  postback_allowed_ports :: "u16 list"
  postback_block_private_ips :: bool
  postback_timeout_ms :: u64
  max_stdout_bytes :: nat
  max_stderr_bytes :: nat
  max_script_bytes :: nat
  max_total_secrets_bytes :: nat
  max_derived_key_len :: nat
  max_conf_bytes :: nat
  allow_debug_conf :: bool
  require_kdf :: bool

definition zenroom_config_default :: zenroom_config where
  "zenroom_config_default = \<lparr>zencode_exec_path = ''zencode-exec'', lua_exec_path = ''lua-exec'',
     exec_timeout_ms = 10000, postback_enabled = False, postback_allowed_host_suffixes = [],
     postback_allowed_schemes = [''https''], postback_allowed_ports = [443], postback_block_private_ips = True,
     postback_timeout_ms = 5000, max_stdout_bytes = 262144, max_stderr_bytes = 262144,
     max_script_bytes = 524288, max_total_secrets_bytes = 65536, max_derived_key_len = 64,
     max_conf_bytes = 4096, allow_debug_conf = False, require_kdf = False\<rparr>"

record body_selector =
  bs_from :: string
  bs_json_pointer :: "string option"

record http_target =
  ht_url :: string
  ht_method :: "string option"
  ht_headers :: "(string \<times> string) list option"
  ht_body :: "body_selector option"

record evm_target =
  et_url :: string
  et_method :: string
  et_params :: "body_selector list"

datatype postback_target = HttpTarget http_target | EvmJsonRpc evm_target

text \<open>The sections of a worker's user data; every field may be missing.\<close>

record zenroom_inputs =
  zi_data :: "json option"
  zi_keys :: "json option"
  zi_extra :: "json option"
  zi_context :: "json option"
  zi_merge_strategy :: "string option"

record zenroom_output =
  zo_format :: "string option"
  zo_json_pointer :: "string option"

record zenroom_userdata =
  zu_mode :: "string option"
  zu_conf :: "string option"
  zu_inputs :: "zenroom_inputs option"
  zu_output :: "zenroom_output option"
  zu_response_mode :: "string option option"

record postback_userdata =
  pu_enabled :: "bool option"
  pu_required :: "bool option"
  pu_retries :: "(u32 option \<times> u64 option) option"
  pu_targets :: "postback_target list option"

record userdata_root =
  ur_zenroom :: "zenroom_userdata option"
  ur_postback :: "postback_userdata option"

definition userdata_default :: userdata_root where
  "userdata_default = \<lparr>ur_zenroom = None, ur_postback = None\<rparr>"

definition zenroom_userdata_default :: zenroom_userdata where
  "zenroom_userdata_default =
    \<lparr>zu_mode = None, zu_conf = None, zu_inputs = None, zu_output = None, zu_response_mode = None\<rparr>"

definition zenroom_inputs_default :: zenroom_inputs where
  "zenroom_inputs_default =
    \<lparr>zi_data = None, zi_keys = None, zi_extra = None, zi_context = None, zi_merge_strategy = None\<rparr>"

definition zenroom_output_default :: zenroom_output where
  "zenroom_output_default = \<lparr>zo_format = None, zo_json_pointer = None\<rparr>"

definition postback_userdata_default :: postback_userdata where
  "postback_userdata_default = \<lparr>pu_enabled = None, pu_required = None, pu_retries = None, pu_targets = None\<rparr>"

datatype zenroom_mode = Zencode | Lua

datatype merge_strategy = Merge | Wrap

datatype output_format = FormatJson | FormatRaw

datatype response_mode = RespondEnvelope | RespondStdout | RespondSelectedOutput

record normalized_inputs =
  ni_data :: json
  ni_keys :: json
  ni_extra :: json
  ni_context :: json
  ni_merge_strategy :: merge_strategy

record normalized_output =
  no_format :: output_format
  no_json_pointer :: "string option"

record postback_config =
  pb_enabled :: bool
  pb_required :: bool
  pb_max_retries :: u32
  pb_backoff_ms :: u64
  pb_targets :: "postback_target list"

record worker_config =
  wc_mode :: zenroom_mode
  wc_conf :: string
  wc_inputs :: normalized_inputs
  wc_output :: normalized_output
  wc_response_mode :: response_mode
  wc_postback :: postback_config

record zenroom_ext =
  zx_lower :: "string \<Rightarrow> string"
  zx_space :: "char \<Rightarrow> bool"
  zx_hkdf :: "bytes \<Rightarrow> bytes \<Rightarrow> bytes \<Rightarrow> nat \<Rightarrow> bytes option"
  zx_b64 :: "bytes \<Rightarrow> string"
  zx_hex :: "bytes \<Rightarrow> string"
  zx_utf8_lossy :: "bytes \<Rightarrow> string"
  zx_from_utf8 :: "bytes \<Rightarrow> string + string"
  zx_show_nat :: "nat \<Rightarrow> string"
  zx_show_int :: "int \<Rightarrow> string"
  zx_to_string :: "json \<Rightarrow> string"
  zx_from_str :: "string \<Rightarrow> json option"
  zx_pointer :: "json \<Rightarrow> string \<Rightarrow> json option"
  zx_userdata :: "string \<Rightarrow> string + userdata_root"

definition empty_object :: json where
  "empty_object = JObject []"

definition normalize_mode :: "zenroom_ext \<Rightarrow> string option \<Rightarrow> string + zenroom_mode" where
  "normalize_mode zx m = (let s = zx_lower zx (unwrap_or ''zencode'' m) in
     if s = ''zencode'' then Inr Zencode else if s = ''lua'' then Inr Lua
     else Inl (''Unsupported zenroom.mode '' @ quoted s))"

definition normalize_merge_strategy :: "zenroom_ext \<Rightarrow> string option \<Rightarrow> string + merge_strategy" where
  "normalize_merge_strategy zx m = (let s = zx_lower zx (unwrap_or ''merge'' m) in
     if s = ''merge'' then Inr Merge else if s = ''wrap'' then Inr Wrap
     else Inl (''Unsupported merge_strategy '' @ quoted s))"

definition normalize_format :: "zenroom_ext \<Rightarrow> string option \<Rightarrow> string + output_format" where
  "normalize_format zx m = (let s = zx_lower zx (unwrap_or ''json'' m) in
     if s = ''json'' then Inr FormatJson else if s = ''raw'' then Inr FormatRaw
     else Inl (''Unsupported output.format '' @ quoted s))"

definition normalize_response_mode :: "zenroom_ext \<Rightarrow> string option \<Rightarrow> string + response_mode" where
  "normalize_response_mode zx m = (let s = zx_lower zx (unwrap_or ''envelope'' m) in
     if s = ''envelope'' then Inr RespondEnvelope else if s = ''stdout'' then Inr RespondStdout
     else if s = ''selected_output'' then Inr RespondSelectedOutput
     else Inl (''Unsupported http.response_mode '' @ quoted s))"

definition normalize_postback :: "postback_userdata \<Rightarrow> postback_config" where
  "normalize_postback p = (let r = unwrap_or (None, None) (pu_retries p) in
     \<lparr>pb_enabled = unwrap_or False (pu_enabled p), pb_required = unwrap_or False (pu_required p),
      pb_max_retries = unwrap_or 0 (fst r), pb_backoff_ms = unwrap_or 250 (snd r),
      pb_targets = unwrap_or [] (pu_targets p)\<rparr>)"

definition normalize_worker_config :: "zenroom_ext \<Rightarrow> userdata_root \<Rightarrow> string + worker_config" where
  "normalize_worker_config zx ud =
    (let z = unwrap_or zenroom_userdata_default (ur_zenroom ud);
         p = unwrap_or postback_userdata_default (ur_postback ud);
         i = unwrap_or zenroom_inputs_default (zu_inputs z);
         out = unwrap_or zenroom_output_default (zu_output z) in
     rbind (normalize_mode zx (zu_mode z)) (\<lambda>m.
     rbind (normalize_merge_strategy zx (zi_merge_strategy i)) (\<lambda>s.
     rbind (normalize_format zx (zo_format out)) (\<lambda>f.
     rbind (normalize_response_mode zx (unwrap_or None (zu_response_mode z))) (\<lambda>h.
     Inr \<lparr>wc_mode = m, wc_conf = unwrap_or ''debug=0'' (zu_conf z),
       wc_inputs = \<lparr>ni_data = unwrap_or empty_object (zi_data i), ni_keys = unwrap_or empty_object (zi_keys i),
         ni_extra = unwrap_or empty_object (zi_extra i), ni_context = unwrap_or empty_object (zi_context i),
         ni_merge_strategy = s\<rparr>,
       wc_output = \<lparr>no_format = f, no_json_pointer = zo_json_pointer out\<rparr>, wc_response_mode = h,
       wc_postback = normalize_postback p\<rparr>)))))"

section \<open>The Zenroom configuration line\<close>

definition conf_key :: "string \<Rightarrow> string" where
  "conf_key e = takeWhile (\<lambda>c. c \<noteq> CHR ''='') e"

definition conf_entries :: "zenroom_ext \<Rightarrow> string \<Rightarrow> string list" where
  "conf_entries zx conf =
    filter (\<lambda>e. e \<noteq> [] \<and> conf_key e \<noteq> ''debug'') (map (trim_text (zx_space zx)) (split_char CHR '','' conf))
      @ [''debug=0'']"

definition build_conf :: "zenroom_ext \<Rightarrow> zenroom_config \<Rightarrow> string \<Rightarrow> string + string" where
  "build_conf zx cfg conf =
    (let adjusted = (if allow_debug_conf cfg then conf else join_with '','' (conf_entries zx conf)) in
     if max_conf_bytes cfg < length adjusted
     then Inl (''Zenroom conf length '' @ zx_show_nat zx (length adjusted) @ '' exceeds max ''
       @ zx_show_nat zx (max_conf_bytes cfg))
     else Inr adjusted)"

section \<open>Metadata of an invocation\<close>

definition merge_data :: "json \<Rightarrow> json \<Rightarrow> merge_strategy \<Rightarrow> json" where
  "merge_data user nxcc s =
    (let wrapped = json_object [(''input'', user), (''nxcc'', nxcc)] in
     case s of Wrap \<Rightarrow> wrapped
     | Merge \<Rightarrow> (case user of
         JObject m \<Rightarrow> if json_get ''nxcc'' m \<noteq> None then wrapped else JObject (json_insert ''nxcc'' nxcc m)
       | _ \<Rightarrow> wrapped))"

definition VM_ID :: string where
  "VM_ID = ''nxcc/zenroom''"

definition DEFAULT_HANDLER_NAME :: string where
  "DEFAULT_HANDLER_NAME = ''fetch''"

definition option_json :: "('a \<Rightarrow> json) \<Rightarrow> 'a option \<Rightarrow> json" where
  "option_json f x = (case x of None \<Rightarrow> JNull | Some y \<Rightarrow> f y)"

definition web3_log_to_json :: "zenroom_ext \<Rightarrow> web3_log \<Rightarrow> json" where
  "web3_log_to_json zx l =
    (let hex = (\<lambda>b. JString (''0x'' @ zx_hex zx b)); num = (\<lambda>n. JNumber (PosInt n)) in
     json_object [(''address'', hex (wl_address l)), (''topics'', JArray (map hex (wl_topics l))),
       (''data'', hex (wl_data l)), (''block_hash'', option_json hex (wl_block_hash l)),
       (''block_number'', option_json num (wl_block_number l)),
       (''transaction_hash'', option_json hex (wl_transaction_hash l)),
       (''transaction_index'', option_json num (wl_transaction_index l)),
       (''log_index'', option_json num (wl_log_index l)), (''removed'', JBool (wl_removed l))])"

definition worker_json :: "string \<Rightarrow> string \<Rightarrow> json" where
  "worker_json worker_id instance_id = json_object [(''worker_id'', JString worker_id),
     (''instance_id'', JString instance_id), (''vm'', JString VM_ID)]"

definition invocation_json :: "string \<Rightarrow> string \<Rightarrow> string \<Rightarrow> json" where
  "invocation_json ty hnd now = json_object [(''type'', JString ty), (''handler'', JString hnd), (''received_at'', JString now)]"

definition event_kind_payload :: "zenroom_ext \<Rightarrow> event_payload \<Rightarrow> string \<times> json" where
  "event_kind_payload zx p = (case p of
      EpWeb3Log l \<Rightarrow> (''web3_log'', web3_log_to_json zx l)
    | EpLaunch \<Rightarrow> (''launch'', empty_object)
    | EpScheduled \<Rightarrow> (''scheduled'', empty_object)
    | _ \<Rightarrow> (''unknown'', empty_object))"

definition build_nxcc_event :: "zenroom_ext \<Rightarrow> string \<Rightarrow> string \<Rightarrow> string \<Rightarrow> string \<Rightarrow> event_payload \<Rightarrow> json" where
  "build_nxcc_event zx worker_id instance_id now hnd p =
    (let (kind, payload) = event_kind_payload zx p in
     json_object [(''worker'', worker_json worker_id instance_id), (''invocation'', invocation_json ''event'' hnd now),
       (''event'', json_object [(''kind'', JString kind), (''payload'', payload)])])"

text \<open>The header map: the values of a lower-cased key in the order in which they came.\<close>

definition header_values :: "zenroom_ext \<Rightarrow> vm_header list \<Rightarrow> string \<Rightarrow> string list" where
  "header_values zx hs k =
    map (zx_utf8_lossy zx \<circ> vh_value) (filter (\<lambda>h. map ascii_lower (vh_key h) = k) hs)"

definition first_header :: "zenroom_ext \<Rightarrow> vm_header list \<Rightarrow> string \<Rightarrow> string option" where
  "first_header zx hs k = (case header_values zx hs k of [] \<Rightarrow> None | v # _ \<Rightarrow> Some v)"

definition normalized_headers :: "zenroom_ext \<Rightarrow> vm_header list \<Rightarrow> json" where
  "normalized_headers zx hs = json_object (map (\<lambda>k. (k, JString (join_with '', '' (header_values zx hs k))))
     (remdups (map (\<lambda>h. map ascii_lower (vh_key h)) hs)))"

definition request_url :: "zenroom_ext \<Rightarrow> vm_http_request \<Rightarrow> string" where
  "request_url zx r =
    (let scheme = unwrap_or ''http'' (map_option (\<lambda>v. hd (split_char CHR '','' v)) (first_header zx (vr_headers r) ''x-forwarded-proto''));
         host = (case first_header zx (vr_headers r) ''x-forwarded-host'' of Some h \<Rightarrow> h
                 | None \<Rightarrow> unwrap_or ''localhost'' (first_header zx (vr_headers r) ''host''))
     in scheme @ ''://'' @ host @ vr_uri r)"

definition build_nxcc_http :: "zenroom_ext \<Rightarrow> string \<Rightarrow> string \<Rightarrow> string \<Rightarrow> vm_http_request \<Rightarrow> json" where
  "build_nxcc_http zx worker_id instance_id now r =
    json_object [(''worker'', worker_json worker_id instance_id),
      (''invocation'', invocation_json ''http'' DEFAULT_HANDLER_NAME now),
      (''http'', json_object [(''method'', JString (vr_method r)), (''url'', JString (request_url zx r)),
         (''headers'', normalized_headers zx (vr_headers r)), (''body_base64'', JString (zx_b64 zx (vr_body r)))])]"

section \<open>Secrets\<close>

definition derive_secret :: "zenroom_ext \<Rightarrow> zenroom_config \<Rightarrow> bytes \<Rightarrow> json \<Rightarrow> string + bytes" where
  "derive_secret zx cfg secret kdf =
    rbind (ok_or ''kdf must be an object'' (as_object kdf)) (\<lambda>m.
    let info = unwrap_or [] (Option.bind (json_get ''info'' m) as_str);
        len = unat (unwrap_or 32 (Option.bind (json_get ''len'' m) as_u64));
        salt = unwrap_or [] (Option.bind (json_get ''salt'' m) as_str) in
    if max_derived_key_len cfg < len
    then Inl (''Derived key length '' @ zx_show_nat zx len @ '' exceeds max '' @ zx_show_nat zx (max_derived_key_len cfg))
    else ok_or ''HKDF expand failed'' (zx_hkdf zx (str_bytes salt) secret (str_bytes info) len))"

definition encode_secret :: "zenroom_ext \<Rightarrow> string \<Rightarrow> bytes \<Rightarrow> string + string" where
  "encode_secret zx encoding d =
    (if encoding = ''hex'' then Inr (zx_hex zx d)
     else if encoding = ''base64'' then Inr (zx_b64 zx d)
     else Inl (''Unsupported encoding '' @ quoted encoding))"

text \<open>The replacement of a placeholder, with the number of bytes injected so far.\<close>

definition resolve_secret ::
  "zenroom_ext \<Rightarrow> zenroom_config \<Rightarrow> (string \<rightharpoonup> bytes) \<Rightarrow> json \<Rightarrow> json_fields \<Rightarrow> nat \<Rightarrow> string + (json \<times> nat)" where
  "resolve_secret zx cfg secrets name_value m used =
    rbind (ok_or ''Invalid $secret value'' (as_str name_value)) (\<lambda>name.
    rbind (ok_or (''Missing secret '' @ quoted name) (secrets name)) (\<lambda>secret.
    let encoding = zx_lower zx (unwrap_or ''base64'' (Option.bind (json_get ''encoding'' m) as_str));
        kdf = json_get ''kdf'' m in
    if require_kdf cfg \<and> kdf = None then Inl ''HKDF is required for secret injection'' else
    rbind (case kdf of Some k \<Rightarrow> derive_secret zx cfg secret k | None \<Rightarrow> Inr secret) (\<lambda>derived.
    let used = used + length derived in
    if max_total_secrets_bytes cfg < used
    then Inl (''Total derived secrets size '' @ zx_show_nat zx used @ '' exceeds max ''
      @ zx_show_nat zx (max_total_secrets_bytes cfg)) else
    rbind (encode_secret zx encoding derived) (\<lambda>s. Inr (JString s, used)))))"

fun inject_secrets ::
    "zenroom_ext \<Rightarrow> zenroom_config \<Rightarrow> (string \<rightharpoonup> bytes) \<Rightarrow> json \<Rightarrow> nat \<Rightarrow> string + (json \<times> nat)"
  and inject_values ::
    "zenroom_ext \<Rightarrow> zenroom_config \<Rightarrow> (string \<rightharpoonup> bytes) \<Rightarrow> json list \<Rightarrow> nat \<Rightarrow> string + (json list \<times> nat)"
  and inject_fields ::
    "zenroom_ext \<Rightarrow> zenroom_config \<Rightarrow> (string \<rightharpoonup> bytes) \<Rightarrow> json_fields \<Rightarrow> nat \<Rightarrow> string + (json_fields \<times> nat)"
where
  "inject_secrets zx cfg secrets (JArray vs) used =
    rbind (inject_values zx cfg secrets vs used) (\<lambda>(vs, t). Inr (JArray vs, t))"
| "inject_secrets zx cfg secrets (JObject m) used = (case json_get ''$secret'' m of
      Some n \<Rightarrow> resolve_secret zx cfg secrets n m used
    | None \<Rightarrow> rbind (inject_fields zx cfg secrets m used) (\<lambda>(m, t). Inr (JObject m, t)))"
| "inject_secrets zx cfg secrets v used = Inr (v, used)"
| "inject_values zx cfg secrets [] used = Inr ([], used)"
| "inject_values zx cfg secrets (v # vs) used =
    rbind (inject_secrets zx cfg secrets v used) (\<lambda>(v, t).
    rbind (inject_values zx cfg secrets vs t) (\<lambda>(vs, t). Inr (v # vs, t)))"
| "inject_fields zx cfg secrets [] used = Inr ([], used)"
| "inject_fields zx cfg secrets ((k, v) # kvs) used =
    rbind (inject_secrets zx cfg secrets v used) (\<lambda>(v, t).
    rbind (inject_fields zx cfg secrets kvs t) (\<lambda>(kvs, t). Inr ((k, v) # kvs, t)))"

section \<open>The configuration line keeps no debug setting\<close>

lemma takeWhile_id_iff: "takeWhile P xs = xs \<longleftrightarrow> (\<forall>x \<in> set xs. P x)"
  by (induction xs) auto

lemma trim_subset: "set (trim_text ws s) \<subseteq> set s"
  by (auto simp: trim_text_def dest!: set_dropWhileD)

lemma conf_entries_clean: "e \<in> set (conf_entries zx conf) \<Longrightarrow> CHR '','' \<notin> set e"
  using trim_subset split_char_pieces by (fastforce simp: conf_entries_def)

text \<open>
  The line given to Zenroom, when the operator does not allow debugging: its entries are the entries of
  the worker's line, trimmed, in order, without the empty ones and those for \<open>debug\<close>, and then
  \<open>debug=0\<close>, which is so the only setting of that key. The line respects the operator's limit.
\<close>

theorem conf_debug_enforced:
  assumes "build_conf zx cfg conf = Inr line" "\<not> allow_debug_conf cfg"
  shows "split_char CHR '','' line = filter (\<lambda>e. e \<noteq> [] \<and> conf_key e \<noteq> ''debug'')
        (map (trim_text (zx_space zx)) (split_char CHR '','' conf)) @ [''debug=0'']
    \<and> filter (\<lambda>e. conf_key e = ''debug'') (split_char CHR '','' line) = [''debug=0'']
    \<and> length line \<le> max_conf_bytes cfg"
proof -
  let ?es = "conf_entries zx conf"
  from assms have line: "line = join_with '','' ?es" and len: "length line \<le> max_conf_bytes cfg"
    by (auto simp: build_conf_def Let_def split: if_splits)
  have "split_char CHR '','' line = ?es"
    unfolding line using conf_entries_clean by (intro split_join) (auto simp: conf_entries_def)
  moreover have "filter (\<lambda>e. conf_key e = ''debug'') ?es = [''debug=0'']"
    by (simp add: conf_entries_def conf_key_def filter_empty_conv)
  ultimately show ?thesis using len by (simp add: conf_entries_def)
qed

definition sample_zenroom :: zenroom_ext where
  "sample_zenroom = \<lparr>zx_lower = map ascii_lower, zx_space = (\<lambda>c. c = CHR '' ''),
     zx_hkdf = (\<lambda>salt secret info n. Some (take n (secret @ replicate n 0))),
     zx_b64 = (\<lambda>b. ''b64''), zx_hex = (\<lambda>b. ''hex''), zx_utf8_lossy = map (\<lambda>b. char_of (unat b)),
     zx_from_utf8 = (\<lambda>b. Inr (map (\<lambda>b. char_of (unat b)) b)),
     zx_show_nat = (\<lambda>n. ''n''), zx_show_int = (\<lambda>n. ''i''), zx_to_string = (\<lambda>_. ''{}''),
     zx_from_str = (\<lambda>s. if s = ''{}'' then Some empty_object else None),
     zx_pointer = (\<lambda>v p. if p = [] then Some v else None), zx_userdata = (\<lambda>_. Inr userdata_default)\<rparr>"

lemma zenroom_config_default_simps [simp]:
  "max_conf_bytes zenroom_config_default = 4096" "\<not> allow_debug_conf zenroom_config_default"
  "max_total_secrets_bytes zenroom_config_default = 65536" "max_derived_key_len zenroom_config_default = 64"
  "\<not> require_kdf zenroom_config_default" "\<not> postback_enabled zenroom_config_default"
  unfolding zenroom_config_default_def zenroom_config.select_convs by simp_all

lemma sample_entries:
  "filter (\<lambda>e. e \<noteq> [] \<and> conf_key e \<noteq> ''debug'')
     (map (trim_text (zx_space sample_zenroom)) (split_char CHR '','' ''debug=3, rngseed=1,'')) = [''rngseed=1'']"
proof -
  have "map (trim_text (zx_space sample_zenroom)) (split_char CHR '','' ''debug=3, rngseed=1,'') = [''debug=3'', ''rngseed=1'', []]"
    by (simp add: sample_zenroom_def trim_text_def)
  then show ?thesis by (simp add: conf_key_def)
qed

theorem conf_debug_enforced_witness:
  "\<exists>line. build_conf sample_zenroom zenroom_config_default ''debug=3, rngseed=1,'' = Inr line
    \<and> split_char CHR '','' line = [''rngseed=1'', ''debug=0'']"
proof -
  have "\<exists>line. build_conf sample_zenroom zenroom_config_default ''debug=3, rngseed=1,'' = Inr line"
    unfolding build_conf_def conf_entries_def sample_entries by simp
  then obtain line where line: "build_conf sample_zenroom zenroom_config_default ''debug=3, rngseed=1,'' = Inr line" by blast
  from conf_debug_enforced [OF this] have "split_char CHR '','' line = [''rngseed=1'', ''debug=0'']"
    unfolding sample_entries by simp
  with line show ?thesis by blast
qed

section \<open>Metadata cannot be forged\<close>

text \<open>
  The data given to a script always carries the metadata of the invocation that the VM has built under
  \<open>nxcc\<close>, whatever the user data, also if the user data has a field of that name. The user data is all
  there: under \<open>input\<close>, or as the other fields.
\<close>

theorem merged_metadata_authentic:
  "\<exists>m. merge_data user nxcc s = JObject m \<and> json_get ''nxcc'' m = Some nxcc
    \<and> (json_get ''input'' m = Some user
       \<or> (\<exists>u. user = JObject u \<and> (\<forall>k. k \<noteq> ''nxcc'' \<longrightarrow> json_get k m = json_get k u)))"
proof -
  let ?w = "[(''input'', user), (''nxcc'', nxcc)]"
  obtain m where w: "json_object ?w = JObject m" by (simp add: json_object_def)
  have "json_get k m = map_of ?w k" for k by (rule json_object_get) (simp_all add: w)
  then have wrapped: "json_get ''nxcc'' m = Some nxcc" "json_get ''input'' m = Some user" by simp_all
  show ?thesis
  proof (cases "merge_data user nxcc s = json_object ?w")
    case True
    then show ?thesis using w wrapped by auto
  next
    case False
    then obtain u where u: "user = JObject u" "merge_data user nxcc s = JObject (json_insert ''nxcc'' nxcc u)"
      by (auto simp: merge_data_def Let_def split: merge_strategy.splits json.splits if_splits)
    then show ?thesis by auto
  qed
qed

theorem merged_metadata_authentic_witness:
  "\<exists>m. merge_data (JObject [(''nxcc'', JNull)]) (JBool True) Merge = JObject m \<and> json_get ''nxcc'' m = Some (JBool True)"
  using merged_metadata_authentic [of "JObject [(''nxcc'', JNull)]" "JBool True" Merge] by blast

section \<open>Injection\<close>

text \<open>A placeholder is an object with the field \<open>$secret\<close>.\<close>

fun placeholders :: "json \<Rightarrow> json_fields list"
  and value_placeholders :: "json list \<Rightarrow> json_fields list"
  and field_placeholders :: "json_fields \<Rightarrow> json_fields list" where
  "placeholders (JArray vs) = value_placeholders vs"
| "placeholders (JObject m) = (if json_get ''$secret'' m \<noteq> None then [m] else field_placeholders m)"
| "placeholders v = []"
| "value_placeholders [] = []"
| "value_placeholders (v # vs) = placeholders v @ value_placeholders vs"
| "field_placeholders [] = []"
| "field_placeholders ((k, v) # kvs) = placeholders v @ field_placeholders kvs"

text \<open>The bytes that a placeholder stands for and their text, if the operator's rules permit it.\<close>

definition secret_of ::
  "zenroom_ext \<Rightarrow> zenroom_config \<Rightarrow> (string \<rightharpoonup> bytes) \<Rightarrow> json_fields \<Rightarrow> bytes \<Rightarrow> string \<Rightarrow> bool" where
  "secret_of zx cfg secrets m d s \<longleftrightarrow>
    (\<exists>name raw. json_get ''$secret'' m = Some (JString name) \<and> secrets name = Some raw
       \<and> (case json_get ''kdf'' m of None \<Rightarrow> \<not> require_kdf cfg \<and> d = raw
          | Some k \<Rightarrow> derive_secret zx cfg raw k = Inr d)
       \<and> encode_secret zx (zx_lower zx (unwrap_or ''base64'' (Option.bind (json_get ''encoding'' m) as_str))) d = Inr s)"

text \<open>The tree with its placeholders replaced by the given texts, from left to right.\<close>

fun fill :: "json \<Rightarrow> string list \<Rightarrow> json \<times> string list"
  and fill_values :: "json list \<Rightarrow> string list \<Rightarrow> json list \<times> string list"
  and fill_fields :: "json_fields \<Rightarrow> string list \<Rightarrow> json_fields \<times> string list" where
  "fill (JArray vs) ss = (case fill_values vs ss of (vs, ss) \<Rightarrow> (JArray vs, ss))"
| "fill (JObject m) ss = (if json_get ''$secret'' m \<noteq> None then (JString (hd ss), tl ss)
     else case fill_fields m ss of (m, ss) \<Rightarrow> (JObject m, ss))"
| "fill v ss = (v, ss)"
| "fill_values [] ss = ([], ss)"
| "fill_values (v # vs) ss = (case fill v ss of (v, ss) \<Rightarrow> case fill_values vs ss of (vs, ss) \<Rightarrow> (v # vs, ss))"
| "fill_fields [] ss = ([], ss)"
| "fill_fields ((k, v) # kvs) ss = (case fill v ss of (v, ss) \<Rightarrow> case fill_fields kvs ss of (kvs, ss) \<Rightarrow> ((k, v) # kvs, ss))"

definition injected :: "zenroom_ext \<Rightarrow> zenroom_config \<Rightarrow> (string \<rightharpoonup> bytes) \<Rightarrow> json_fields list \<Rightarrow> nat \<Rightarrow> nat \<Rightarrow> string list \<Rightarrow> bool" where
  "injected zx cfg secrets ms used used' ss \<longleftrightarrow>
    (\<exists>ds. length ds = length ms \<and> list_all2 (\<lambda>(m, d) s. secret_of zx cfg secrets m d s) (zip ms ds) ss
       \<and> used' = used + sum_list (map length ds) \<and> (ms \<noteq> [] \<longrightarrow> used' \<le> max_total_secrets_bytes cfg))"

lemma injected_Nil [simp]: "injected zx cfg secrets [] used used' ss \<longleftrightarrow> used' = used \<and> ss = []"
  by (auto simp: injected_def)

lemma injected_append:
  assumes "injected zx cfg secrets ms t t' ss" "injected zx cfg secrets ns t' t'' us"
  shows "injected zx cfg secrets (ms @ ns) t t'' (ss @ us)"
proof -
  from assms(1) obtain ds where ds: "length ds = length ms" "list_all2 (\<lambda>(m, d) s. secret_of zx cfg secrets m d s) (zip ms ds) ss"
    "t' = t + sum_list (map length ds)" "ms \<noteq> [] \<longrightarrow> t' \<le> max_total_secrets_bytes cfg" by (auto simp: injected_def)
  from assms(2) obtain es where es: "length es = length ns" "list_all2 (\<lambda>(m, d) s. secret_of zx cfg secrets m d s) (zip ns es) us"
    "t'' = t' + sum_list (map length es)" "ns \<noteq> [] \<longrightarrow> t'' \<le> max_total_secrets_bytes cfg" by (auto simp: injected_def)
  have "list_all2 (\<lambda>(m, d) s. secret_of zx cfg secrets m d s) (zip (ms @ ns) (ds @ es)) (ss @ us)"
    using ds(1,2) es(2) by (simp add: list_all2_appendI)
  moreover have "ms @ ns \<noteq> [] \<longrightarrow> t'' \<le> max_total_secrets_bytes cfg" using ds(3,4) es by (cases ns) auto
  ultimately show ?thesis using ds es unfolding injected_def by (intro exI [of _ "ds @ es"]) simp
qed

lemma resolve_secret_ok:
  assumes "resolve_secret zx cfg secrets n m used = Inr (v, t)" "json_get ''$secret'' m = Some n"
  shows "\<exists>s. v = JString s \<and> injected zx cfg secrets [m] used t [s]"
proof -
  from assms(1) obtain name secret d s where
    r: "as_str n = Some name" "secrets name = Some secret"
    "(case json_get ''kdf'' m of Some k \<Rightarrow> derive_secret zx cfg secret k | None \<Rightarrow> Inr secret) = Inr d"
    "\<not> (require_kdf cfg \<and> json_get ''kdf'' m = None)"
    "encode_secret zx (zx_lower zx (unwrap_or ''base64'' (Option.bind (json_get ''encoding'' m) as_str))) d = Inr s"
    "v = JString s" "t = used + length d" "t \<le> max_total_secrets_bytes cfg"
    by (auto simp: resolve_secret_def Let_def result_simps split: if_splits)
  from r(1) have "n = JString name" by (cases n) auto
  with r assms(2) have "secret_of zx cfg secrets m d s" by (auto simp: secret_of_def split: option.splits)
  with r show ?thesis by (intro exI [of _ s] conjI) (auto simp: injected_def intro!: exI [of _ "[d]"])
qed

lemma inject_spec:
  "inject_secrets zx cfg secrets v used = Inr (v', t) \<Longrightarrow>
     \<exists>ss. injected zx cfg secrets (placeholders v) used t ss \<and> (\<forall>us. fill v (ss @ us) = (v', us))"
  "inject_values zx cfg secrets vs used = Inr (vs', t) \<Longrightarrow>
     \<exists>ss. injected zx cfg secrets (value_placeholders vs) used t ss \<and> (\<forall>us. fill_values vs (ss @ us) = (vs', us))"
  "inject_fields zx cfg secrets m used = Inr (m', t) \<Longrightarrow>
     \<exists>ss. injected zx cfg secrets (field_placeholders m) used t ss \<and> (\<forall>us. fill_fields m (ss @ us) = (m', us))"
proof (induction zx cfg secrets v used and zx cfg secrets vs used and zx cfg secrets m used
    arbitrary: v' t and vs' t and m' t rule: inject_secrets_inject_values_inject_fields.induct)
  case (1 zx cfg secrets vs used)
  then obtain vs'' where v: "inject_values zx cfg secrets vs used = Inr (vs'', t)" "v' = JArray vs''"
    by (auto simp: result_simps)
  from "1.IH" [OF v(1)] v(2) show ?case by auto
next
  case (2 zx cfg secrets m used)
  show ?case
  proof (cases "json_get ''$secret'' m")
    case None
    with 2 obtain m'' where m: "inject_fields zx cfg secrets m used = Inr (m'', t)" "v' = JObject m''"
      by (auto simp: result_simps)
    from "2.IH" [OF None m(1)] m(2) None show ?thesis by auto
  next
    case (Some n)
    with 2 have "resolve_secret zx cfg secrets n m used = Inr (v', t)" by simp
    from resolve_secret_ok [OF this Some] obtain s where "v' = JString s" "injected zx cfg secrets [m] used t [s]" by blast
    with Some show ?thesis by (intro exI [of _ "[s]"]) simp
  qed
next
  case (5 zx cfg secrets v vs used)
  then obtain x t1 xs where x: "inject_secrets zx cfg secrets v used = Inr (x, t1)"
    and xs: "inject_values zx cfg secrets vs t1 = Inr (xs, t)" "vs' = x # xs" by (auto simp: result_simps)
  from "5.IH"(1) [OF x] obtain ss where ss: "injected zx cfg secrets (placeholders v) used t1 ss"
    "\<And>us. fill v (ss @ us) = (x, us)" by blast
  from "5.IH"(2) [OF xs(1)] obtain us where us: "injected zx cfg secrets (value_placeholders vs) t1 t us"
    "\<And>ws. fill_values vs (us @ ws) = (xs, ws)" by blast
  from injected_append [OF ss(1) us(1)] show ?case
    by (intro exI [of _ "ss @ us"]) (simp add: ss(2) us(2) xs(2))
next
  case (7 zx cfg secrets k v kvs used)
  then obtain x t1 xs where x: "inject_secrets zx cfg secrets v used = Inr (x, t1)"
    and xs: "inject_fields zx cfg secrets kvs t1 = Inr (xs, t)" "m' = (k, x) # xs" by (auto simp: result_simps)
  from "7.IH"(1) [OF x] obtain ss where ss: "injected zx cfg secrets (placeholders v) used t1 ss"
    "\<And>us. fill v (ss @ us) = (x, us)" by blast
  from "7.IH"(2) [OF xs(1)] obtain us where us: "injected zx cfg secrets (field_placeholders kvs) t1 t us"
    "\<And>ws. fill_fields kvs (us @ ws) = (xs, ws)" by blast
  from injected_append [OF ss(1) us(1)] show ?case
    by (intro exI [of _ "ss @ us"]) (simp add: ss(2) us(2) xs(2))
qed (auto)

text \<open>
  C36: Injection replaces every placeholder, from left to right, by the text of the secret that it names
  (derived, if it asks for a derivation, and always derived where the operator demands it) and changes
  nothing else. The injected bytes together respect the operator's limit.
\<close>

theorem secrets_injected:
  assumes "inject_secrets zx cfg secrets v 0 = Inr (v', n)"
  shows "\<exists>ds ss. length ds = length (placeholders v)
    \<and> list_all2 (\<lambda>(m, d) s. secret_of zx cfg secrets m d s) (zip (placeholders v) ds) ss
    \<and> fill v ss = (v', []) \<and> n = sum_list (map length ds)
    \<and> (placeholders v \<noteq> [] \<longrightarrow> n \<le> max_total_secrets_bytes cfg)"
proof -
  from inject_spec(1) [OF assms] obtain ss where ss: "injected zx cfg secrets (placeholders v) 0 n ss"
    "\<And>us. fill v (ss @ us) = (v', us)" by blast
  from ss(2) [of "[]"] have "fill v ss = (v', [])" by simp
  with ss(1) show ?thesis by (auto simp: injected_def)
qed

definition sample_keys :: json where
  "sample_keys = JObject [(''a'', JArray [JObject [(''$secret'', JString ''k'')], JBool True])]"

theorem secrets_injected_witness:
  "\<exists>ss. inject_secrets sample_zenroom zenroom_config_default [''k'' \<mapsto> [1, 2]] sample_keys 0
      = Inr (JObject [(''a'', JArray [JString ''b64'', JBool True])], 2)
    \<and> fill sample_keys ss = (JObject [(''a'', JArray [JString ''b64'', JBool True])], [])"
proof -
  have r: "inject_secrets sample_zenroom zenroom_config_default [''k'' \<mapsto> [1, 2]] sample_keys 0
      = Inr (JObject [(''a'', JArray [JString ''b64'', JBool True])], 2)"
    by (simp add: sample_keys_def resolve_secret_def json_get_def encode_secret_def sample_zenroom_def ascii_lower_def)
  from secrets_injected [OF r] show ?thesis unfolding r by (auto simp: sample_keys_def json_get_def)
qed

end
