(* ===== verification/Zenroom_Exec.thy ===== *)
theory Zenroom_Exec
  imports Zenroom_Input
begin

text \<open>
  The Zenroom VM, part two (\<open>src/node/vm/zenroom/src/vmm/mod.rs\<close>): the run of the Zenroom binary and
  the envelope made of its result.

  What the operating system does with the child process is the argument \<open>process_run\<close>: whether it
  starts, whether its input is taken, and the events that the select loop receives, in their order. A
  write to the child's input that never completes is \<open>None\<close>; the code waits for it without a timeout.
\<close>

section \<open>Records\<close>

record error_info =
  ei_code :: string
  ei_message :: string

definition error_info_new :: "string \<Rightarrow> string \<Rightarrow> error_info" where
  "error_info_new c m = \<lparr>ei_code = c, ei_message = m\<rparr>"

record exec_output =
  eo_exit_code :: int
  eo_stdout :: string
  eo_stderr :: string
  eo_stdout_json :: "json option"
  eo_stdout_overflowed :: bool
  eo_stderr_overflowed :: bool

definition exec_output_empty :: exec_output where
  "exec_output_empty = \<lparr>eo_exit_code = -1, eo_stdout = [], eo_stderr = [], eo_stdout_json = None,
     eo_stdout_overflowed = False, eo_stderr_overflowed = False\<rparr>"

datatype output_read = ReadOk bytes | ReadOverflow bytes | ReadErr string

section \<open>Reading with a limit\<close>

text \<open>The reads of a pipe: chunks, an empty chunk at the end, or an error.\<close>

fun read_with_limit :: "nat \<Rightarrow> bytes \<Rightarrow> (string + bytes) list \<Rightarrow> output_read" where
  "read_with_limit m buf [] = ReadOk buf"
| "read_with_limit m buf (Inl e # rs) = ReadErr e"
| "read_with_limit m buf (Inr c # rs) =
    (if c = [] then ReadOk buf
     else if m < length buf + length c then ReadOverflow (buf @ take (m - length buf) c)
     else read_with_limit m (buf @ c) rs)"

fun read_bytes :: "output_read \<Rightarrow> bytes" where
  "read_bytes (ReadOk b) = b"
| "read_bytes (ReadOverflow b) = b"
| "read_bytes (ReadErr _) = []"

lemma read_with_limit_gen:
  "[] \<notin> set cs \<Longrightarrow> length buf \<le> m \<Longrightarrow> read_with_limit m buf (map Inr cs)
    = (if length (buf @ concat cs) \<le> m then ReadOk (buf @ concat cs) else ReadOverflow (take m (buf @ concat cs)))"
proof (induction cs arbitrary: buf)
  case (Cons c cs)
  then show ?case
    by (cases "m < length buf + length c") (auto simp: take_append)
qed simp

section \<open>The input of the binary\<close>

definition exec_input :: "zenroom_ext \<Rightarrow> string \<Rightarrow> string \<Rightarrow> json \<Rightarrow> json \<Rightarrow> json \<Rightarrow> json \<Rightarrow> string" where
  "exec_input zx conf script keys data extra context =
    (let line = (\<lambda>s. zx_b64 zx (str_bytes s) @ [CHR 0x0A]) in
     conf @ [CHR 0x0A] @ line script @ line (zx_to_string zx keys) @ line (zx_to_string zx data)
       @ line (zx_to_string zx extra) @ line (zx_to_string zx context))"

section \<open>The select loop\<close>

record exec_loop =
  el_exit :: "int option option"
  el_stdout :: "output_read option"
  el_stderr :: "output_read option"
  el_timed_out :: bool
  el_overflow :: "error_info option"
  el_error :: "error_info option"
  el_broken :: bool
  el_kills :: nat

datatype exec_event =
    ChildExited "int option"
  | WaitFailed string
  | StdoutRead "(string + bytes) list"
  | StdoutTaskFailed
  | StderrRead "(string + bytes) list"
  | StderrTaskFailed
  | TimeoutElapsed

definition exec_loop_new :: exec_loop where
  "exec_loop_new = \<lparr>el_exit = None, el_stdout = None, el_stderr = None, el_timed_out = False, el_overflow = None,
     el_error = None, el_broken = False, el_kills = 0\<rparr>"

definition exec_done :: "exec_loop \<Rightarrow> bool" where
  "exec_done s \<longleftrightarrow> el_broken s \<or> (el_stdout s \<noteq> None \<and> el_stderr s \<noteq> None \<and> (el_exit s \<noteq> None \<or> el_timed_out s))"

text \<open>The guards of the branches. A reading task delivers the reads it made of its pipe.\<close>

fun exec_enabled :: "exec_loop \<Rightarrow> exec_event \<Rightarrow> bool" where
  "exec_enabled s (ChildExited _) \<longleftrightarrow> el_exit s = None"
| "exec_enabled s (WaitFailed _) \<longleftrightarrow> el_exit s = None"
| "exec_enabled s (StdoutRead _) \<longleftrightarrow> el_stdout s = None"
| "exec_enabled s StdoutTaskFailed \<longleftrightarrow> el_stdout s = None"
| "exec_enabled s (StderrRead _) \<longleftrightarrow> el_stderr s = None"
| "exec_enabled s StderrTaskFailed \<longleftrightarrow> el_stderr s = None"
| "exec_enabled s TimeoutElapsed \<longleftrightarrow> \<not> el_timed_out s"

definition note_overflow :: "string \<Rightarrow> string \<Rightarrow> output_read \<Rightarrow> exec_loop \<Rightarrow> exec_loop" where
  "note_overflow code msg r s =
    (case r of ReadOverflow _ \<Rightarrow>
       if el_overflow s = None then s\<lparr>el_overflow := Some (error_info_new code msg), el_kills := el_kills s + 1\<rparr> else s
     | _ \<Rightarrow> s)"

fun exec_branch :: "nat \<times> nat \<Rightarrow> exec_loop \<Rightarrow> exec_event \<Rightarrow> exec_loop" where
  "exec_branch lim s (ChildExited c) = s\<lparr>el_exit := Some c\<rparr>"
| "exec_branch lim s (WaitFailed e) = s\<lparr>el_error := Some (error_info_new ''exec_failed'' e), el_broken := True\<rparr>"
| "exec_branch lim s (StdoutRead rs) = (let r = read_with_limit (fst lim) [] rs in
    (note_overflow ''stdout_limit_exceeded'' ''stdout exceeded configured limit'' r s)\<lparr>el_stdout := Some r\<rparr>)"
| "exec_branch lim s StdoutTaskFailed = s\<lparr>el_error := Some (error_info_new ''exec_failed'' ''stdout task failed''),
     el_kills := el_kills s + 1, el_stdout := Some (ReadErr ''stdout task failed'')\<rparr>"
| "exec_branch lim s (StderrRead rs) = (let r = read_with_limit (snd lim) [] rs in
    (note_overflow ''stderr_limit_exceeded'' ''stderr exceeded configured limit'' r s)\<lparr>el_stderr := Some r\<rparr>)"
| "exec_branch lim s StderrTaskFailed = s\<lparr>el_error := Some (error_info_new ''exec_failed'' ''stderr task failed''),
     el_kills := el_kills s + 1, el_stderr := Some (ReadErr ''stderr task failed'')\<rparr>"
| "exec_branch lim s TimeoutElapsed = s\<lparr>el_timed_out := True,
     el_error := Some (error_info_new ''timeout'' ''Zenroom execution timed out''), el_kills := el_kills s + 1\<rparr>"

definition exec_step :: "nat \<times> nat \<Rightarrow> exec_loop \<Rightarrow> exec_event \<Rightarrow> exec_loop" where
  "exec_step lim s ev = (if exec_done s \<or> \<not> exec_enabled s ev then s else exec_branch lim s ev)"

text \<open>After the loop.\<close>

definition read_error :: "output_read \<Rightarrow> error_info option \<Rightarrow> error_info option" where
  "read_error r e = (case r of ReadErr m \<Rightarrow> Some (error_info_new ''exec_failed'' m) | _ \<Rightarrow> e)"

definition is_overflow :: "output_read \<Rightarrow> bool" where
  "is_overflow r = (case r of ReadOverflow _ \<Rightarrow> True | _ \<Rightarrow> False)"

definition exec_finish :: "zenroom_ext \<Rightarrow> exec_loop \<Rightarrow> exec_output \<times> error_info option" where
  "exec_finish zx s =
    (let out = unwrap_or (ReadOk []) (el_stdout s); err = unwrap_or (ReadOk []) (el_stderr s);
         e = read_error err (read_error out (el_error s)); text = zx_utf8_lossy zx (read_bytes out)
     in (\<lparr>eo_exit_code = unwrap_or (-1) (unwrap_or None (el_exit s)), eo_stdout = text,
          eo_stderr = zx_utf8_lossy zx (read_bytes err), eo_stdout_json = zx_from_str zx text,
          eo_stdout_overflowed = is_overflow out, eo_stderr_overflowed = is_overflow err\<rparr>,
         if e = None then el_overflow s else e))"

record process_run =
  pr_spawn :: "string + unit"
  pr_stdin :: "(string + unit) option"
  pr_pipes :: "bool \<times> bool"
  pr_events :: "exec_event list"

definition exec_failed :: "string \<Rightarrow> exec_output \<times> error_info option" where
  "exec_failed e = (exec_output_empty, Some (error_info_new ''exec_failed'' e))"

definition execute_zenroom :: "zenroom_ext \<Rightarrow> nat \<times> nat \<Rightarrow> process_run \<Rightarrow> (exec_output \<times> error_info option) option" where
  "execute_zenroom zx lim run =
    (case pr_spawn run of Inl e \<Rightarrow> Some (exec_failed e) | Inr _ \<Rightarrow>
     (case pr_stdin run of None \<Rightarrow> None | Some (Inl e) \<Rightarrow> Some (exec_failed e) | Some (Inr _) \<Rightarrow>
      if \<not> fst (pr_pipes run) then Some (exec_failed ''missing stdout'')
      else if \<not> snd (pr_pipes run) then Some (exec_failed ''missing stderr'')
      else (let s = foldl (exec_step lim) exec_loop_new (pr_events run) in
            if exec_done s then Some (exec_finish zx s) else None)))"

section \<open>The envelope\<close>

record zenroom_result =
  zr_exit_code :: int
  zr_stdout :: string
  zr_stderr :: string
  zr_stdout_json :: "json option"
  zr_stdout_overflowed :: bool
  zr_stderr_overflowed :: bool

definition zenroom_result_empty :: zenroom_result where
  "zenroom_result_empty = \<lparr>zr_exit_code = -1, zr_stdout = [], zr_stderr = [], zr_stdout_json = None,
     zr_stdout_overflowed = False, zr_stderr_overflowed = False\<rparr>"

record postback_result =
  pt_target_index :: nat
  pt_kind :: string
  pt_ok :: bool
  pt_status :: "u16 option"
  pt_duration_ms :: nat
  pt_response_body :: "string option"
  pt_error :: "error_info option"

definition postback_failed :: "nat \<Rightarrow> string \<Rightarrow> nat \<Rightarrow> error_info \<Rightarrow> postback_result" where
  "postback_failed i kind ms e = \<lparr>pt_target_index = i, pt_kind = kind, pt_ok = False, pt_status = None,
     pt_duration_ms = ms, pt_response_body = None, pt_error = Some e\<rparr>"

record invocation_envelope =
  ie_ok :: bool
  ie_error :: "error_info option"
  ie_zenroom :: zenroom_result
  ie_selected_output :: "json option"
  ie_postbacks :: "postback_result list"
  ie_total_ms :: nat

definition envelope_error :: "error_info \<Rightarrow> nat \<Rightarrow> invocation_envelope" where
  "envelope_error e ms = \<lparr>ie_ok = False, ie_error = Some e, ie_zenroom = zenroom_result_empty,
     ie_selected_output = None, ie_postbacks = [], ie_total_ms = ms\<rparr>"

definition build_envelope_from_exec ::
  "zenroom_ext \<Rightarrow> exec_output \<Rightarrow> error_info option \<Rightarrow> nat \<Rightarrow> output_format \<Rightarrow> invocation_envelope" where
  "build_envelope_from_exec zx x e ms f =
    (let ok = (eo_exit_code x = 0 \<and> e = None) in
     \<lparr>ie_ok = ok,
      ie_error = (if e = None \<and> \<not> ok then Some (error_info_new ''zenroom_exit_nonzero''
        (''Zenroom exited with code '' @ zx_show_int zx (eo_exit_code x))) else e),
      ie_zenroom = \<lparr>zr_exit_code = eo_exit_code x, zr_stdout = eo_stdout x, zr_stderr = eo_stderr x,
        zr_stdout_json = (if f = FormatRaw then None else eo_stdout_json x),
        zr_stdout_overflowed = eo_stdout_overflowed x, zr_stderr_overflowed = eo_stderr_overflowed x\<rparr>,
      ie_selected_output = None, ie_postbacks = [], ie_total_ms = ms\<rparr>)"

definition compute_selected_output ::
  "zenroom_ext \<Rightarrow> json option \<Rightarrow> normalized_output \<Rightarrow> bool \<Rightarrow> error_info + json option" where
  "compute_selected_output zx stdout_json out required =
    (case no_json_pointer out of None \<Rightarrow> Inr None | Some p \<Rightarrow>
     (case stdout_json of
        None \<Rightarrow> if required then Inl (error_info_new ''stdout_json_missing'' ''stdout JSON missing for selected_output'')
               else Inr None
      | Some v \<Rightarrow> (case zx_pointer zx v p of
          None \<Rightarrow> if required then Inl (error_info_new ''json_pointer_not_found'' ''json_pointer did not resolve'')
                 else Inr None
        | Some x \<Rightarrow> Inr (Some x))))"

datatype selected_body = BodyJson json | BodyRaw bytes

definition select_postback_body ::
  "zenroom_ext \<Rightarrow> body_selector option \<Rightarrow> zenroom_result \<Rightarrow> json option \<Rightarrow> error_info + selected_body" where
  "select_postback_body zx sel z selected =
    rbind (ok_or (error_info_new ''postback_body_missing'' ''Postback body selector missing'') sel) (\<lambda>sel.
    if bs_from sel = ''stdout'' then
      (case bs_json_pointer sel of
         Some p \<Rightarrow>
           rbind (ok_or (error_info_new ''stdout_json_missing'' ''stdout_json not available'') (zr_stdout_json z)) (\<lambda>v.
           rbind (ok_or (error_info_new ''json_pointer_not_found'' ''json_pointer did not resolve'') (zx_pointer zx v p)) (\<lambda>x.
           Inr (BodyJson x)))
       | None \<Rightarrow> (case zr_stdout_json z of
           Some v \<Rightarrow> Inr (BodyJson v)
         | None \<Rightarrow> Inr (BodyRaw (str_bytes (zr_stdout z)))))
    else if bs_from sel = ''selected_output'' then
      rbind (ok_or (error_info_new ''selected_output_missing'' ''No selected_output'') selected) (\<lambda>x. Inr (BodyJson x))
    else Inl (error_info_new ''unsupported_postback_source'' (''Unsupported postback source '' @ quoted (bs_from sel))))"

section \<open>What the binary reads\<close>

text \<open>
  The binary reads six lines, in the order of its interface: the configuration, the script, the keys,
  the data, the extra data and the context, provided that the configuration has no line break; base64
  text has none.
\<close>

theorem exec_input_lines:
  assumes "CHR 0x0A \<notin> set conf" "\<And>b. CHR 0x0A \<notin> set (zx_b64 zx b)"
  shows "split_char CHR 0x0A (exec_input zx conf script keys data extra context)
    = [conf, zx_b64 zx (str_bytes script), zx_b64 zx (str_bytes (zx_to_string zx keys)),
       zx_b64 zx (str_bytes (zx_to_string zx data)), zx_b64 zx (str_bytes (zx_to_string zx extra)),
       zx_b64 zx (str_bytes (zx_to_string zx context)), []]"
  using assms by (simp add: exec_input_def Let_def split_char_append split_char_none)

theorem exec_input_lines_witness:
  "split_char CHR 0x0A (exec_input sample_zenroom ''debug=0'' ''s'' JNull JNull JNull JNull)
    = [''debug=0'', ''b64'', ''b64'', ''b64'', ''b64'', ''b64'', []]"
  using exec_input_lines [of "''debug=0''" sample_zenroom "''s''" JNull JNull JNull JNull]
  by (simp add: sample_zenroom_def)

section \<open>The loop ends\<close>

text \<open>Each branch that is taken settles one of four things, so four events at most have an effect.\<close>

definition exec_pending :: "exec_loop \<Rightarrow> nat" where
  "exec_pending s = of_bool (el_exit s = None) + of_bool (el_stdout s = None) + of_bool (el_stderr s = None)
     + of_bool (\<not> el_timed_out s)"

definition exec_effective :: "exec_loop \<Rightarrow> exec_event \<Rightarrow> bool" where
  "exec_effective s ev \<longleftrightarrow> \<not> exec_done s \<and> exec_enabled s ev"

fun effective_events :: "nat \<times> nat \<Rightarrow> exec_loop \<Rightarrow> exec_event list \<Rightarrow> exec_event list" where
  "effective_events lim s [] = []"
| "effective_events lim s (ev # evs) =
    (if exec_effective s ev then [ev] else []) @ effective_events lim (exec_step lim s ev) evs"

lemma note_overflow_simps [simp]:
  "el_exit (note_overflow c m r s) = el_exit s" "el_stdout (note_overflow c m r s) = el_stdout s"
  "el_stderr (note_overflow c m r s) = el_stderr s" "el_timed_out (note_overflow c m r s) = el_timed_out s"
  "el_error (note_overflow c m r s) = el_error s" "el_broken (note_overflow c m r s) = el_broken s"
  by (simp_all add: note_overflow_def split: output_read.split)

lemma exec_branch_pending:
  "exec_enabled s ev \<Longrightarrow> el_broken (exec_branch lim s ev) \<or> exec_pending s = Suc (exec_pending (exec_branch lim s ev))"
  by (cases ev) (auto simp: exec_pending_def Let_def)

lemma exec_done_stays [simp]: "exec_done s \<Longrightarrow> foldl (exec_step lim) s evs = s"
  by (induction evs) (simp_all add: exec_step_def)

lemma effective_done: "exec_done s \<Longrightarrow> effective_events lim s evs = []"
  by (induction evs) (simp_all add: exec_effective_def exec_step_def)

lemma effective_bound: "length (effective_events lim s evs) \<le> max 1 (exec_pending s)"
proof (induction evs arbitrary: s)
  case (Cons ev evs)
  show ?case
  proof (cases "exec_effective s ev")
    case True
    let ?s = "exec_branch lim s ev"
    from True have step: "exec_step lim s ev = ?s" by (simp add: exec_effective_def exec_step_def)
    show ?thesis
    proof (cases "exec_done ?s")
      case True
      then show ?thesis by (simp add: step effective_done)
    next
      case False
      then have "\<not> el_broken ?s" "0 < exec_pending ?s" by (auto simp: exec_done_def exec_pending_def)
      with True exec_branch_pending [of s ev lim] Cons [of ?s] show ?thesis by (simp add: step exec_effective_def)
    qed
  next
    case False
    then have "exec_step lim s ev = s" by (simp add: exec_effective_def exec_step_def)
    with False Cons [of s] show ?thesis by simp
  qed
qed simp

text \<open>What an event settles stays settled.\<close>

definition settled :: "exec_loop \<Rightarrow> exec_event \<Rightarrow> bool" where
  "settled s ev \<longleftrightarrow> exec_done s \<or> \<not> exec_enabled s ev"

lemma settled_step: "settled (exec_step lim s ev) ev"
  by (cases "exec_done s") (auto simp: settled_def exec_step_def, cases ev, auto simp: Let_def exec_done_def)

lemma settled_stays: "settled s ev \<Longrightarrow> settled (exec_step lim s ev') ev"
  by (cases "exec_done s"; cases ev; cases ev') (auto simp: settled_def exec_step_def Let_def)

lemma settled_run: "settled s ev \<Longrightarrow> settled (foldl (exec_step lim) s evs) ev"
  by (induction evs arbitrary: s) (simp_all add: settled_stays)

lemma settled_after: "ev \<in> set evs \<Longrightarrow> settled (foldl (exec_step lim) s evs) ev"
  by (induction evs arbitrary: s) (auto simp: settled_step settled_run)


definition sample_process :: process_run where
  "sample_process = \<lparr>pr_spawn = Inr (), pr_stdin = Some (Inr ()), pr_pipes = (True, True),
     pr_events = [StdoutRead [Inr [123, 125], Inr []], ChildExited (Some 0), StderrRead [], TimeoutElapsed]\<rparr>"


section \<open>A run without an error\<close>

lemma read_ok_bound: "read_with_limit m buf rs = ReadOk b \<Longrightarrow> length buf \<le> m \<Longrightarrow> length b \<le> m"
  by (induction m buf rs rule: read_with_limit.induct) (auto split: if_splits)

text \<open>The invariant of the loop over the events received so far.\<close>

definition exec_inv :: "nat \<times> nat \<Rightarrow> exec_event set \<Rightarrow> exec_loop \<Rightarrow> bool" where
  "exec_inv lim E s \<longleftrightarrow>
     (el_error s = None \<longrightarrow> \<not> el_timed_out s \<and> \<not> el_broken s)
   \<and> (\<forall>c. el_exit s = Some c \<longrightarrow> ChildExited c \<in> E)
   \<and> (\<forall>r. el_stdout s = Some r \<and> el_error s = None \<longrightarrow>
        (\<exists>rs. StdoutRead rs \<in> E \<and> r = read_with_limit (fst lim) [] rs) \<and> (is_overflow r \<longrightarrow> el_overflow s \<noteq> None))
   \<and> (\<forall>r. el_stderr s = Some r \<and> el_error s = None \<longrightarrow>
        (\<exists>rs. StderrRead rs \<in> E \<and> r = read_with_limit (snd lim) [] rs) \<and> (is_overflow r \<longrightarrow> el_overflow s \<noteq> None))"

lemma exec_invI:
  assumes "el_error s = None \<Longrightarrow> \<not> el_timed_out s \<and> \<not> el_broken s" "\<And>c. el_exit s = Some c \<Longrightarrow> ChildExited c \<in> E"
    "\<And>r. el_stdout s = Some r \<Longrightarrow> el_error s = None \<Longrightarrow>
        (\<exists>rs. StdoutRead rs \<in> E \<and> r = read_with_limit (fst lim) [] rs) \<and> (is_overflow r \<longrightarrow> el_overflow s \<noteq> None)"
    "\<And>r. el_stderr s = Some r \<Longrightarrow> el_error s = None \<Longrightarrow>
        (\<exists>rs. StderrRead rs \<in> E \<and> r = read_with_limit (snd lim) [] rs) \<and> (is_overflow r \<longrightarrow> el_overflow s \<noteq> None)"
  shows "exec_inv lim E s"
  using assms unfolding exec_inv_def by blast

lemma note_overflow_keeps: "el_overflow s \<noteq> None \<Longrightarrow> el_overflow (note_overflow c m r s) \<noteq> None"
  by (simp add: note_overflow_def split: output_read.split)

lemma note_overflow_notes: "is_overflow r \<Longrightarrow> el_overflow (note_overflow c m r s) \<noteq> None"
  by (simp add: note_overflow_def is_overflow_def split: output_read.splits)

lemma exec_inv_mono: "exec_inv lim E s \<Longrightarrow> E \<subseteq> E' \<Longrightarrow> exec_inv lim E' s"
  unfolding exec_inv_def by blast

lemma exec_branch_inv: "exec_inv lim E s \<Longrightarrow> exec_inv lim (insert ev E) (exec_branch lim s ev)"
proof (cases ev)
  case (StdoutRead rs)
  assume "exec_inv lim E s"
  then show ?thesis unfolding StdoutRead exec_inv_def
    using note_overflow_keeps note_overflow_notes by (auto simp: Let_def)
next
  case (StderrRead rs)
  assume "exec_inv lim E s"
  then show ?thesis unfolding StderrRead exec_inv_def
    using note_overflow_keeps note_overflow_notes by (auto simp: Let_def)
qed (auto simp: exec_inv_def)

lemma exec_run_inv: "exec_inv lim E s \<Longrightarrow> exec_inv lim (E \<union> set evs) (foldl (exec_step lim) s evs)"
proof (induction evs arbitrary: E s)
  case (Cons ev evs)
  have "exec_inv lim (insert ev E) (exec_step lim s ev)"
    using exec_branch_inv [OF Cons.prems] exec_inv_mono [OF Cons.prems subset_insertI] by (simp add: exec_step_def)
  from Cons.IH [OF this] show ?case by simp
qed simp

lemma exec_finish_ok:
  assumes "exec_finish zx s = (out, None)"
  shows "el_error s = None" "el_overflow s = None"
    "\<And>m. unwrap_or (ReadOk []) (el_stdout s) \<noteq> ReadErr m" "\<And>m. unwrap_or (ReadOk []) (el_stderr s) \<noteq> ReadErr m"
  using assms by (auto simp: exec_finish_def Let_def read_error_def split: if_splits output_read.splits)

text \<open>
  A run without an error is what it seems: the child has exited by itself, with the code reported, and
  both outputs were read to their ends, without a byte missing and within the operator's limits.
\<close>

theorem exec_success_sound:
  assumes "execute_zenroom zx lim run = Some (out, None)"
  shows "\<exists>c rs rs' b b'. ChildExited c \<in> set (pr_events run) \<and> eo_exit_code out = unwrap_or (-1) c
    \<and> StdoutRead rs \<in> set (pr_events run) \<and> read_with_limit (fst lim) [] rs = ReadOk b \<and> length b \<le> fst lim
    \<and> eo_stdout out = zx_utf8_lossy zx b \<and> eo_stdout_json out = zx_from_str zx (zx_utf8_lossy zx b)
    \<and> StderrRead rs' \<in> set (pr_events run) \<and> read_with_limit (snd lim) [] rs' = ReadOk b' \<and> length b' \<le> snd lim
    \<and> eo_stderr out = zx_utf8_lossy zx b' \<and> \<not> eo_stdout_overflowed out \<and> \<not> eo_stderr_overflowed out"
proof -
  let ?s = "foldl (exec_step lim) exec_loop_new (pr_events run)"
  from assms have d: "exec_done ?s" and f: "exec_finish zx ?s = (out, None)"
    by (auto simp: execute_zenroom_def exec_failed_def Let_def split: sum.splits option.splits if_splits)
  have i: "exec_inv lim (set (pr_events run)) ?s"
    using exec_run_inv [of lim "{}" exec_loop_new "pr_events run"] by (simp add: exec_inv_def exec_loop_new_def)
  note ok = exec_finish_ok [OF f]
  from i d ok(1) obtain c r r' where s: "el_exit ?s = Some c" "el_stdout ?s = Some r" "el_stderr ?s = Some r'"
    by (auto simp: exec_inv_def exec_done_def)
  from i s ok(1,2) obtain rs rs' where rs: "StdoutRead rs \<in> set (pr_events run)" "r = read_with_limit (fst lim) [] rs"
      "StderrRead rs' \<in> set (pr_events run)" "r' = read_with_limit (snd lim) [] rs'"
    and no: "\<not> is_overflow r" "\<not> is_overflow r'" and c: "ChildExited c \<in> set (pr_events run)"
    unfolding exec_inv_def by blast
  from no(1) ok(3) s obtain b where b: "r = ReadOk b" by (cases r) (auto simp: is_overflow_def)
  from no(2) ok(4) s obtain b' where b': "r' = ReadOk b'" by (cases r') (auto simp: is_overflow_def)
  have "length b \<le> fst lim" "length b' \<le> snd lim" using read_ok_bound rs(2,4) b b' by (metis le0 list.size(3))+
  moreover from f have "eo_exit_code out = unwrap_or (-1) c" "eo_stdout out = zx_utf8_lossy zx b"
    "eo_stdout_json out = zx_from_str zx (zx_utf8_lossy zx b)" "eo_stderr out = zx_utf8_lossy zx b'"
    "\<not> eo_stdout_overflowed out" "\<not> eo_stderr_overflowed out"
    unfolding exec_finish_def Let_def s b b' is_overflow_def by auto
  ultimately show ?thesis using rs c b b' by metis
qed

theorem exec_success_sound_witness:
  "\<exists>out b. execute_zenroom sample_zenroom (8, 8) sample_process = Some (out, None) \<and> length b \<le> 8
    \<and> eo_stdout out = zx_utf8_lossy sample_zenroom b"
proof -
  have "\<exists>out. execute_zenroom sample_zenroom (8, 8) sample_process = Some (out, None)"
    by (simp add: execute_zenroom_def sample_process_def exec_step_def exec_loop_new_def exec_done_def note_overflow_def
        exec_finish_def read_error_def Let_def)
  then obtain out where out: "execute_zenroom sample_zenroom (8, 8) sample_process = Some (out, None)" by blast
  from exec_success_sound [OF this] out show ?thesis by auto
qed

end
