(* ===== verification/Zenroom_Postback.thy ===== *)
theory Zenroom_Postback
  imports Zenroom_Exec
begin

unbundle bit_operations_syntax

text \<open>
  The Zenroom VM, part three (\<open>src/node/vm/zenroom/src/vmm/mod.rs\<close>): the requests that a worker may
  have sent after its run, the operator's rules for their destinations and their retries.

  The URL parser, the resolver, the HTTP client and the clock are fields of \<open>postback_ext\<close>. An IPv4
  address is its 32-bit number, an IPv6 address its 128-bit number.
\<close>

section \<open>Public addresses\<close>

datatype ip_addr = IpV4 u32 | IpV6 "128 word"

definition ipv4_new :: "nat \<Rightarrow> nat \<Rightarrow> nat \<Rightarrow> nat \<Rightarrow> u32" where
  "ipv4_new a b c d = word_of_nat (((a * 256 + b) * 256 + c) * 256 + d)"

definition ipv4_in_range :: "u32 \<Rightarrow> u32 \<Rightarrow> nat \<Rightarrow> bool" where
  "ipv4_in_range ip base prefix \<longleftrightarrow> prefix = 0 \<or>
     (let mask = push_bit (32 - prefix) (- 1) in ip AND mask = base AND mask)"

definition private_ranges :: "(u32 \<times> nat) list" where
  "private_ranges =
    [(ipv4_new 0 0 0 0, 8), (ipv4_new 10 0 0 0, 8), (ipv4_new 100 64 0 0, 10), (ipv4_new 127 0 0 0, 8),
     (ipv4_new 169 254 0 0, 16), (ipv4_new 172 16 0 0, 12), (ipv4_new 192 0 0 0, 24), (ipv4_new 192 0 2 0, 24),
     (ipv4_new 192 88 99 0, 24), (ipv4_new 192 168 0 0, 16), (ipv4_new 198 18 0 0, 15), (ipv4_new 198 51 100 0, 24),
     (ipv4_new 203 0 113 0, 24), (ipv4_new 224 0 0 0, 4), (ipv4_new 240 0 0 0, 4), (ipv4_new 255 255 255 255, 32)]"

definition is_public_ipv4 :: "u32 \<Rightarrow> bool" where
  "is_public_ipv4 ip \<longleftrightarrow> \<not> (\<exists>(base, prefix) \<in> set private_ranges. ipv4_in_range ip base prefix)"

text \<open>The predicates of \<open>std::net::Ipv6Addr\<close> on the number of an address.\<close>

definition first_segment :: "128 word \<Rightarrow> u16" where
  "first_segment a = ucast (drop_bit 112 a)"

definition ipv6_to_ipv4 :: "128 word \<Rightarrow> u32 option" where
  "ipv6_to_ipv4 a = (if drop_bit 32 a = 0 \<or> drop_bit 32 a = 0xFFFF then Some (ucast a) else None)"

definition ipv6_to_ipv4_mapped :: "128 word \<Rightarrow> u32 option" where
  "ipv6_to_ipv4_mapped a = (if drop_bit 32 a = 0xFFFF then Some (ucast a) else None)"

definition is_documentation_ipv6 :: "128 word \<Rightarrow> bool" where
  "is_documentation_ipv6 a \<longleftrightarrow> drop_bit 96 a = 0x20010DB8"

definition is_public_ipv6 :: "128 word \<Rightarrow> bool" where
  "is_public_ipv6 a =
    (case (case ipv6_to_ipv4_mapped a of Some v \<Rightarrow> Some v | None \<Rightarrow> ipv6_to_ipv4 a) of
       Some v4 \<Rightarrow> is_public_ipv4 v4
     | None \<Rightarrow> \<not> (a = 1 \<or> a = 0 \<or> drop_bit 8 (first_segment a) = 0xFF
         \<or> first_segment a AND 0xFE00 = 0xFC00 \<or> first_segment a AND 0xFFC0 = 0xFE80 \<or> is_documentation_ipv6 a))"

fun is_public_ip :: "ip_addr \<Rightarrow> bool" where
  "is_public_ip (IpV4 a) = is_public_ipv4 a"
| "is_public_ip (IpV6 a) = is_public_ipv6 a"

section \<open>Rules for destinations\<close>

record postback_url =
  url_scheme :: string
  url_port :: "u16 option"
  url_host :: "string option"
  url_text :: string

record postback_call =
  pc_method :: string
  pc_url :: postback_url
  pc_headers :: "(string \<times> string) list"
  pc_body :: selected_body

record 'w postback_ext =
  zp_zenroom :: zenroom_ext
  zp_url_parse :: "string \<Rightarrow> string + postback_url"
  zp_parse_ip :: "string \<Rightarrow> ip_addr option"
  zp_lookup :: "string \<Rightarrow> u16 \<Rightarrow> ('w, string, ip_addr list) call"
  zp_send :: "postback_call \<Rightarrow> ('w, string, u16 \<times> bytes) call"
  zp_method :: "string \<Rightarrow> string option"
  zp_sleep :: "u64 \<Rightarrow> 'w \<Rightarrow> 'w"
  zp_millis :: "'w \<Rightarrow> nat"
  zp_ip_text :: "ip_addr \<Rightarrow> string"

definition resolve_host_ips :: "'w postback_ext \<Rightarrow> string \<Rightarrow> u16 \<Rightarrow> ('w, error_info, ip_addr list) call" where
  "resolve_host_ips zp host port = (case zp_parse_ip zp host of
      Some ip \<Rightarrow> io_ok [ip]
    | None \<Rightarrow> io_map_err (error_info_new ''postback_dns_failed'') (zp_lookup zp host port))"

definition eq_ignore_case :: "string \<Rightarrow> string \<Rightarrow> bool" where
  "eq_ignore_case a b \<longleftrightarrow> map ascii_lower a = map ascii_lower b"

definition host_allowed :: "zenroom_config \<Rightarrow> string \<Rightarrow> bool" where
  "host_allowed cfg host \<longleftrightarrow> (\<exists>suffix \<in> set (postback_allowed_host_suffixes cfg).
     eq_ignore_case host suffix \<or> ends_with (CHR ''.'' # map ascii_lower suffix) (map ascii_lower host))"

definition check_ips :: "'w postback_ext \<Rightarrow> ip_addr list \<Rightarrow> error_info + unit" where
  "check_ips zp ips = (case filter (\<lambda>ip. \<not> is_public_ip ip) ips of
      [] \<Rightarrow> Inr ()
    | ip # _ \<Rightarrow> Inl (error_info_new ''postback_ip_denied'' (''IP '' @ zp_ip_text zp ip @ '' is not globally routable'')))"

definition validate_postback_url ::
  "'w postback_ext \<Rightarrow> zenroom_config \<Rightarrow> postback_url \<Rightarrow> ('w, error_info, unit) call" where
  "validate_postback_url zp cfg url =
    (if \<not> (\<exists>s \<in> set (postback_allowed_schemes cfg). eq_ignore_case s (url_scheme url))
     then io_fail (error_info_new ''postback_scheme_denied'' (''Scheme '' @ quoted (url_scheme url) @ '' not allowed'')) else
     io_bind (io_of (ok_or (error_info_new ''postback_port_missing'' ''Missing URL port'') (url_port url))) (\<lambda>port.
     if port \<notin> set (postback_allowed_ports cfg)
     then io_fail (error_info_new ''postback_port_denied''
       (''Port '' @ zx_show_nat (zp_zenroom zp) (unat port) @ '' not allowed'')) else
     io_bind (io_of (ok_or (error_info_new ''postback_host_missing'' ''Missing URL host'') (url_host url))) (\<lambda>host.
     if postback_allowed_host_suffixes cfg = []
     then io_fail (error_info_new ''postback_host_denied'' ''No allowed postback host suffixes configured'') else
     if \<not> host_allowed cfg host
     then io_fail (error_info_new ''postback_host_denied'' (''Host '' @ quoted host @ '' not in allowlist'')) else
     if postback_block_private_ips cfg
     then io_bind (resolve_host_ips zp host port) (\<lambda>ips. io_of (check_ips zp ips)) else io_ok ())))"

section \<open>Sending with retries\<close>

definition truncate_bytes :: "zenroom_ext \<Rightarrow> bytes \<Rightarrow> nat \<Rightarrow> string option" where
  "truncate_bytes zx b m = (if b = [] then None else Some (zx_utf8_lossy zx (if m < length b then take m b else b)))"

definition is_success :: "u16 \<Rightarrow> bool" where
  "is_success s \<longleftrightarrow> 200 \<le> s \<and> s < 300"

text \<open>How often the loop sends at most; the count saturates.\<close>

definition max_attempts :: "u32 \<Rightarrow> nat" where
  "max_attempts retries = min (unat retries + 1) (2 ^ 32 - 1)"

definition postback_answered ::
  "'w postback_ext \<Rightarrow> nat \<Rightarrow> string \<Rightarrow> nat \<Rightarrow> u16 \<times> bytes \<Rightarrow> 'w \<Rightarrow> postback_result" where
  "postback_answered zp i kind start resp w = \<lparr>pt_target_index = i, pt_kind = kind, pt_ok = is_success (fst resp),
     pt_status = Some (fst resp), pt_duration_ms = zp_millis zp w - start,
     pt_response_body = truncate_bytes (zp_zenroom zp) (snd resp) 512, pt_error = None\<rparr>"

fun send_attempts ::
  "'w postback_ext \<Rightarrow> nat \<Rightarrow> string \<Rightarrow> nat \<Rightarrow> postback_call \<Rightarrow> u64 \<Rightarrow> nat \<Rightarrow> 'w \<Rightarrow> postback_result \<times> 'w" where
  "send_attempts zp i kind start c backoff 0 w = (case zp_send zp c w of
      (Inr resp, w') \<Rightarrow> (postback_answered zp i kind start resp w', w')
    | (Inl e, w') \<Rightarrow> (postback_failed i kind (zp_millis zp w' - start) (error_info_new ''postback_failed'' e), w'))"
| "send_attempts zp i kind start c backoff (Suc n) w = (case zp_send zp c w of
      (Inr resp, w') \<Rightarrow> (postback_answered zp i kind start resp w', w')
    | (Inl e, w') \<Rightarrow> send_attempts zp i kind start c backoff n (zp_sleep zp backoff w'))"

definition refuse :: "'w postback_ext \<Rightarrow> nat \<Rightarrow> string \<Rightarrow> nat \<Rightarrow> error_info \<Rightarrow> 'w \<Rightarrow> postback_result \<times> 'w" where
  "refuse zp i kind start e w = (postback_failed i kind (zp_millis zp w - start) e, w)"

text \<open>The common part of the two kinds: parse the URL, check it, make the request, send it.\<close>

definition checked_send ::
  "'w postback_ext \<Rightarrow> zenroom_config \<Rightarrow> postback_config \<Rightarrow> nat \<Rightarrow> string \<Rightarrow> string
     \<Rightarrow> (postback_url \<Rightarrow> error_info + postback_call) \<Rightarrow> 'w \<Rightarrow> postback_result \<times> 'w" where
  "checked_send zp cfg pb i kind url request w =
    (let start = zp_millis zp w in
     case zp_url_parse zp url of
       Inl e \<Rightarrow> refuse zp i kind start (error_info_new ''invalid_url'' e) w
     | Inr u \<Rightarrow> (case validate_postback_url zp cfg u w of
         (Inl e, w') \<Rightarrow> refuse zp i kind start e w'
       | (Inr _, w') \<Rightarrow> (case request u of
           Inl e \<Rightarrow> refuse zp i kind start e w'
         | Inr c \<Rightarrow> send_attempts zp i kind start c (pb_backoff_ms pb) (max_attempts (pb_max_retries pb) - 1) w')))"

definition http_request ::
  "'w postback_ext \<Rightarrow> http_target \<Rightarrow> zenroom_result \<Rightarrow> json option \<Rightarrow> postback_url \<Rightarrow> error_info + postback_call" where
  "http_request zp t z sel u =
    rbind (select_postback_body (zp_zenroom zp) (ht_body t) z sel) (\<lambda>b.
    Inr \<lparr>pc_method = unwrap_or ''POST'' (zp_method zp (unwrap_or ''POST'' (ht_method t))), pc_url = u,
         pc_headers = unwrap_or [] (ht_headers t), pc_body = b\<rparr>)"

definition execute_http_postback ::
  "'w postback_ext \<Rightarrow> zenroom_config \<Rightarrow> postback_config \<Rightarrow> nat \<Rightarrow> http_target \<Rightarrow> zenroom_result \<Rightarrow> json option
     \<Rightarrow> 'w \<Rightarrow> postback_result \<times> 'w" where
  "execute_http_postback zp cfg pb i t z sel = checked_send zp cfg pb i ''http'' (ht_url t) (http_request zp t z sel)"

definition param_json :: "zenroom_ext \<Rightarrow> selected_body \<Rightarrow> json" where
  "param_json zx b = (case b of BodyJson v \<Rightarrow> v | BodyRaw bs \<Rightarrow> JString (zx_utf8_lossy zx bs))"

definition evm_request ::
  "'w postback_ext \<Rightarrow> evm_target \<Rightarrow> zenroom_result \<Rightarrow> json option \<Rightarrow> postback_url \<Rightarrow> error_info + postback_call" where
  "evm_request zp t z sel u =
    rbind (collect (\<lambda>p. select_postback_body (zp_zenroom zp) (Some p) z sel) (et_params t)) (\<lambda>bs.
    Inr \<lparr>pc_method = ''POST'', pc_url = u, pc_headers = [],
         pc_body = BodyJson (json_object [(''jsonrpc'', JString ''2.0''), (''id'', JNumber (PosInt 1)),
           (''method'', JString (et_method t)), (''params'', JArray (map (param_json (zp_zenroom zp)) bs))])\<rparr>)"

definition execute_evm_postback ::
  "'w postback_ext \<Rightarrow> zenroom_config \<Rightarrow> postback_config \<Rightarrow> nat \<Rightarrow> evm_target \<Rightarrow> zenroom_result \<Rightarrow> json option
     \<Rightarrow> 'w \<Rightarrow> postback_result \<times> 'w" where
  "execute_evm_postback zp cfg pb i t z sel =
    checked_send zp cfg pb i ''evm_jsonrpc'' (et_url t) (evm_request zp t z sel)"

definition execute_postback ::
  "'w postback_ext \<Rightarrow> zenroom_config \<Rightarrow> postback_config \<Rightarrow> nat \<Rightarrow> postback_target \<Rightarrow> zenroom_result \<Rightarrow> json option
     \<Rightarrow> 'w \<Rightarrow> postback_result \<times> 'w" where
  "execute_postback zp cfg pb i t z sel = (case t of
      HttpTarget h \<Rightarrow> execute_http_postback zp cfg pb i h z sel
    | EvmJsonRpc e \<Rightarrow> execute_evm_postback zp cfg pb i e z sel)"

fun postback_loop ::
  "'w postback_ext \<Rightarrow> zenroom_config \<Rightarrow> postback_config \<Rightarrow> zenroom_result \<Rightarrow> json option \<Rightarrow> nat \<Rightarrow> postback_target list
     \<Rightarrow> 'w \<Rightarrow> postback_result list \<times> 'w" where
  "postback_loop zp cfg pb z sel i [] w = ([], w)"
| "postback_loop zp cfg pb z sel i (t # ts) w =
    (case execute_postback zp cfg pb i t z sel w of (r, w') \<Rightarrow>
     case postback_loop zp cfg pb z sel (i + 1) ts w' of (rs, w'') \<Rightarrow> (r # rs, w''))"

definition run_postbacks ::
  "'w postback_ext \<Rightarrow> zenroom_config \<Rightarrow> postback_config \<Rightarrow> zenroom_result \<Rightarrow> json option
     \<Rightarrow> ('w, error_info, postback_result list) call" where
  "run_postbacks zp cfg pb z sel w =
    (if \<not> postback_enabled cfg
     then (Inl (error_info_new ''postback_disabled'' ''Postback is disabled by operator configuration''), w)
     else if pb_targets pb = [] then
       if pb_required pb
       then (Inl (error_info_new ''postback_required_missing'' ''Postback required but no targets configured''), w)
       else (Inr [], w)
     else case postback_loop zp cfg pb z sel 0 (pb_targets pb) w of (rs, w') \<Rightarrow> (Inr rs, w'))"

section \<open>The public addresses\<close>

lemma mask_eq_drop_bit:
  "a AND NOT (mask k) = b AND NOT (mask k) \<longleftrightarrow> drop_bit k a = drop_bit k b" for a b :: "'a :: len word"
proof
  assume l: "a AND NOT (mask k) = b AND NOT (mask k)"
  show "drop_bit k a = drop_bit k b"
  proof (rule bit_word_eqI)
    fix n
    from arg_cong [OF l, of "\<lambda>x. bit x (k + n)"] show "bit (drop_bit k a) n = bit (drop_bit k b) n"
      using bit_imp_le_length [of a "k + n"] bit_imp_le_length [of b "k + n"] by (auto simp: bit_simps)
  qed
next
  assume r: "drop_bit k a = drop_bit k b"
  have "bit a n = bit b n" if "k \<le> n" for n
    using arg_cong [OF r, of "\<lambda>x. bit x (n - k)"] that by (simp add: bit_simps)
  then show "a AND NOT (mask k) = b AND NOT (mask k)"
    by (intro bit_word_eqI) (auto simp: bit_simps)
qed

lemma ipv4_in_range_div:
  assumes "0 < p"
  shows "ipv4_in_range ip base p \<longleftrightarrow> unat ip div 2 ^ (32 - p) = unat base div 2 ^ (32 - p)"
proof -
  have "ipv4_in_range ip base p \<longleftrightarrow> drop_bit (32 - p) ip = drop_bit (32 - p) base"
    using assms mask_eq_drop_bit [of ip "32 - p" base] by (simp add: ipv4_in_range_def Let_def)
  moreover have "unat (drop_bit k x) = unat x div 2 ^ k" for k and x :: u32
    by (simp add: unat_drop_bit_eq drop_bit_eq_div [where 'a = nat])
  ultimately show ?thesis by (simp only: word_unat_eq_iff)
qed

definition octets :: "nat \<Rightarrow> nat \<Rightarrow> nat \<Rightarrow> nat \<Rightarrow> bool" where
  "octets a b c d \<longleftrightarrow> a < 256 \<and> b < 256 \<and> c < 256 \<and> d < 256"

lemma unat_ipv4_new: "octets a b c d \<Longrightarrow> unat (ipv4_new a b c d) = a * 16777216 + b * 65536 + c * 256 + d"
  unfolding octets_def ipv4_new_def unat_of_nat by (simp del: of_nat_add of_nat_mult)

lemma prefix_div:
  assumes "octets a b c d"
  shows "(a * 16777216 + b * 65536 + c * 256 + d) div 268435456 = a div 16"
    "(a * 16777216 + b * 65536 + c * 256 + d) div 16777216 = a"
    "(a * 16777216 + b * 65536 + c * 256 + d) div 4194304 = a * 4 + b div 64"
    "(a * 16777216 + b * 65536 + c * 256 + d) div 1048576 = a * 16 + b div 16"
    "(a * 16777216 + b * 65536 + c * 256 + d) div 131072 = a * 128 + b div 2"
    "(a * 16777216 + b * 65536 + c * 256 + d) div 65536 = a * 256 + b"
    "(a * 16777216 + b * 65536 + c * 256 + d) div 256 = a * 65536 + b * 256 + c"
  using assms unfolding octets_def by linarith+

lemma div_eq_bounds: "0 < k \<Longrightarrow> x div k = y \<longleftrightarrow> k * y \<le> x \<and> x < k * Suc y" for x k y :: nat
  using dividend_less_times_div [of k x] by (auto simp: mult.commute intro!: div_nat_eqI)

lemma radix_eq:
  fixes a :: nat
  assumes "b < k" "y < k"
  shows "a * k + b = x * k + y \<longleftrightarrow> a = x \<and> b = y"
proof
  assume "a * k + b = x * k + y"
  then have "(a * k + b) div k = (x * k + y) div k" "(a * k + b) mod k = (x * k + y) mod k" by simp_all
  with assms show "a = x \<and> b = y" by simp
qed simp

text \<open>
  The filter on IPv4 addresses is the table of special-purpose blocks: an address is public unless it is
  in one of the following, in terms of its four octets.
\<close>

theorem public_ipv4_exact:
  assumes "octets a b c d"
  shows "is_public_ipv4 (ipv4_new a b c d) \<longleftrightarrow> \<not>
    (a = 0 \<or> a = 10 \<or> (a = 100 \<and> 64 \<le> b \<and> b < 128) \<or> a = 127 \<or> (a = 169 \<and> b = 254) \<or> (a = 172 \<and> 16 \<le> b \<and> b < 32)
     \<or> (a = 192 \<and> b = 0 \<and> c = 0) \<or> (a = 192 \<and> b = 0 \<and> c = 2) \<or> (a = 192 \<and> b = 88 \<and> c = 99) \<or> (a = 192 \<and> b = 168)
     \<or> (a = 198 \<and> (b = 18 \<or> b = 19)) \<or> (a = 198 \<and> b = 51 \<and> c = 100) \<or> (a = 203 \<and> b = 0 \<and> c = 113) \<or> 224 \<le> a)"
proof -
  have lt: "a < 256" "b < 256" "c < 256" "d < 256" using assms by (auto simp: octets_def)
  have base: "unat (ipv4_new a' b' c' d') = a' * 16777216 + b' * 65536 + c' * 256 + d'"
    if "octets a' b' c' d'" for a' b' c' d' using that by (rule unat_ipv4_new)
  have two: "a * 256 + b = x * 256 + y \<longleftrightarrow> a = x \<and> b = y" if "y < 256" for x y
    using radix_eq [OF lt(2) that] .
  have three: "a * 65536 + b * 256 + c = x * 65536 + y * 256 + z \<longleftrightarrow> a = x \<and> b = y \<and> c = z"
    if "y < 256" "z < 256" for x y z
    using radix_eq [OF lt(3) that(2), of "a * 256 + b" "x * 256 + y"] two [OF that(1), of x] by (simp add: algebra_simps)
  have b: "b div 64 < 4" "b div 16 < 16" "b div 2 < 128" using lt(2) by linarith+
  have bits: "a * 4 + b div 64 = 401 \<longleftrightarrow> a = 100 \<and> b div 64 = 1"
    "a * 16 + b div 16 = 2753 \<longleftrightarrow> a = 172 \<and> b div 16 = 1"
    "a * 128 + b div 2 = 25353 \<longleftrightarrow> a = 198 \<and> b div 2 = 9"
    using radix_eq [OF b(1), of 1 a 100] radix_eq [OF b(2), of 1 a 172] radix_eq [OF b(3), of 9 a 198] by simp_all
  have divs: "b div 64 = 1 \<longleftrightarrow> 64 \<le> b \<and> b < 128" "b div 16 = 1 \<longleftrightarrow> 16 \<le> b \<and> b < 32"
    "b div 2 = 9 \<longleftrightarrow> b = 18 \<or> b = 19" by (auto simp: div_eq_bounds)
  have top: "a div 16 = 14 \<or> a div 16 = 15 \<longleftrightarrow> 224 \<le> a"
    using lt(1) by (auto simp: div_eq_bounds)
  have last: "(224 \<le> a \<or> a * 16777216 + b * 65536 + c * 256 + d = 4294967295) \<longleftrightarrow> 224 \<le> a" using lt by linarith
  have "is_public_ipv4 (ipv4_new a b c d) \<longleftrightarrow> \<not>
    (a = 0 \<or> a = 10 \<or> a * 4 + b div 64 = 401 \<or> a = 127 \<or> a * 256 + b = 169 * 256 + 254 \<or> a * 16 + b div 16 = 2753
     \<or> a * 65536 + b * 256 + c = 192 * 65536 + 0 * 256 + 0 \<or> a * 65536 + b * 256 + c = 192 * 65536 + 0 * 256 + 2
     \<or> a * 65536 + b * 256 + c = 192 * 65536 + 88 * 256 + 99 \<or> a * 256 + b = 192 * 256 + 168
     \<or> a * 128 + b div 2 = 25353 \<or> a * 65536 + b * 256 + c = 198 * 65536 + 51 * 256 + 100
     \<or> a * 65536 + b * 256 + c = 203 * 65536 + 0 * 256 + 113 \<or> (a div 16 = 14 \<or> a div 16 = 15)
     \<or> a * 16777216 + b * 65536 + c * 256 + d = 4294967295)"
    unfolding is_public_ipv4_def private_ranges_def
    by (simp add: ipv4_in_range_div base [OF assms] base octets_def prefix_div [OF assms])
  then have "is_public_ipv4 (ipv4_new a b c d) \<longleftrightarrow> \<not>
    (a = 0 \<or> a = 10 \<or> (a = 100 \<and> 64 \<le> b \<and> b < 128) \<or> a = 127 \<or> (a = 169 \<and> b = 254) \<or> (a = 172 \<and> 16 \<le> b \<and> b < 32)
     \<or> (a = 192 \<and> b = 0 \<and> c = 0) \<or> (a = 192 \<and> b = 0 \<and> c = 2) \<or> (a = 192 \<and> b = 88 \<and> c = 99) \<or> (a = 192 \<and> b = 168)
     \<or> (a = 198 \<and> (b = 18 \<or> b = 19)) \<or> (a = 198 \<and> b = 51 \<and> c = 100) \<or> (a = 203 \<and> b = 0 \<and> c = 113) \<or> 224 \<le> a
     \<or> a * 16777216 + b * 65536 + c * 256 + d = 4294967295)"
    by (simp only: bits divs top two three rel_simps)
  then show ?thesis unfolding last .
qed

theorem public_ipv4_exact_witness:
  "is_public_ipv4 (ipv4_new 8 8 8 8) \<and> \<not> is_public_ipv4 (ipv4_new 169 254 169 254)"
  using public_ipv4_exact [of 8 8 8 8] public_ipv4_exact [of 169 254 169 254] by (simp add: octets_def)

section \<open>Destinations\<close>

definition destination_ok :: "'w postback_ext \<Rightarrow> zenroom_config \<Rightarrow> postback_url \<Rightarrow> 'w \<Rightarrow> bool" where
  "destination_ok zp cfg u w \<longleftrightarrow>
     (\<exists>s \<in> set (postback_allowed_schemes cfg). eq_ignore_case s (url_scheme u))
   \<and> (\<exists>port host. url_port u = Some port \<and> port \<in> set (postback_allowed_ports cfg)
        \<and> url_host u = Some host \<and> host_allowed cfg host
        \<and> (postback_block_private_ips cfg \<longrightarrow>
             (\<exists>ips w'. resolve_host_ips zp host port w = (Inr ips, w') \<and> (\<forall>ip \<in> set ips. is_public_ip ip))))"

lemma check_ips_ok_iff: "check_ips zp ips = Inr () \<longleftrightarrow> (\<forall>ip \<in> set ips. is_public_ip ip)"
proof -
  have "check_ips zp ips = Inr () \<longleftrightarrow> filter (\<lambda>ip. \<not> is_public_ip ip) ips = []"
    by (simp add: check_ips_def split: list.split)
  then show ?thesis by (simp add: filter_empty_conv)
qed

lemma host_allowed_suffixes: "host_allowed cfg h \<Longrightarrow> postback_allowed_host_suffixes cfg \<noteq> []"
  by (auto simp: host_allowed_def)

lemma validate_ok_iff: "(\<exists>w'. validate_postback_url zp cfg u w = (Inr (), w')) \<longleftrightarrow> destination_ok zp cfg u w"
proof
  assume "destination_ok zp cfg u w"
  then obtain s port host where d: "s \<in> set (postback_allowed_schemes cfg)" "eq_ignore_case s (url_scheme u)"
    "url_port u = Some port" "port \<in> set (postback_allowed_ports cfg)" "url_host u = Some host" "host_allowed cfg host"
    "postback_block_private_ips cfg \<longrightarrow>
       (\<exists>ips w'. resolve_host_ips zp host port w = (Inr ips, w') \<and> (\<forall>ip \<in> set ips. is_public_ip ip))"
    unfolding destination_ok_def by blast
  from d(7) have "\<exists>w'. (if postback_block_private_ips cfg
      then io_bind (resolve_host_ips zp host port) (\<lambda>ips. io_of (check_ips zp ips)) else io_ok ()) w = (Inr (), w')"
    by (auto simp: io_bind_def io_of_def io_ok_def check_ips_ok_iff)
  with d(1-6) host_allowed_suffixes [OF d(6)] show "\<exists>w'. validate_postback_url zp cfg u w = (Inr (), w')"
    by (auto simp: validate_postback_url_def io_bind_eq(1) io_of_def)
next
  assume "\<exists>w'. validate_postback_url zp cfg u w = (Inr (), w')"
  then show "destination_ok zp cfg u w"
    by (auto simp: validate_postback_url_def destination_ok_def io_simps call_ok_iffs check_ips_ok_iff ok_or_Inr_iff
        split: if_splits)
qed

fun target_url :: "postback_target \<Rightarrow> string" where
  "target_url (HttpTarget h) = ht_url h"
| "target_url (EvmJsonRpc e) = et_url e"

text \<open>Checking a destination and making a request send nothing.\<close>

lemma no_send [simp]:
  "resolve_host_ips (zp\<lparr>zp_send := f\<rparr>) = resolve_host_ips zp" "check_ips (zp\<lparr>zp_send := f\<rparr>) = check_ips zp"
  by (simp_all add: fun_eq_iff resolve_host_ips_def check_ips_def split: option.split list.split)

lemma checks_no_send [simp]:
  "validate_postback_url (zp\<lparr>zp_send := f\<rparr>) = validate_postback_url zp"
  "http_request (zp\<lparr>zp_send := f\<rparr>) = http_request zp" "evm_request (zp\<lparr>zp_send := f\<rparr>) = evm_request zp"
  unfolding validate_postback_url_def http_request_def evm_request_def fun_eq_iff by (simp_all cong: if_cong)

lemma checked_send_denied:
  assumes "\<not> (\<exists>u. zp_url_parse zp url = Inr u \<and> destination_ok zp cfg u w)"
  shows "checked_send (zp\<lparr>zp_send := f\<rparr>) cfg pb i kind url rq w = checked_send zp cfg pb i kind url rq w
    \<and> (case checked_send zp cfg pb i kind url rq w of (r, _) \<Rightarrow> \<not> pt_ok r \<and> pt_status r = None \<and> pt_error r \<noteq> None)"
proof (cases "zp_url_parse zp url")
  case (Inl e)
  then show ?thesis by (simp add: checked_send_def refuse_def postback_failed_def)
next
  case (Inr u)
  with assms have "\<not> destination_ok zp cfg u w" by simp
  then obtain e w' where "validate_postback_url zp cfg u w = (Inl e, w')"
    using validate_ok_iff [of zp cfg u w] by (cases "validate_postback_url zp cfg u w"; cases "fst (validate_postback_url zp cfg u w)") auto
  then show ?thesis by (simp add: checked_send_def refuse_def postback_failed_def Inr)
qed


definition sample_postback :: "nat postback_ext" where
  "sample_postback = \<lparr>zp_zenroom = sample_zenroom,
     zp_url_parse = (\<lambda>s. Inr \<lparr>url_scheme = ''https'', url_port = Some 443, url_host = Some s, url_text = s\<rparr>),
     zp_parse_ip = (\<lambda>_. None), zp_lookup = (\<lambda>h p n. (Inr [IpV4 (ipv4_new 10 0 0 1)], n)),
     zp_send = (\<lambda>c n. (if n = 0 then Inl ''refused'' else Inr (200, []), n + 1)), zp_method = Some,
     zp_sleep = (\<lambda>ms n. n), zp_millis = id, zp_ip_text = (\<lambda>_. ''10.0.0.1'')\<rparr>"

definition sample_target :: postback_target where
  "sample_target = HttpTarget \<lparr>ht_url = ''internal'', ht_method = None, ht_headers = None,
     ht_body = Some \<lparr>bs_from = ''stdout'', bs_json_pointer = None\<rparr>\<rparr>"


section \<open>Retries\<close>

text \<open>The world before the attempt of a given number, when all earlier ones have failed.\<close>

fun attempt_world :: "'w postback_ext \<Rightarrow> postback_call \<Rightarrow> u64 \<Rightarrow> 'w \<Rightarrow> nat \<Rightarrow> 'w" where
  "attempt_world zp c b w 0 = w"
| "attempt_world zp c b w (Suc k) = attempt_world zp c b (zp_sleep zp b (snd (zp_send zp c w))) k"


definition sample_call :: postback_call where
  "sample_call = \<lparr>pc_method = ''POST'', pc_url = \<lparr>url_scheme = ''https'', url_port = Some 443, url_host = Some ''a'',
     url_text = ''a''\<rparr>, pc_headers = [], pc_body = BodyRaw []\<rparr>"


end
