(* ===== verification/Zenroom_Vmm.thy ===== *)
theory Zenroom_Vmm
  imports Zenroom_Postback "HOL-Library.AList"
begin

text \<open>
  The Zenroom VM, part four (\<open>src/node/vm/zenroom/src/vmm/mod.rs\<close>): the workers, an invocation as a
  whole and the runtime that the VM's service offers.

  The map of workers is an association list. An invocation works on the worker it has found; the code
  holds a shared pointer to it, so that stopping the worker meanwhile does not change the invocation.
\<close>

section \<open>State\<close>

record worker_instance =
  wi_instance_id :: string
  wi_worker_id :: string
  wi_script :: string
  wi_config :: worker_config
  wi_secrets :: "(string \<times> bytes) list"
  wi_limits :: "vm_limits option"
  wi_status :: worker_status
  wi_log :: nat

record 'w zenroom_vmm =
  zv_workers :: "(string \<times> worker_instance) list"
  zv_logs :: log_manager
  zv_world :: 'w

record 'w zenroom_vm_ext =
  zv_config :: zenroom_config
  zv_postback :: "'w postback_ext"
  zv_uuid :: "'w \<Rightarrow> string \<times> 'w"
  zv_now :: "'w \<Rightarrow> string"
  zv_instant :: "'w \<Rightarrow> nat"
  zv_run :: "string \<Rightarrow> string \<Rightarrow> u64 \<Rightarrow> 'w \<Rightarrow> process_run \<times> 'w"
  zv_event_json :: "bytes \<Rightarrow> string + (string \<times> event_payload)"
  zv_envelope_json :: "invocation_envelope \<Rightarrow> bytes"

abbreviation zv_zenroom :: "'w zenroom_vm_ext \<Rightarrow> zenroom_ext" where
  "zv_zenroom zv \<equiv> zp_zenroom (zv_postback zv)"

definition zenroom_vmm_new :: "'w \<Rightarrow> 'w zenroom_vmm" where
  "zenroom_vmm_new w = \<lparr>zv_workers = [], zv_logs = log_manager_new, zv_world = w\<rparr>"

definition find_worker :: "'w zenroom_vmm \<Rightarrow> string \<Rightarrow> worker_instance option" where
  "find_worker s i = map_of (zv_workers s) i"

definition worker_not_found :: "string \<Rightarrow> string" where
  "worker_not_found i = ''Worker not found: '' @ i"

definition worker_not_runnable :: "worker_status \<Rightarrow> string" where
  "worker_not_runnable st = ''Worker not runnable: '' @ status_text st"

section \<open>Starting and stopping\<close>

definition parse_userdata :: "zenroom_ext \<Rightarrow> string \<Rightarrow> string + userdata_root" where
  "parse_userdata zx text = (let t = trim_text (zx_space zx) text in
     if t = [] then Inr userdata_default
     else map_err (\<lambda>e. ''Invalid userdata JSON: '' @ e) (zx_userdata zx t))"

text \<open>The checks of \<open>start_worker\<close> and what they yield: the script and the configuration.\<close>

definition check_worker ::
  "zenroom_ext \<Rightarrow> zenroom_config \<Rightarrow> bytes \<Rightarrow> untrusted_config \<Rightarrow> trusted_config \<Rightarrow> string + (string \<times> worker_config)" where
  "check_worker zx cfg code uc tc =
    (if max_script_bytes cfg < length code
     then Inl (''Script size '' @ zx_show_nat zx (length code) @ '' exceeds max '' @ zx_show_nat zx (max_script_bytes cfg)) else
     rbind (map_err (\<lambda>e. ''Worker code must be UTF-8: '' @ e) (zx_from_utf8 zx code)) (\<lambda>script.
     rbind (parse_userdata zx (uc_userdata_json uc)) (\<lambda>ud.
     rbind (normalize_worker_config zx ud) (\<lambda>c.
     let n = sum_list (map (length \<circ> snd) (tc_secrets tc)) in
     if max_total_secrets_bytes cfg < n
     then Inl (''Total secrets size '' @ zx_show_nat zx n @ '' exceeds max '' @ zx_show_nat zx (max_total_secrets_bytes cfg))
     else Inr (script, c)))))"

definition zenroom_start ::
  "'w zenroom_vm_ext \<Rightarrow> string \<Rightarrow> bytes \<Rightarrow> untrusted_config \<Rightarrow> trusted_config \<Rightarrow> ('w zenroom_vmm, string) vm_call" where
  "zenroom_start zv worker_id code uc tc s =
    (case check_worker (zv_zenroom zv) (zv_config zv) code uc tc of
       Inl e \<Rightarrow> Some (Inl e, s)
     | Inr (script, c) \<Rightarrow>
         (case zv_uuid zv (zv_world s) of (i, w') \<Rightarrow>
          case register_worker i (zv_logs s) of (logs, buf) \<Rightarrow>
          Some (Inr i, s\<lparr>zv_workers := AList.update i \<lparr>wi_instance_id = i, wi_worker_id = worker_id, wi_script = script,
              wi_config = c, wi_secrets = tc_secrets tc, wi_limits = tc_limits tc, wi_status = WsRunning, wi_log = buf\<rparr>
              (zv_workers s), zv_logs := logs, zv_world := w'\<rparr>)))"

definition zenroom_stop :: "'w zenroom_vm_ext \<Rightarrow> string \<Rightarrow> ('w zenroom_vmm, unit) vm_call" where
  "zenroom_stop zv i s = (case find_worker s i of
      Some _ \<Rightarrow> Some (Inr (), s\<lparr>zv_workers := AList.delete i (zv_workers s),
                               zv_logs := terminate_worker_logs (zv_instant zv (zv_world s)) i (zv_logs s)\<rparr>)
    | None \<Rightarrow> Some (Inl (worker_not_found i), s))"

section \<open>Invocation\<close>

datatype invocation_input = InvokeEvent string event_payload | InvokeHttpRequest vm_http_request

definition nxcc_metadata :: "'w zenroom_vm_ext \<Rightarrow> worker_instance \<Rightarrow> invocation_input \<Rightarrow> 'w \<Rightarrow> json" where
  "nxcc_metadata zv wi inp w = (case inp of
      InvokeEvent hnd p \<Rightarrow> build_nxcc_event (zv_zenroom zv) (wi_worker_id wi) (wi_instance_id wi) (zv_now zv w) hnd p
    | InvokeHttpRequest r \<Rightarrow> build_nxcc_http (zv_zenroom zv) (wi_worker_id wi) (wi_instance_id wi) (zv_now zv w) r)"

definition exec_timeout :: "zenroom_config \<Rightarrow> vm_limits option \<Rightarrow> u64" where
  "exec_timeout cfg l = (case l of None \<Rightarrow> exec_timeout_ms cfg
    | Some l \<Rightarrow> if 0 < vl_max_runtime_seconds l
        then min (exec_timeout_ms cfg)
          (if unat (vl_max_runtime_seconds l) * 1000 < 2 ^ 64 then vl_max_runtime_seconds l * 1000 else - 1)
        else exec_timeout_ms cfg)"

definition exec_path :: "zenroom_config \<Rightarrow> zenroom_mode \<Rightarrow> string" where
  "exec_path cfg m = (case m of Zencode \<Rightarrow> zencode_exec_path cfg | Lua \<Rightarrow> lua_exec_path cfg)"

text \<open>What is handed to the binary: the line of configuration and the keys with their secrets.\<close>

definition prepare_run ::
  "zenroom_ext \<Rightarrow> zenroom_config \<Rightarrow> worker_instance \<Rightarrow> error_info + (json \<times> string)" where
  "prepare_run zx cfg wi =
    rbind (map_err (error_info_new ''secret_injection_failed'')
      (inject_secrets zx cfg (map_of (wi_secrets wi)) (ni_keys (wc_inputs (wi_config wi))) 0)) (\<lambda>(keys, _).
    rbind (map_err (error_info_new ''invalid_conf'') (build_conf zx cfg (wc_conf (wi_config wi)))) (\<lambda>conf.
    Inr (keys, conf)))"

definition finish_envelope ::
  "'w zenroom_vm_ext \<Rightarrow> worker_config \<Rightarrow> invocation_envelope \<Rightarrow> 'w \<Rightarrow> invocation_envelope \<times> 'w" where
  "finish_envelope zv wc e w =
    (if \<not> ie_ok e then (e, w) else
     let fail = (\<lambda>e err. e\<lparr>ie_ok := False, ie_error := Some err\<rparr>); pb = wc_postback wc in
     case compute_selected_output (zv_zenroom zv) (zr_stdout_json (ie_zenroom e)) (wc_output wc) (pb_required pb) of
       Inl err \<Rightarrow> (fail e err, w)
     | Inr sel \<Rightarrow>
         let e = e\<lparr>ie_selected_output := sel\<rparr> in
         if \<not> pb_enabled pb then (e, w) else
         (case run_postbacks (zv_postback zv) (zv_config zv) pb (ie_zenroom e) sel w of
            (Inl err, w') \<Rightarrow> (fail e err, w')
          | (Inr rs, w') \<Rightarrow>
              ((if pb_required pb \<and> (\<exists>r \<in> set rs. \<not> pt_ok r)
                then fail e (error_info_new ''postback_required_failed'' ''Required postback target failed'')
                else e)\<lparr>ie_postbacks := rs\<rparr>, w')))"

definition build_invocation_envelope ::
  "'w zenroom_vm_ext \<Rightarrow> worker_instance \<Rightarrow> invocation_input \<Rightarrow> 'w \<Rightarrow> (invocation_envelope \<times> 'w) option" where
  "build_invocation_envelope zv wi inp w =
    (let zx = zv_zenroom zv; cfg = zv_config zv; c = wi_config wi; ms = zp_millis (zv_postback zv); start = ms w;
         data = merge_data (ni_data (wc_inputs c)) (nxcc_metadata zv wi inp w) (ni_merge_strategy (wc_inputs c))
     in case prepare_run zx cfg wi of
          Inl e \<Rightarrow> Some (envelope_error e (ms w - start), w)
        | Inr (keys, conf) \<Rightarrow>
            (case zv_run zv (exec_path cfg (wc_mode c))
                (exec_input zx conf (wi_script wi) keys data (ni_extra (wc_inputs c)) (ni_context (wc_inputs c)))
                (exec_timeout cfg (wi_limits wi)) w of (run, w') \<Rightarrow>
             map_option (\<lambda>(out, err). finish_envelope zv c
                 (build_envelope_from_exec zx out err (ms w' - start) (no_format (wc_output c))) w')
               (execute_zenroom zx (max_stdout_bytes cfg, max_stderr_bytes cfg) run)))"

text \<open>The log lines of an event invocation.\<close>

definition postback_line :: "zenroom_ext \<Rightarrow> postback_result \<Rightarrow> string" where
  "postback_line zx r =
    ''postback['' @ zx_show_nat zx (pt_target_index r) @ '']: '' @ pt_kind r @
    (if pt_ok r then '' status='' @ zx_show_nat zx (unat (unwrap_or 0 (pt_status r))) @ '' duration_ms=''
       @ zx_show_nat zx (pt_duration_ms r)
     else '' failed ('' @ unwrap_or ''unknown error'' (map_option ei_message (pt_error r)) @ '')'')"

definition invocation_lines :: "zenroom_ext \<Rightarrow> invocation_envelope \<Rightarrow> string list" where
  "invocation_lines zx e = (let z = ie_zenroom e in
     (if zr_stdout z = [] then [] else [''stdout: '' @ zr_stdout z]) @
     (if zr_stderr z = [] then [] else [''stderr: '' @ zr_stderr z]) @ map (postback_line zx) (ie_postbacks e))"

definition write_lines :: "nat \<Rightarrow> nat \<Rightarrow> string list \<Rightarrow> log_manager \<Rightarrow> log_manager" where
  "write_lines now buf ls m = foldl (\<lambda>m l. buffer_write now l buf m) m ls"

text \<open>The guard that both kinds of invocation share.\<close>

definition running_worker :: "'w zenroom_vmm \<Rightarrow> string \<Rightarrow> string + worker_instance" where
  "running_worker s i =
    rbind (ok_or (worker_not_found i) (find_worker s i)) (\<lambda>wi.
    if wi_status wi \<noteq> WsRunning then Inl (worker_not_runnable (wi_status wi)) else Inr wi)"

definition zenroom_invoke ::
  "'w zenroom_vm_ext \<Rightarrow> string \<Rightarrow> string \<Rightarrow> bytes \<Rightarrow> ('w zenroom_vmm, bytes) vm_call" where
  "zenroom_invoke zv i hnd payload s = (case running_worker s i of
      Inl e \<Rightarrow> Some (Inl e, s)
    | Inr wi \<Rightarrow> (case zv_event_json zv payload of
        Inl e \<Rightarrow> Some (Inr (zv_envelope_json zv (envelope_error (error_info_new ''invalid_event_payload'' e) 0)), s)
      | Inr (_, p) \<Rightarrow> map_option (\<lambda>(e, w'). (Inr (zv_envelope_json zv e),
            s\<lparr>zv_world := w', zv_logs := write_lines (zv_instant zv w') (wi_log wi)
                (invocation_lines (zv_zenroom zv) e) (zv_logs s)\<rparr>))
          (build_invocation_envelope zv wi (InvokeEvent hnd p) (zv_world s))))"

definition json_content :: string where
  "json_content = ''application/json''"

definition http_response_parts ::
  "'w zenroom_vm_ext \<Rightarrow> response_mode \<Rightarrow> invocation_envelope \<Rightarrow> nat \<times> bytes \<times> string" where
  "http_response_parts zv m e =
    (let zx = zv_zenroom zv; z = ie_zenroom e in
     if \<not> ie_ok e then (500, zv_envelope_json zv e, json_content)
     else (case m of
         RespondEnvelope \<Rightarrow> (200, zv_envelope_json zv e, json_content)
       | RespondStdout \<Rightarrow> (200, str_bytes (zr_stdout z), if zx_from_str zx (zr_stdout z) \<noteq> None then json_content else ''text/plain'')
       | RespondSelectedOutput \<Rightarrow>
           (200, str_bytes (zx_to_string zx (unwrap_or JNull
              (case ie_selected_output e of Some v \<Rightarrow> Some v | None \<Rightarrow> zr_stdout_json z))), json_content)))"

definition zenroom_invoke_http ::
  "'w zenroom_vm_ext \<Rightarrow> string \<Rightarrow> vm_http_request \<Rightarrow> ('w zenroom_vmm, vm_http_response) vm_call" where
  "zenroom_invoke_http zv i r s = (case running_worker s i of
      Inl e \<Rightarrow> Some (Inl e, s)
    | Inr wi \<Rightarrow> map_option (\<lambda>(e, w').
          (case http_response_parts zv (wc_response_mode (wi_config wi)) e of (st, body, ty) \<Rightarrow>
             Inr \<lparr>vs_status_code = st, vs_headers = [\<lparr>vh_key = ''content-type'', vh_value = str_bytes ty\<rparr>], vs_body = body\<rparr>,
           s\<lparr>zv_world := w'\<rparr>))
        (build_invocation_envelope zv wi (InvokeHttpRequest r) (zv_world s)))"

section \<open>Reading\<close>

definition zenroom_attestation :: "bytes \<Rightarrow> ('w zenroom_vmm, attestation_bundle) vm_call" where
  "zenroom_attestation u = vm_return (Inl ''Attestation not supported'')"

definition zenroom_status :: "string \<Rightarrow> ('w zenroom_vmm, worker_status) vm_call" where
  "zenroom_status i s = vm_return (rbind (ok_or (worker_not_found i) (find_worker s i)) (\<lambda>wi. Inr (wi_status wi))) s"

definition zenroom_list_running :: "('w zenroom_vmm, string list) vm_call" where
  "zenroom_list_running s = vm_return (Inr (map fst (filter (\<lambda>(_, wi). wi_status wi = WsRunning) (zv_workers s)))) s"

definition zenroom_logs :: "string \<Rightarrow> ('w zenroom_vmm, string) vm_call" where
  "zenroom_logs i s = vm_return (case manager_worker_logs i None (zv_logs s) of
      Some es \<Rightarrow> Inr (join_with [CHR 0x0A] (map log_line es))
    | None \<Rightarrow> Inl (worker_not_found i)) s"

definition zenroom_stream_logs :: "'w zenroom_vm_ext \<Rightarrow> string \<Rightarrow> u32 \<Rightarrow> bool \<Rightarrow> ('w zenroom_vmm, log_stream) vm_call" where
  "zenroom_stream_logs zv i n follow s = map_option (\<lambda>r. (r, s))
     (stream_from_manager (worker_not_found i) (zp_millis (zv_postback zv) (zv_world s)) (zv_logs s) i n follow)"

definition zenroom_probe :: "string \<Rightarrow> ('w zenroom_vmm, worker_status \<times> string) vm_call" where
  "zenroom_probe i s = vm_return (rbind (ok_or (worker_not_found i) (find_worker s i)) (\<lambda>wi.
     Inr (wi_status wi, ''Worker status: '' @ status_text (wi_status wi)))) s"

definition zenroom_runtime :: "'w zenroom_vm_ext \<Rightarrow> ('w zenroom_vmm, attestation_bundle) vm_runtime" where
  "zenroom_runtime zv = \<lparr>rt_start = zenroom_start zv, rt_stop = zenroom_stop zv, rt_invoke = zenroom_invoke zv,
     rt_invoke_http = zenroom_invoke_http zv, rt_attestation = zenroom_attestation, rt_status = zenroom_status,
     rt_list_running = zenroom_list_running, rt_logs = zenroom_logs, rt_stream_logs = zenroom_stream_logs zv,
     rt_probe = zenroom_probe\<rparr>"

section \<open>The runtime keeps the laws\<close>

definition zenroom_worker_status :: "'w zenroom_vmm \<Rightarrow> string \<Rightarrow> worker_status option" where
  "zenroom_worker_status s i = map_option wi_status (find_worker s i)"

definition zenroom_ok :: "'w zenroom_vmm \<Rightarrow> bool" where
  "zenroom_ok s \<longleftrightarrow> distinct (map fst (zv_workers s))"

interpretation zenroom: runtime "zenroom_runtime zv" zenroom_worker_status zenroom_ok for zv :: "'w zenroom_vm_ext"
proof
  fix s :: "'w zenroom_vmm" and i
  show "\<exists>e. rt_status (zenroom_runtime zv) i s
      = Some ((case zenroom_worker_status s i of Some st \<Rightarrow> Inr st | None \<Rightarrow> Inl e), s)"
    by (cases "find_worker s i") (auto simp: zenroom_runtime_def zenroom_status_def vm_return_def zenroom_worker_status_def)
next
  fix s :: "'w zenroom_vmm"
  assume "zenroom_ok s"
  then have "set (map fst (filter (\<lambda>(_, wi). wi_status wi = WsRunning) (zv_workers s)))
      = {i. zenroom_worker_status s i = Some WsRunning}"
    by (force simp: zenroom_ok_def zenroom_worker_status_def find_worker_def dest: map_of_SomeD)
  then show "\<exists>ids. rt_list_running (zenroom_runtime zv) s = Some (Inr ids, s)
      \<and> set ids = {i. zenroom_worker_status s i = Some WsRunning}"
    by (simp add: zenroom_runtime_def zenroom_list_running_def vm_return_def)
next
  fix s :: "'w zenroom_vmm" and i hnd p
  assume "zenroom_worker_status s i \<noteq> Some WsRunning"
  then show "\<exists>e. rt_invoke (zenroom_runtime zv) i hnd p s = Some (Inl e, s)"
    by (cases "find_worker s i")
      (auto simp: zenroom_runtime_def zenroom_invoke_def running_worker_def zenroom_worker_status_def)
next
  fix s :: "'w zenroom_vmm" and i q
  assume "zenroom_worker_status s i \<noteq> Some WsRunning"
  then show "\<exists>e. rt_invoke_http (zenroom_runtime zv) i q s = Some (Inl e, s)"
    by (cases "find_worker s i")
      (auto simp: zenroom_runtime_def zenroom_invoke_http_def running_worker_def zenroom_worker_status_def)
next
  fix s s' :: "'w zenroom_vmm" and i
  assume "zenroom_ok s" "rt_stop (zenroom_runtime zv) i s = Some (Inr (), s')"
  then show "zenroom_ok s' \<and> zenroom_worker_status s' i \<noteq> Some WsRunning"
    by (auto simp: zenroom_runtime_def zenroom_stop_def zenroom_ok_def zenroom_worker_status_def find_worker_def
        delete_conv distinct_delete split: option.splits)
qed

section \<open>Properties\<close>

lemma zenroom_start_ok:
  "zenroom_ok s \<Longrightarrow> zenroom_start zv wid code uc tc s = Some (r, s') \<Longrightarrow> zenroom_ok s'"
  by (auto simp: zenroom_start_def zenroom_ok_def distinct_update split: sum.splits prod.splits)

lemma postback_loop_length: "length (fst (postback_loop zp cfg pb z sel i ts w)) = length ts"
  by (induction ts arbitrary: i w) (simp_all add: case_prod_beta)

lemma run_postbacks_ok:
  assumes "run_postbacks zp cfg pb z sel w = (Inr rs, w')"
  shows "postback_enabled cfg" "length rs = length (pb_targets pb)" "pb_required pb \<Longrightarrow> rs \<noteq> []"
proof -
  show "postback_enabled cfg" using assms by (simp add: run_postbacks_def split: if_splits)
  show n: "length rs = length (pb_targets pb)"
    using assms postback_loop_length [of zp cfg pb z sel 0 "pb_targets pb" w]
    by (auto simp: run_postbacks_def split: if_splits prod.splits)
  show "pb_required pb \<Longrightarrow> rs \<noteq> []" using assms n by (auto simp: run_postbacks_def split: if_splits)
qed

lemma finish_envelope_ok:
  assumes "finish_envelope zv c e0 w = (e, w')" "ie_ok e"
  shows "ie_ok e0" "ie_zenroom e = ie_zenroom e0" "ie_error e = ie_error e0"
    "pb_enabled (wc_postback c) \<Longrightarrow> postback_enabled (zv_config zv)
      \<and> length (ie_postbacks e) = length (pb_targets (wc_postback c))
      \<and> (pb_required (wc_postback c) \<longrightarrow> ie_postbacks e \<noteq> [] \<and> (\<forall>r \<in> set (ie_postbacks e). pt_ok r))"
  using assms
  by (auto simp: finish_envelope_def Let_def dest: run_postbacks_ok split: if_splits sum.splits prod.splits)

text \<open>
  C35: An invocation that reports success has run the worker's script, with its secrets injected and its line
  of configuration accepted, to the end: no error, exit code zero. If the worker asks for postbacks, the
  operator has enabled them and each target has a result; if they are required, all of them succeeded.
\<close>

theorem envelope_ok_sound:
  assumes "build_invocation_envelope zv wi inp w = Some (e, w')" "ie_ok e"
  shows "(\<exists>keys conf run w1 out. prepare_run (zv_zenroom zv) (zv_config zv) wi = Inr (keys, conf)
      \<and> zv_run zv (exec_path (zv_config zv) (wc_mode (wi_config wi)))
          (exec_input (zv_zenroom zv) conf (wi_script wi) keys
            (merge_data (ni_data (wc_inputs (wi_config wi))) (nxcc_metadata zv wi inp w)
               (ni_merge_strategy (wc_inputs (wi_config wi))))
            (ni_extra (wc_inputs (wi_config wi))) (ni_context (wc_inputs (wi_config wi))))
          (exec_timeout (zv_config zv) (wi_limits wi)) w = (run, w1)
      \<and> execute_zenroom (zv_zenroom zv) (max_stdout_bytes (zv_config zv), max_stderr_bytes (zv_config zv)) run = Some (out, None)
      \<and> eo_exit_code out = 0 \<and> zr_stdout (ie_zenroom e) = eo_stdout out \<and> ie_error e = None)
    \<and> (pb_enabled (wc_postback (wi_config wi)) \<longrightarrow> postback_enabled (zv_config zv)
        \<and> length (ie_postbacks e) = length (pb_targets (wc_postback (wi_config wi)))
        \<and> (pb_required (wc_postback (wi_config wi)) \<longrightarrow> ie_postbacks e \<noteq> [] \<and> (\<forall>r \<in> set (ie_postbacks e). pt_ok r)))"
proof -
  let ?c = "wi_config wi" and ?zx = "zv_zenroom zv" and ?cfg = "zv_config zv"
  let ?data = "merge_data (ni_data (wc_inputs ?c)) (nxcc_metadata zv wi inp w) (ni_merge_strategy (wc_inputs ?c))"
  from assms obtain keys conf where p: "prepare_run ?zx ?cfg wi = Inr (keys, conf)"
    by (auto simp: build_invocation_envelope_def Let_def envelope_error_def split: sum.splits)
  obtain run w1 where r: "zv_run zv (exec_path ?cfg (wc_mode ?c))
      (exec_input ?zx conf (wi_script wi) keys ?data (ni_extra (wc_inputs ?c)) (ni_context (wc_inputs ?c)))
      (exec_timeout ?cfg (wi_limits wi)) w = (run, w1)" by fastforce
  from assms(1) p r obtain out err e0 where
    x: "execute_zenroom ?zx (max_stdout_bytes ?cfg, max_stderr_bytes ?cfg) run = Some (out, err)"
    and e0: "e0 = build_envelope_from_exec ?zx out err (zp_millis (zv_postback zv) w1 - zp_millis (zv_postback zv) w)
          (no_format (wc_output ?c))"
    and f: "finish_envelope zv ?c e0 w1 = (e, w')"
    by (auto simp: build_invocation_envelope_def Let_def)
  note ok = finish_envelope_ok [OF f assms(2)]
  from ok(1) have "eo_exit_code out = 0" "err = None" "ie_error e0 = None" "zr_stdout (ie_zenroom e0) = eo_stdout out"
    by (simp_all add: e0 build_envelope_from_exec_def Let_def)
  with p r x ok(2,3) have "\<exists>keys conf run w1 out. prepare_run ?zx ?cfg wi = Inr (keys, conf)
      \<and> zv_run zv (exec_path ?cfg (wc_mode ?c))
          (exec_input ?zx conf (wi_script wi) keys ?data (ni_extra (wc_inputs ?c)) (ni_context (wc_inputs ?c)))
          (exec_timeout ?cfg (wi_limits wi)) w = (run, w1)
      \<and> execute_zenroom ?zx (max_stdout_bytes ?cfg, max_stderr_bytes ?cfg) run = Some (out, None)
      \<and> eo_exit_code out = 0 \<and> zr_stdout (ie_zenroom e) = eo_stdout out \<and> ie_error e = None"
    by (intro exI conjI) auto
  with ok(4) show ?thesis by blast
qed

definition sample_vm :: "nat zenroom_vm_ext" where
  "sample_vm = \<lparr>zv_config = zenroom_config_default, zv_postback = sample_postback, zv_uuid = (\<lambda>n. (''w'', n + 1)),
     zv_now = (\<lambda>_. ''now''), zv_instant = id, zv_run = (\<lambda>path input ms n. (sample_process, n + 1)),
     zv_event_json = (\<lambda>b. Inr (''fetch'', EpLaunch)), zv_envelope_json = (\<lambda>e. if ie_ok e then [1] else [0])\<rparr>"

definition sample_worker :: worker_instance where
  "sample_worker = \<lparr>wi_instance_id = ''w'', wi_worker_id = ''id'', wi_script = ''print'',
     wi_config = \<lparr>wc_mode = Lua, wc_conf = [], wc_inputs = \<lparr>ni_data = empty_object, ni_keys = JNull, ni_extra = JNull,
         ni_context = JNull, ni_merge_strategy = Wrap\<rparr>, wc_output = \<lparr>no_format = FormatRaw, no_json_pointer = None\<rparr>,
       wc_response_mode = RespondStdout, wc_postback = normalize_postback postback_userdata_default\<rparr>,
     wi_secrets = [], wi_limits = None, wi_status = WsRunning, wi_log = 0\<rparr>"

definition sample_vmm :: "nat zenroom_vmm" where
  "sample_vmm = \<lparr>zv_workers = [(''w'', sample_worker)], zv_logs = fst (register_worker ''w'' log_manager_new), zv_world = 0\<rparr>"

lemma sample_exec_run:
  "\<exists>out. execute_zenroom sample_zenroom (262144, 262144) sample_process = Some (out, None) \<and> eo_exit_code out = 0"
  by (simp add: execute_zenroom_def sample_process_def exec_step_def exec_loop_new_def exec_done_def note_overflow_def
      exec_finish_def read_error_def Let_def)

lemma sample_prepare: "prepare_run sample_zenroom zenroom_config_default sample_worker = Inr (JNull, ''debug=0'')"
  by (simp add: prepare_run_def sample_worker_def build_conf_def conf_entries_def trim_text_def conf_key_def)

theorem envelope_ok_sound_witness:
  "\<exists>e. build_invocation_envelope sample_vm sample_worker (InvokeEvent ''fetch'' EpLaunch) 0 = Some (e, 1)
    \<and> ie_ok e \<and> ie_error e = None"
proof -
  from sample_exec_run obtain out where out: "execute_zenroom sample_zenroom (262144, 262144) sample_process = Some (out, None)"
    "eo_exit_code out = 0" by blast
  have lim: "max_stdout_bytes zenroom_config_default = 262144" "max_stderr_bytes zenroom_config_default = 262144"
    by (simp_all add: zenroom_config_default_def)
  have sel: "zv_config sample_vm = zenroom_config_default" "zv_zenroom sample_vm = sample_zenroom"
    "zv_run sample_vm p x ms n = (sample_process, n + 1)" for p x ms n
    unfolding sample_vm_def sample_postback_def zenroom_vm_ext.select_convs postback_ext.select_convs by simp_all
  have pb: "\<not> pb_enabled (wc_postback (wi_config sample_worker))" "no_json_pointer (wc_output (wi_config sample_worker)) = None"
    by (simp_all add: sample_worker_def normalize_postback_def postback_userdata_default_def Let_def)
  have "\<exists>e. build_invocation_envelope sample_vm sample_worker (InvokeEvent ''fetch'' EpLaunch) 0 = Some (e, 1) \<and> ie_ok e"
    by (simp add: build_invocation_envelope_def Let_def sel sample_prepare lim out build_envelope_from_exec_def
        finish_envelope_def compute_selected_output_def pb)
  then obtain e where e: "build_invocation_envelope sample_vm sample_worker (InvokeEvent ''fetch'' EpLaunch) 0 = Some (e, 1)"
    "ie_ok e" by blast
  from envelope_ok_sound [OF e] e show ?thesis by auto
qed

text \<open>
  Once the service has answered that a Zenroom worker was stopped, an event for it is refused and a
  request for it is an error, and neither changes anything.
\<close>

theorem zenroom_stopped_not_invoked:
  assumes "zenroom_ok s" "serve_stop_worker (zenroom_runtime zv) i s = Some (Inr r, s')" "vy_success r"
  shows "(\<exists>r'. serve_invoke_worker (zenroom_runtime zv) i hnd p s' = Some (Inr r', s') \<and> \<not> vy_success r' \<and> vy_value r' = [])
    \<and> (\<exists>e. serve_invoke_http (zenroom_runtime zv) i q s' = Some (Inl e, s'))"
  using assms by (rule zenroom.stopped_not_invoked)

theorem zenroom_stopped_not_invoked_witness:
  "\<exists>s' r'. serve_stop_worker (zenroom_runtime sample_vm) ''w'' sample_vmm = Some (Inr (vm_reply_of () (Inr ())), s')
    \<and> serve_invoke_worker (zenroom_runtime sample_vm) ''w'' ''fetch'' [] s' = Some (Inr r', s') \<and> \<not> vy_success r'"
proof -
  have ok: "zenroom_ok sample_vmm" by (simp add: zenroom_ok_def sample_vmm_def)
  obtain s' where s': "serve_stop_worker (zenroom_runtime sample_vm) ''w'' sample_vmm = Some (Inr (vm_reply_of () (Inr ())), s')"
    by (simp add: serve_stop_worker_def answer_def zenroom_runtime_def zenroom_stop_def find_worker_def sample_vmm_def)
  have "vy_success (vm_reply_of () (Inr () :: string + unit))" by (simp add: vm_reply_of_def)
  from zenroom_stopped_not_invoked [OF ok s' this] s' show ?thesis by blast
qed

end
