(* ===== verification/Workerd_Config.thy ===== *)
theory Workerd_Config
  imports Vm_Server
begin

text \<open>
  The workerd VM, part one (\<open>src/node/vm/workerd/src/config_builder.rs\<close>): the kind of a worker's code
  and the configuration that a workerd process is started with. The configuration is the structure that
  is built; its Cap'n Proto encoding is an argument of the theory \<open>Workerd_Vmm\<close>.
\<close>

section \<open>The kind of code\<close>

datatype code_type = CodeEsModule | CodePython


text \<open>The reading of UTF-8 is an argument.\<close>

definition detect_code_type :: "(bytes \<Rightarrow> string + string) \<Rightarrow> bytes \<Rightarrow> string + code_type" where
  "detect_code_type from_utf8 code =
    rbind (map_err (\<lambda>_. ''Unsupported worker code type'') (from_utf8 code)) (\<lambda>s.
    if contains_text ''def '' s \<and> contains_text ''import '' s \<and> \<not> contains_text ''export default'' s
       \<and> \<not> contains_text ''addEventListener'' s \<and> contains_text ''on_fetch'' s
    then Inr CodePython
    else if contains_text ''export default'' s \<or> contains_text ''addEventListener'' s \<or> contains_text ''import '' s
    then Inr CodeEsModule else Inr CodeEsModule)"

section \<open>The configuration of a process\<close>

datatype key_usage = DeriveKey | DeriveBits | OtherUsage

record crypto_key =
  ck_raw :: bytes
  ck_extractable :: bool
  ck_usages :: "key_usage list"
  ck_algorithm :: string

datatype binding_value = BindJson string | BindCryptoKey crypto_key

datatype worker_module = EsModule string string | PythonModule string string

record wk_service =
  ws_compatibility_date :: string
  ws_global_outbound :: string
  ws_modules :: "worker_module list"
  ws_compatibility_flags :: "string list"
  ws_bindings :: "(string \<times> binding_value) list"

record wk_network =
  wn_allow :: "string list"
  wn_trust_browser_cas :: bool

datatype service_kind = WorkerService wk_service | NetworkService wk_network

record wk_socket =
  so_name :: string
  so_address :: string
  so_service :: string

record wk_config =
  kc_services :: "(string \<times> service_kind) list"
  kc_sockets :: "wk_socket list"

datatype binding_type = JsonBinding string | SecretBinding bytes

text \<open>The secrets come in the order in which their map is traversed.\<close>

definition config_bindings :: "untrusted_config \<Rightarrow> trusted_config \<Rightarrow> (string \<times> binding_type) list" where
  "config_bindings uc tc =
    (if uc_userdata_json uc = [] then [] else [(''USER_CONFIG'', JsonBinding (uc_userdata_json uc))])
      @ map (\<lambda>(name, key). (name, SecretBinding key)) (tc_secrets tc)"

fun write_binding :: "binding_type \<Rightarrow> binding_value" where
  "write_binding (JsonBinding s) = BindJson s"
| "write_binding (SecretBinding k) = BindCryptoKey \<lparr>ck_raw = k, ck_extractable = False,
     ck_usages = [DeriveKey, DeriveBits], ck_algorithm = ''HKDF''\<rparr>"

definition internet_service :: wk_network where
  "internet_service = \<lparr>wn_allow = [''public'', ''private''], wn_trust_browser_cas = True\<rparr>"

definition build_config ::
  "(bytes \<Rightarrow> string + string) \<Rightarrow> bytes \<Rightarrow> code_type \<Rightarrow> untrusted_config \<Rightarrow> trusted_config \<Rightarrow> string \<Rightarrow> string \<Rightarrow> string
     \<Rightarrow> string + wk_config" where
  "build_config from_utf8 code ty uc tc uds service_name socket_name =
    rbind (map_err (\<lambda>e. ''Invalid configuration: Worker code is not valid UTF-8: '' @ e) (from_utf8 code)) (\<lambda>s.
    let (m, flags) = (case ty of
          CodeEsModule \<Rightarrow> (EsModule ''worker.js'' s, [])
        | CodePython \<Rightarrow> (PythonModule ''worker.py'' s, [''python_workers'', ''python_workers_20250116''])) in
    Inr \<lparr>kc_services =
        [(service_name, WorkerService \<lparr>ws_compatibility_date = ''2025-04-18'', ws_global_outbound = ''internet'',
            ws_modules = [m], ws_compatibility_flags = flags,
            ws_bindings = map (\<lambda>(n, b). (n, write_binding b)) (config_bindings uc tc)\<rparr>),
         (''internet'', NetworkService internet_service)],
      kc_sockets = [\<lparr>so_name = socket_name, so_address = ''unix:'' @ uds, so_service = service_name\<rparr>]\<rparr>)"

section \<open>What a process is given\<close>

text \<open>
  The process of a worker serves that worker alone, on its own socket. The worker gets the trusted
  secrets and nothing else as keys, in order and under their names; a key can be used for derivation
  only and its bytes cannot be read by the script. Outgoing requests go to the network service, which
  lets private addresses through as well as public ones.
\<close>

theorem built_config_confines:
  assumes "build_config from_utf8 code ty uc tc uds service sock = Inr c"
  shows "\<exists>w n src. kc_services c = [(service, WorkerService w), (''internet'', NetworkService n)]
    \<and> kc_sockets c = [\<lparr>so_name = sock, so_address = ''unix:'' @ uds, so_service = service\<rparr>]
    \<and> from_utf8 code = Inr src \<and> ws_modules w \<in> {[EsModule ''worker.js'' src], [PythonModule ''worker.py'' src]}
    \<and> ws_global_outbound w = ''internet'' \<and> set (wn_allow n) = {''public'', ''private''}
    \<and> [(name, ck_raw k). (name, BindCryptoKey k) \<leftarrow> ws_bindings w] = tc_secrets tc
    \<and> (\<forall>name k. (name, BindCryptoKey k) \<in> set (ws_bindings w)
         \<longrightarrow> \<not> ck_extractable k \<and> set (ck_usages k) = {DeriveKey, DeriveBits})
    \<and> (\<forall>name s. (name, BindJson s) \<in> set (ws_bindings w) \<longleftrightarrow>
         name = ''USER_CONFIG'' \<and> s = uc_userdata_json uc \<and> s \<noteq> [])"
proof -
  from assms obtain src where src: "from_utf8 code = Inr src" by (auto simp: build_config_def result_simps)
  have keys: "[(name, ck_raw k). (name, BindCryptoKey k) \<leftarrow> map (\<lambda>(n, b). (n, write_binding b)) (config_bindings uc tc)]
      = tc_secrets tc"
  proof -
    have "[(name, ck_raw k). (name, BindCryptoKey k) \<leftarrow> map (\<lambda>(n, b). (n, write_binding b))
        (map (\<lambda>(name, key). (name, SecretBinding key)) xs)] = xs" for xs :: "(string \<times> bytes) list"
      by (induction xs) auto
    then show ?thesis by (simp add: config_bindings_def)
  qed
  have json: "(name, BindJson s) \<in> set (map (\<lambda>(n, b). (n, write_binding b)) (config_bindings uc tc)) \<longleftrightarrow>
      name = ''USER_CONFIG'' \<and> s = uc_userdata_json uc \<and> s \<noteq> []" for name s
    by (auto simp: config_bindings_def image_iff split: if_splits)
  from assms src obtain w where w: "c = \<lparr>kc_services = [(service, WorkerService w), (''internet'', NetworkService internet_service)],
        kc_sockets = [\<lparr>so_name = sock, so_address = ''unix:'' @ uds, so_service = service\<rparr>]\<rparr>"
      "ws_modules w \<in> {[EsModule ''worker.js'' src], [PythonModule ''worker.py'' src]}" "ws_global_outbound w = ''internet''"
      "ws_bindings w = map (\<lambda>(n, b). (n, write_binding b)) (config_bindings uc tc)"
    by (cases ty) (auto simp: build_config_def)
  have use: "\<forall>name k. (name, BindCryptoKey k) \<in> set (ws_bindings w)
         \<longrightarrow> \<not> ck_extractable k \<and> set (ck_usages k) = {DeriveKey, DeriveBits}"
    by (auto simp: w(4) config_bindings_def)
  have parts: "kc_services c = [(service, WorkerService w), (''internet'', NetworkService internet_service)]"
    "kc_sockets c = [\<lparr>so_name = sock, so_address = ''unix:'' @ uds, so_service = service\<rparr>]"
    "set (wn_allow internet_service) = {''public'', ''private''}"
    by (simp_all add: w(1) internet_service_def)
  have "\<forall>name s. (name, BindJson s) \<in> set (ws_bindings w) \<longleftrightarrow> name = ''USER_CONFIG'' \<and> s = uc_userdata_json uc \<and> s \<noteq> []"
    using json w(4) by simp
  with parts src w(2,3) keys [folded w(4)] use show ?thesis by blast
qed

theorem built_config_confines_witness:
  "\<exists>c. build_config (\<lambda>_. Inr ''export default'') [] CodeEsModule \<lparr>uc_userdata_json = ''{}'', uc_advanced = []\<rparr>
      \<lparr>tc_secrets = [(''K'', [1, 2])], tc_limits = None\<rparr> ''/s'' ''main'' ''sock'' = Inr c
    \<and> length (kc_services c) = 2 \<and> length (kc_sockets c) = 1"
proof -
  obtain c where c: "build_config (\<lambda>_. Inr ''export default'') [] CodeEsModule \<lparr>uc_userdata_json = ''{}'', uc_advanced = []\<rparr>
      \<lparr>tc_secrets = [(''K'', [1, 2])], tc_limits = None\<rparr> ''/s'' ''main'' ''sock'' = Inr c"
    by (simp add: build_config_def)
  from built_config_confines [OF c] obtain w n where "kc_services c = [(''main'', WorkerService w), (''internet'', NetworkService n)]"
    by (elim exE conjE)
  moreover from built_config_confines [OF c]
  have "kc_sockets c = [\<lparr>so_name = ''sock'', so_address = ''unix:'' @ ''/s'', so_service = ''main''\<rparr>]"
    by (elim exE conjE)
  ultimately show ?thesis using c by simp
qed

end
