(* ===== verification/Workerd_Vmm.thy ===== *)
theory Workerd_Vmm
  imports Workerd_Config "HOL-Library.AList"
begin

text \<open>
  The workerd VM, part two (\<open>src/node/vm/workerd/src/vmm/mod.rs\<close>): the processes of the workers, their
  start, their statuses and what is forwarded to them.

  Processes, files, sockets and clocks are the world. An operation is one step, with one exception: the
  start of a worker sleeps, and what the other operations and the log tasks do meanwhile is the argument
  \<open>wx_sleep\<close>, which maps a state to the state after the sleep. \<open>None\<close> is the answer of a call that
  panics or does not return.
\<close>

section \<open>State\<close>

record worker_data =
  wd_instance_id :: string
  wd_process :: nat
  wd_pid :: u32
  wd_status :: int
  wd_uds_path :: string
  wd_config_path :: string
  wd_temp_dir :: string
  wd_code_type :: code_type
  wd_logs :: nat
  wd_log_buffer :: nat

text \<open>The texts of the older log interface are shared with the log tasks; a worker holds an index.\<close>

record 'w workerd =
  wk_workers :: "(string \<times> worker_data) list"
  wk_texts :: "string list"
  wk_logs :: log_manager
  wk_world :: 'w

record workerd_config =
  binary_path :: string
  startup_timeout_secs :: u64
  uds_check_interval_ms :: u64
  temp_dir_prefix :: string

record uds_request =
  uq_path :: string
  uq_method :: string
  uq_uri :: string
  uq_headers :: "(string \<times> bytes) list"
  uq_body :: bytes

record uds_response =
  up_status :: u16
  up_headers :: "(string \<times> bytes) list"
  up_body :: "string + bytes"

record 'w workerd_ext =
  wx_config :: workerd_config
  wx_from_utf8 :: "bytes \<Rightarrow> string + string"
  wx_serialize :: "wk_config \<Rightarrow> string + bytes"
  wx_temp_dir :: "string \<Rightarrow> ('w, string, string) call"
  wx_remove_dir :: "string \<Rightarrow> 'w \<Rightarrow> 'w"
  wx_write_file :: "string \<Rightarrow> bytes \<Rightarrow> ('w, string, unit) call"
  wx_version :: "string \<Rightarrow> ('w, string, unit) call"
  wx_spawn :: "string \<Rightarrow> string list \<Rightarrow> string \<Rightarrow> ('w, string, nat \<times> u32 option) call"
  wx_drop_child :: "nat \<Rightarrow> 'w \<Rightarrow> 'w"
  wx_try_wait :: "nat \<Rightarrow> ('w, string, string option) call"
  wx_kill :: "nat \<Rightarrow> ('w, bool \<times> string, unit) call"
  wx_exists :: "string \<Rightarrow> 'w \<Rightarrow> bool"
  wx_connect :: "string \<Rightarrow> ('w, string, unit) call"
  wx_method :: "bytes \<Rightarrow> string + string"
  wx_header_name :: "bytes \<Rightarrow> string + string"
  wx_header_value :: "bytes \<Rightarrow> string + unit"
  wx_build :: "uds_request \<Rightarrow> string + unit"
  wx_send :: "uds_request \<Rightarrow> ('w, string, uds_response) call"
  wx_instant :: "'w \<Rightarrow> nat"
  wx_millis :: "'w \<Rightarrow> nat"
  wx_space :: "char \<Rightarrow> bool"
  wx_debug_secs :: "u64 \<Rightarrow> string"
  wx_sleep :: "nat \<Rightarrow> 'w workerd \<Rightarrow> 'w workerd"

definition workerd_new :: "'w \<Rightarrow> 'w workerd" where
  "workerd_new w = \<lparr>wk_workers = [], wk_texts = [], wk_logs = log_manager_new, wk_world = w\<rparr>"

definition get_worker :: "'w workerd \<Rightarrow> string \<Rightarrow> worker_data option" where
  "get_worker s i = map_of (wk_workers s) i"

definition get_status :: "worker_data \<Rightarrow> worker_status" where
  "get_status wd = status_of_code (wd_status wd)"

definition with_status :: "worker_status \<Rightarrow> worker_data \<Rightarrow> worker_data" where
  "with_status st wd = wd\<lparr>wd_status := status_code st\<rparr>"

definition set_status :: "string \<Rightarrow> worker_status \<Rightarrow> 'w workerd \<Rightarrow> 'w workerd" where
  "set_status i st s = s\<lparr>wk_workers := AList.map_entry i (with_status st) (wk_workers s)\<rparr>"

text \<open>An effect on the world alone.\<close>

definition in_world :: "('w, 'e, 'a) call \<Rightarrow> 'w workerd \<Rightarrow> ('e + 'a) \<times> 'w workerd" where
  "in_world m s = (case m (wk_world s) of (r, w) \<Rightarrow> (r, s\<lparr>wk_world := w\<rparr>))"

definition wk_not_found :: "string \<Rightarrow> string" where
  "wk_not_found i = ''Worker instance not found: '' @ i"

definition wk_not_runnable :: "worker_status \<Rightarrow> string" where
  "wk_not_runnable st = ''Worker is not in a runnable state: '' @ status_text st"

definition wk_internal :: "string \<Rightarrow> string" where
  "wk_internal e = ''Internal error: '' @ e"

section \<open>Logs of a process\<close>

text \<open>The log task of one output: lines with their ends, an empty line at the end, or a read error.\<close>

definition append_text :: "nat \<Rightarrow> string \<Rightarrow> 'w workerd \<Rightarrow> 'w workerd" where
  "append_text k t s = (if k < length (wk_texts s) then s\<lparr>wk_texts := (wk_texts s)[k := wk_texts s ! k @ t]\<rparr> else s)"

definition trim_end :: "(char \<Rightarrow> bool) \<Rightarrow> string \<Rightarrow> string" where
  "trim_end sp t = rev (dropWhile sp (rev t))"

definition log_line_step :: "'w workerd_ext \<Rightarrow> string \<Rightarrow> nat \<Rightarrow> nat \<Rightarrow> string \<Rightarrow> 'w workerd \<Rightarrow> 'w workerd" where
  "log_line_step wx kind k buf line s =
    (let t = kind @ '': '' @ line; s = append_text k t s in
     s\<lparr>wk_logs := buffer_write (wx_instant wx (wk_world s)) (trim_end (wx_space wx) t) buf (wk_logs s)\<rparr>)"

fun log_lines :: "'w workerd_ext \<Rightarrow> string \<Rightarrow> nat \<Rightarrow> nat \<Rightarrow> (string + string) list \<Rightarrow> 'w workerd \<Rightarrow> 'w workerd" where
  "log_lines wx kind k buf [] s = s"
| "log_lines wx kind k buf (Inl e # rs) s = s"
| "log_lines wx kind k buf (Inr l # rs) s = (if l = [] then s
     else log_lines wx kind k buf rs (log_line_step wx kind k buf l s))"

section \<open>Requests over the socket\<close>

definition read_header :: "'w workerd_ext \<Rightarrow> vm_header \<Rightarrow> string + (string \<times> bytes)" where
  "read_header wx h =
    rbind (map_err (\<lambda>e. ''Invalid HTTP request structure: Invalid header name: '' @ e) (wx_header_name wx (str_bytes (vh_key h)))) (\<lambda>n.
    rbind (map_err (\<lambda>e. ''Invalid HTTP request structure: Invalid header value: '' @ e) (wx_header_value wx (vh_value h))) (\<lambda>_.
    Inr (n, vh_value h)))"

definition uds_failed :: "string \<Rightarrow> string \<Rightarrow> string" where
  "uds_failed path e = ''Failed to communicate with worker via UDS '' @ path @ '': '' @ e"

definition make_request :: "'w workerd_ext \<Rightarrow> string \<Rightarrow> vm_http_request \<Rightarrow> string + uds_request" where
  "make_request wx path q =
    rbind (map_err (\<lambda>e. ''Invalid HTTP request structure: Invalid method: '' @ e) (wx_method wx (str_bytes (vr_method q)))) (\<lambda>m.
    rbind (collect (read_header wx) (vr_headers q)) (\<lambda>hs.
    let r = \<lparr>uq_path = path, uq_method = m, uq_uri = vr_uri q, uq_headers = hs, uq_body = vr_body q\<rparr> in
    rbind (map_err (uds_failed path) (wx_build wx r)) (\<lambda>_. Inr r)))"

definition read_response :: "string \<Rightarrow> uds_response \<Rightarrow> string + vm_http_response" where
  "read_response path p = rbind (map_err (uds_failed path) (up_body p)) (\<lambda>b.
     Inr \<lparr>vs_status_code = unat (up_status p), vs_headers = map (\<lambda>(k, v). \<lparr>vh_key = k, vh_value = v\<rparr>) (up_headers p),
          vs_body = b\<rparr>)"

definition invoke_via_uds :: "'w workerd_ext \<Rightarrow> string \<Rightarrow> vm_http_request \<Rightarrow> ('w, string, vm_http_response) call" where
  "invoke_via_uds wx path q =
    io_bind (io_of (make_request wx path q)) (\<lambda>r.
    io_bind (io_map_err (uds_failed path) (wx_send wx r)) (\<lambda>p. io_of (read_response path p)))"

section \<open>Starting\<close>

text \<open>\<open>instance_id[..8]\<close>: \<open>None\<close> where the slice panics, on a short text or inside a character.\<close>

definition continuation_byte :: "char \<Rightarrow> bool" where
  "continuation_byte c \<longleftrightarrow> 128 \<le> (of_char c :: nat) \<and> (of_char c :: nat) < 192"

definition short_id :: "string \<Rightarrow> string option" where
  "short_id i = (if 8 \<le> length i \<and> (8 < length i \<longrightarrow> \<not> continuation_byte (i ! 8)) then Some (take 8 i) else None)"

text \<open>Whether the process of a worker has exited; an error counts as no.\<close>

definition has_exited :: "'w workerd_ext \<Rightarrow> nat \<Rightarrow> 'w workerd \<Rightarrow> bool \<times> 'w workerd" where
  "has_exited wx p s = (case in_world (wx_try_wait wx p) s of (Inr (Some _), s') \<Rightarrow> (True, s') | (_, s') \<Rightarrow> (False, s'))"

definition premature_exit :: "string \<Rightarrow> worker_status \<Rightarrow> string" where
  "premature_exit i st = ''Worker '' @ quoted i @ '' started but exited prematurely with status '' @ status_text st"

definition startup_timeout :: "'w workerd_ext \<Rightarrow> string \<Rightarrow> string" where
  "startup_timeout wx i = ''Worker '' @ quoted i @ '' failed to become ready within ''
     @ wx_debug_secs wx (startup_timeout_secs (wx_config wx))"

definition exit_noticed :: "string \<Rightarrow> 'w workerd \<Rightarrow> (string + string) option \<times> 'w workerd" where
  "exit_noticed i s = (Some (Inl (premature_exit i WsError)), set_status i WsError s)"

text \<open>The socket exists: a last look at the process, 200 ms later.\<close>

definition mark_running :: "'w workerd_ext \<Rightarrow> string \<Rightarrow> 'w workerd \<Rightarrow> (string + string) option \<times> 'w workerd" where
  "mark_running wx i s =
    (case get_worker s i of
       None \<Rightarrow> (Some (Inl (wk_internal (''Worker '' @ i @ '' disappeared from map just before marking Running''))), s)
     | Some wd \<Rightarrow> (case has_exited wx (wd_process wd) s of
         (True, s') \<Rightarrow> exit_noticed i s'
       | (False, s') \<Rightarrow> (Some (Inr i), if get_status wd = WsStarting then set_status i WsRunning s' else s')))"

definition time_out :: "'w workerd_ext \<Rightarrow> string \<Rightarrow> 'w workerd \<Rightarrow> (string + string) option \<times> 'w workerd" where
  "time_out wx i s = (Some (Inl (startup_timeout wx i)),
    (case get_worker s i of None \<Rightarrow> s
     | Some wd \<Rightarrow> (case has_exited wx (wd_process wd) s of (_, s') \<Rightarrow>
         if get_status wd = WsStarting then snd (in_world (wx_kill wx (wd_process wd)) (set_status i WsError s')) else s')))"

definition wait_round ::
  "'w workerd_ext \<Rightarrow> string \<Rightarrow> string \<Rightarrow> nat \<Rightarrow> 'w workerd \<Rightarrow> (string + string) option \<times> 'w workerd" where
  "wait_round wx i uds start s =
    (case get_worker s i of
       None \<Rightarrow> (Some (Inl (wk_internal (''Worker '' @ i @ '' disappeared from map during startup''))), s)
     | Some wd \<Rightarrow> (case has_exited wx (wd_process wd) s of
         (True, s') \<Rightarrow> exit_noticed i s'
       | (False, s') \<Rightarrow>
           if wx_exists wx uds (wk_world s') then mark_running wx i (wx_sleep wx 200 s')
           else if unat (startup_timeout_secs (wx_config wx)) * 1000000000 < wx_instant wx (wk_world s') - start
           then time_out wx i s'
           else (None, wx_sleep wx (unat (uds_check_interval_ms (wx_config wx))) s')))"

partial_function (option) wait_ready ::
  "'w workerd_ext \<Rightarrow> string \<Rightarrow> string \<Rightarrow> nat \<Rightarrow> 'w workerd \<Rightarrow> ((string + string) \<times> 'w workerd) option" where
  "wait_ready wx i uds start s =
    (let (r, s') = wait_round wx i uds start s in
     if r = None then wait_ready wx i uds start s' else Some (the r, s'))"

text \<open>From the temporary directory to the running process; an early return removes the directory.\<close>

definition prepare_files ::
  "'w workerd_ext \<Rightarrow> bytes \<Rightarrow> code_type \<Rightarrow> untrusted_config \<Rightarrow> trusted_config \<Rightarrow> string \<Rightarrow> string \<Rightarrow> string
     \<Rightarrow> ('w, string, nat \<times> u32 option) call" where
  "prepare_files wx code ty uc tc dir uds config_path =
    io_bind (io_of (rbind (build_config (wx_from_utf8 wx) code ty uc tc uds ''main'' ''invoke_socket'')
      (\<lambda>c. map_err (\<lambda>e. ''Failed to serialize Cap'' @ [CHR 0x27] @ ''n Proto config: '' @ e) (wx_serialize wx c)))) (\<lambda>b.
    io_bind (io_map_err (\<lambda>e. ''Failed to write config file: '' @ e) (wx_write_file wx config_path b)) (\<lambda>_.
    io_bind (io_map_err (\<lambda>_. ''Failed to determine workerd binary path'') (wx_version wx (binary_path (wx_config wx)))) (\<lambda>_.
    io_map_err (\<lambda>e. ''Worker process failed to start: '' @ e)
      (wx_spawn wx (binary_path (wx_config wx)) [''serve'', ''-b'', config_path, ''--verbose''] dir))))"

text \<open>Replacing a worker drops it: its process is killed and its directory removed.\<close>

definition drop_worker :: "'w workerd_ext \<Rightarrow> worker_data option \<Rightarrow> 'w \<Rightarrow> 'w" where
  "drop_worker wx old w = (case old of None \<Rightarrow> w
    | Some wd \<Rightarrow> wx_remove_dir wx (wd_temp_dir wd) (wx_drop_child wx (wd_process wd) w))"

definition register_process ::
  "'w workerd_ext \<Rightarrow> string \<Rightarrow> code_type \<Rightarrow> string \<Rightarrow> string \<Rightarrow> string \<Rightarrow> nat \<times> u32 option \<Rightarrow> 'w workerd \<Rightarrow> 'w workerd" where
  "register_process wx i ty dir uds config_path p s =
    (case register_worker i (wk_logs s) of (logs, buf) \<Rightarrow>
     s\<lparr>wk_workers := AList.update i \<lparr>wd_instance_id = i, wd_process = fst p, wd_pid = unwrap_or 0 (snd p),
         wd_status = status_code WsStarting, wd_uds_path = uds, wd_config_path = config_path, wd_temp_dir = dir,
         wd_code_type = ty, wd_logs = length (wk_texts s), wd_log_buffer = buf\<rparr> (wk_workers s),
       wk_texts := wk_texts s @ [[]], wk_logs := logs, wk_world := drop_worker wx (get_worker s i) (wk_world s)\<rparr>)"

definition workerd_start ::
  "'w workerd_ext \<Rightarrow> string \<Rightarrow> bytes \<Rightarrow> untrusted_config \<Rightarrow> trusted_config \<Rightarrow> ('w workerd, string) vm_call" where
  "workerd_start wx i code uc tc s =
    (case detect_code_type (wx_from_utf8 wx) code of Inl e \<Rightarrow> Some (Inl e, s) | Inr ty \<Rightarrow>
     (case in_world (wx_temp_dir wx (temp_dir_prefix (wx_config wx))) s of
       (Inl e, s) \<Rightarrow> Some (Inl (''Failed to create temporary directory: '' @ e), s)
     | (Inr dir, s) \<Rightarrow>
        (case short_id i of None \<Rightarrow> None | Some sid \<Rightarrow>
         let uds = dir @ ''/w-'' @ sid @ ''.sock''; config_path = dir @ ''/config.capnp.bin'' in
         (case in_world (prepare_files wx code ty uc tc dir uds config_path) s of
            (Inl e, s) \<Rightarrow> Some (Inl e, s\<lparr>wk_world := wx_remove_dir wx dir (wk_world s)\<rparr>)
          | (Inr p, s) \<Rightarrow>
              let s = register_process wx i ty dir uds config_path p s in
              wait_ready wx i uds (wx_instant wx (wk_world s)) s))))"

section \<open>The other operations\<close>

definition workerd_stop :: "'w workerd_ext \<Rightarrow> string \<Rightarrow> ('w workerd, unit) vm_call" where
  "workerd_stop wx i s = (case get_worker s i of
      None \<Rightarrow> Some (Inl (wk_not_found i), s)
    | Some wd \<Rightarrow>
        let st = get_status wd in
        if st = WsStarting \<or> st = WsRunning then
          (case in_world (wx_kill wx (wd_process wd)) s of
             (Inl (False, e), s') \<Rightarrow> Some (Inl (wk_internal (''Failed to kill worker '' @ i @ '': '' @ e)), s')
           | (_, s') \<Rightarrow> Some (Inr (), (set_status i WsStopped s')
               \<lparr>wk_logs := terminate_worker_logs (wx_instant wx (wk_world s')) i (wk_logs s')\<rparr>))
        else if st = WsStopped \<or> st = WsError then Some (Inr (), s)
        else if st = WsUnspecified then Some (Inl (wk_not_runnable WsUnspecified), s)
        else None)"

definition running_data :: "'w workerd \<Rightarrow> string \<Rightarrow> string + worker_data" where
  "running_data s i =
    rbind (ok_or (wk_not_found i) (get_worker s i)) (\<lambda>wd.
    if get_status wd \<noteq> WsRunning then Inl (wk_not_runnable (get_status wd)) else Inr wd)"

definition handler_path :: "string \<Rightarrow> string" where
  "handler_path hnd = (if starts_with ''/'' hnd then hnd else ''/'' @ hnd)"

definition event_request :: "string \<Rightarrow> bytes \<Rightarrow> vm_http_request" where
  "event_request hnd payload = \<lparr>vr_method = ''POST'', vr_uri = handler_path hnd,
     vr_headers = [\<lparr>vh_key = ''content-type'', vh_value = str_bytes ''application/octet-stream''\<rparr>], vr_body = payload\<rparr>"

definition workerd_invoke :: "'w workerd_ext \<Rightarrow> string \<Rightarrow> string \<Rightarrow> bytes \<Rightarrow> ('w workerd, bytes) vm_call" where
  "workerd_invoke wx i hnd payload s = (case running_data s i of
      Inl e \<Rightarrow> Some (Inl e, s)
    | Inr wd \<Rightarrow> (case in_world (invoke_via_uds wx (wd_uds_path wd) (event_request hnd payload)) s of
        (r, s') \<Rightarrow> Some (rbind r (\<lambda>p. Inr (vs_body p)), s')))"

definition workerd_invoke_http ::
  "'w workerd_ext \<Rightarrow> string \<Rightarrow> vm_http_request \<Rightarrow> ('w workerd, vm_http_response) vm_call" where
  "workerd_invoke_http wx i q s = (case running_data s i of
      Inl e \<Rightarrow> Some (Inl e, s)
    | Inr wd \<Rightarrow> Some (in_world (invoke_via_uds wx (wd_uds_path wd) q) s))"

definition workerd_attestation :: "bytes \<Rightarrow> ('w workerd, attestation_bundle) vm_call" where
  "workerd_attestation u = vm_return (Inl ''Attestation not supported by workerd VMM'')"

definition workerd_status :: "string \<Rightarrow> ('w workerd, worker_status) vm_call" where
  "workerd_status i s = vm_return (rbind (ok_or (wk_not_found i) (get_worker s i)) (\<lambda>wd. Inr (get_status wd))) s"

definition workerd_list_running :: "('w workerd, string list) vm_call" where
  "workerd_list_running s = vm_return (Inr (map fst (filter (\<lambda>(_, wd). get_status wd = WsRunning) (wk_workers s)))) s"

definition workerd_logs :: "string \<Rightarrow> ('w workerd, string) vm_call" where
  "workerd_logs i s = vm_return (rbind (ok_or (wk_not_found i) (get_worker s i)) (\<lambda>wd.
     Inr (if wd_logs wd < length (wk_texts s) then wk_texts s ! wd_logs wd else []))) s"

definition workerd_stream_logs :: "'w workerd_ext \<Rightarrow> string \<Rightarrow> u32 \<Rightarrow> bool \<Rightarrow> ('w workerd, log_stream) vm_call" where
  "workerd_stream_logs wx i n follow s = map_option (\<lambda>r. (r, s))
     (stream_from_manager (wk_not_found i) (wx_millis wx (wk_world s)) (wk_logs s) i n follow)"

definition probe_worker_internal :: "'w workerd_ext \<Rightarrow> string \<Rightarrow> ('w workerd, worker_status \<times> string) vm_call" where
  "probe_worker_internal wx i s = (case get_worker s i of
      None \<Rightarrow> Some (Inl (wk_not_found i), s)
    | Some wd \<Rightarrow>
        let st = get_status wd in
        (case in_world (wx_try_wait wx (wd_process wd)) s of
           (Inr (Some x), s) \<Rightarrow>
             let st' = (if st \<noteq> WsStopped then WsError else st) in
             Some (Inr (st', ''Process exited with status: '' @ x), if st \<noteq> WsStopped then set_status i WsError s else s)
         | (_, s) \<Rightarrow>
             (case in_world (wx_connect wx (wd_uds_path wd)) s of
                (Inr _, s) \<Rightarrow>
                  Some (Inr (if st = WsStarting then WsRunning else st, ''UDS socket connectable''),
                        if st = WsStarting then set_status i WsRunning s else s)
              | (Inl e, s) \<Rightarrow>
                  Some (Inr (if st \<noteq> WsStarting then WsError else st, ''UDS socket not connectable: '' @ e),
                        if st \<noteq> WsStarting then set_status i WsError s else s))))"

definition workerd_runtime :: "'w workerd_ext \<Rightarrow> ('w workerd, attestation_bundle) vm_runtime" where
  "workerd_runtime wx = \<lparr>rt_start = workerd_start wx, rt_stop = workerd_stop wx, rt_invoke = workerd_invoke wx,
     rt_invoke_http = workerd_invoke_http wx, rt_attestation = workerd_attestation, rt_status = workerd_status,
     rt_list_running = workerd_list_running, rt_logs = workerd_logs, rt_stream_logs = workerd_stream_logs wx,
     rt_probe = probe_worker_internal wx\<rparr>"

section \<open>The runtime keeps the laws\<close>

definition workerd_worker_status :: "'w workerd \<Rightarrow> string \<Rightarrow> worker_status option" where
  "workerd_worker_status s i = map_option get_status (get_worker s i)"

definition workerd_ok :: "'w workerd \<Rightarrow> bool" where
  "workerd_ok s \<longleftrightarrow> distinct (map fst (wk_workers s))"

lemma in_world_frame [simp]:
  "in_world m s = (r, s') \<Longrightarrow> wk_workers s' = wk_workers s"
  "in_world m s = (r, s') \<Longrightarrow> wk_logs s' = wk_logs s"
  "in_world m s = (r, s') \<Longrightarrow> get_worker s' = get_worker s"
  by (auto simp: in_world_def get_worker_def fun_eq_iff split: prod.splits)

lemma get_worker_set_status:
  "get_worker (set_status i st s) j = (if j = i then map_option (with_status st) (get_worker s i)
     else get_worker s j)"
  by (auto simp: get_worker_def set_status_def AList.map_of_map_entry split: option.split)

lemma with_status_simps [simp]:
  "get_status (with_status st wd) = st" "wd_process (with_status st wd) = wd_process wd"
  "wd_log_buffer (with_status st wd) = wd_log_buffer wd" "wd_uds_path (with_status st wd) = wd_uds_path wd"
  by (simp_all add: get_status_def with_status_def)

lemma map_entry_keys: "map fst (AList.map_entry i f xs) = map fst xs"
  by (induction xs) auto

lemma set_status_frame [simp]:
  "wk_logs (set_status i st s) = wk_logs s" "wk_world (set_status i st s) = wk_world s"
  "map fst (wk_workers (set_status i st s)) = map fst (wk_workers s)"
proof -
  show "map fst (wk_workers (set_status i st s)) = map fst (wk_workers s)"
    by (simp add: set_status_def map_entry_keys)
qed (simp_all add: set_status_def)

lemma get_worker_update [simp]:
  "get_worker (s\<lparr>wk_logs := l\<rparr>) = get_worker s" "get_worker (s\<lparr>wk_world := w\<rparr>) = get_worker s"
  by (simp_all add: get_worker_def fun_eq_iff)

lemma running_data_error: "workerd_worker_status s i \<noteq> Some WsRunning \<Longrightarrow> \<exists>e. running_data s i = Inl e"
  by (cases "get_worker s i") (auto simp: running_data_def workerd_worker_status_def)

lemma workerd_stop_ok:
  assumes "workerd_stop wx i s = Some (Inr (), s')"
  shows "map fst (wk_workers s') = map fst (wk_workers s)" "\<exists>wd. get_worker s' i = Some wd \<and> get_status wd \<in> {WsStopped, WsError}"
  using assms
  by (auto simp: workerd_stop_def Let_def get_worker_set_status split: option.splits if_splits prod.splits sum.splits bool.splits)

interpretation workerd: runtime "workerd_runtime wx" workerd_worker_status workerd_ok for wx :: "'w workerd_ext"
proof
  fix s :: "'w workerd" and i
  show "\<exists>e. rt_status (workerd_runtime wx) i s
      = Some ((case workerd_worker_status s i of Some st \<Rightarrow> Inr st | None \<Rightarrow> Inl e), s)"
    by (cases "get_worker s i") (auto simp: workerd_runtime_def workerd_status_def vm_return_def workerd_worker_status_def)
next
  fix s :: "'w workerd"
  assume "workerd_ok s"
  then have "set (map fst (filter (\<lambda>(_, wd). get_status wd = WsRunning) (wk_workers s)))
      = {i. workerd_worker_status s i = Some WsRunning}"
    by (force simp: workerd_ok_def workerd_worker_status_def get_worker_def dest: map_of_SomeD)
  then show "\<exists>ids. rt_list_running (workerd_runtime wx) s = Some (Inr ids, s)
      \<and> set ids = {i. workerd_worker_status s i = Some WsRunning}"
    by (simp add: workerd_runtime_def workerd_list_running_def vm_return_def)
next
  fix s :: "'w workerd" and i hnd p
  assume "workerd_worker_status s i \<noteq> Some WsRunning"
  from running_data_error [OF this] show "\<exists>e. rt_invoke (workerd_runtime wx) i hnd p s = Some (Inl e, s)"
    by (auto simp: workerd_runtime_def workerd_invoke_def)
next
  fix s :: "'w workerd" and i q
  assume "workerd_worker_status s i \<noteq> Some WsRunning"
  from running_data_error [OF this] show "\<exists>e. rt_invoke_http (workerd_runtime wx) i q s = Some (Inl e, s)"
    by (auto simp: workerd_runtime_def workerd_invoke_http_def)
next
  fix s s' :: "'w workerd" and i
  assume "workerd_ok s" "rt_stop (workerd_runtime wx) i s = Some (Inr (), s')"
  then have "workerd_stop wx i s = Some (Inr (), s')" by (simp add: workerd_runtime_def)
  from workerd_stop_ok [OF this] \<open>workerd_ok s\<close> show "workerd_ok s' \<and> workerd_worker_status s' i \<noteq> Some WsRunning"
    by (auto simp: workerd_ok_def workerd_worker_status_def)
qed

section \<open>Statuses only move forward\<close>

fun status_rank :: "worker_status \<Rightarrow> nat" where
  "status_rank WsRunning = 1"
| "status_rank WsStopped = 2"
| "status_rank WsError = 3"
| "status_rank _ = 0"

text \<open>
  From one state to a later one: a worker stays, with a status that is not behind, unless a start has
  replaced it by a worker with a newer log buffer.
\<close>

definition moved :: "nat \<Rightarrow> worker_data \<Rightarrow> worker_data \<Rightarrow> bool" where
  "moved n wd wd' \<longleftrightarrow> n \<le> wd_log_buffer wd' \<or> wd_log_buffer wd' = wd_log_buffer wd \<and> wd_process wd' = wd_process wd
     \<and> status_rank (get_status wd) \<le> status_rank (get_status wd')"

definition buffer_count :: "'w workerd \<Rightarrow> nat" where
  "buffer_count s = length (log_buffers (wk_logs s))"

definition forward :: "'w workerd \<Rightarrow> 'w workerd \<Rightarrow> bool" where
  "forward s s' \<longleftrightarrow> buffer_count s \<le> buffer_count s'
    \<and> (\<forall>i wd. get_worker s i = Some wd \<longrightarrow> (\<exists>wd'. get_worker s' i = Some wd' \<and> moved (buffer_count s) wd wd'))"

lemma moved_refl [simp]: "moved n wd wd"
  by (simp add: moved_def)

lemma moved_trans: "moved n a b \<Longrightarrow> moved m b c \<Longrightarrow> n \<le> m \<Longrightarrow> moved n a c"
  by (auto simp: moved_def)

lemma rank_le_error: "status_rank st \<le> 3"
  by (cases st) simp_all

lemma forward_refl [simp]: "forward s s"
  by (simp add: forward_def)

lemma forward_trans:
  assumes "forward s t" "forward t u"
  shows "forward s u"
  using assms moved_trans unfolding forward_def by (meson order_trans)

lemma forward_same [intro]:
  "get_worker s' = get_worker s \<Longrightarrow> buffer_count s' = buffer_count s \<Longrightarrow> forward s s'"
  by (simp add: forward_def)

lemma forward_world: "in_world m s = (r, s') \<Longrightarrow> forward s s'"
  by (rule forward_same) (simp_all add: buffer_count_def)

lemma forward_set_status:
  "(\<And>wd. get_worker s i = Some wd \<Longrightarrow> status_rank (get_status wd) \<le> status_rank st) \<Longrightarrow> forward s (set_status i st s)"
  by (auto simp: forward_def get_worker_set_status buffer_count_def moved_def)

lemma forward_error [intro]: "forward s (set_status i WsError s)"
  by (rule forward_set_status) (simp add: rank_le_error)

lemma has_exited_frame:
  "has_exited wx p s = (b, s') \<Longrightarrow> get_worker s' = get_worker s \<and> buffer_count s' = buffer_count s"
  by (auto simp: has_exited_def buffer_count_def split: prod.splits sum.splits option.splits)

lemma has_exited_forward: "has_exited wx p s = (b, t) \<Longrightarrow> forward t u \<Longrightarrow> forward s u"
  by (auto dest!: has_exited_frame simp: forward_def)

lemma in_world_forward: "in_world m s = (r, t) \<Longrightarrow> forward t u \<Longrightarrow> forward s u"
  by (rule forward_trans [OF forward_world])

text \<open>The sleeps may do whatever keeps to this rule.\<close>

definition sleep_forward :: "'w workerd_ext \<Rightarrow> bool" where
  "sleep_forward wx \<longleftrightarrow> (\<forall>ms s. forward s (wx_sleep wx ms s))"

lemma mark_running_forward: "forward s (snd (mark_running wx i s))"
proof (cases "get_worker s i")
  case (Some wd)
  obtain b t where t: "has_exited wx (wd_process wd) s = (b, t)" by fastforce
  have "get_worker t = get_worker s" using has_exited_frame [OF t] by simp
  then have "forward t (if get_status wd = WsStarting then set_status i WsRunning t else t)"
    using Some by (auto intro: forward_set_status)
  with t Some show ?thesis
    by (cases b) (auto simp: mark_running_def exit_noticed_def intro!: has_exited_forward [OF t])
qed (simp add: mark_running_def)

lemma time_out_forward: "forward s (snd (time_out wx i s))"
proof (cases "get_worker s i")
  case (Some wd)
  obtain b t where t: "has_exited wx (wd_process wd) s = (b, t)" by fastforce
  obtain r u where u: "in_world (wx_kill wx (wd_process wd)) (set_status i WsError t) = (r, u)" by fastforce
  have "forward t u" by (rule forward_trans [OF forward_error forward_world [OF u]])
  with t u Some show ?thesis by (auto simp: time_out_def intro!: has_exited_forward [OF t])
qed (simp add: time_out_def)

lemma wait_round_forward:
  assumes "sleep_forward wx"
  shows "forward s (snd (wait_round wx i uds start s))"
proof (cases "get_worker s i")
  case (Some wd)
  obtain b t where t: "has_exited wx (wd_process wd) s = (b, t)" by fastforce
  have "forward t (snd (mark_running wx i (wx_sleep wx 200 t)))"
    using assms by (intro forward_trans [OF _ mark_running_forward]) (simp add: sleep_forward_def)
  moreover have "forward t (wx_sleep wx n t)" for n using assms by (simp add: sleep_forward_def)
  ultimately show ?thesis using t Some time_out_forward
    by (cases b) (auto simp: wait_round_def exit_noticed_def intro!: has_exited_forward [OF t])
qed (simp add: wait_round_def)

lemma wait_ready_forward:
  assumes "wait_ready wx i uds start s = Some x" "sleep_forward wx"
  shows "forward s (snd x)"
  using assms
proof (induction rule: wait_ready.raw_induct [rotated, consumes 1, case_names 1])
  case (1 wait wx i uds start s x)
  obtain r t where t: "wait_round wx i uds start s = (r, t)" by fastforce
  have f: "forward s t" using wait_round_forward [OF 1(3), of s i uds start] by (simp add: t)
  show ?case
  proof (cases r)
    case None
    with 1(2) t have "wait wx i uds start t = Some x" by simp
    from forward_trans [OF f 1(1) [OF this 1(3)]] show ?thesis .
  next
    case (Some y)
    with 1(2) t f show ?thesis by auto
  qed
qed

lemma register_process_forward: "forward s (register_process wx i ty dir uds cp p s)"
  by (auto simp: forward_def register_process_def register_worker_def Let_def buffer_count_def get_worker_def update_conv' moved_def)

lemma workerd_start_forward:
  assumes "workerd_start wx i code uc tc s = Some (r, s')" "sleep_forward wx"
  shows "forward s s'"
proof (cases "detect_code_type (wx_from_utf8 wx) code")
  case (Inr ty)
  obtain d t where d: "in_world (wx_temp_dir wx (temp_dir_prefix (wx_config wx))) s = (d, t)" by fastforce
  show ?thesis
  proof (cases d)
    case (Inl e)
    with assms d \<open>detect_code_type _ _ = Inr ty\<close> have "s' = t" by (simp add: workerd_start_def)
    with forward_world [OF d] show ?thesis by simp
  next
    case dir: (Inr dir)
    from assms(1) d dir Inr obtain sid where sid: "short_id i = Some sid" by (auto simp: workerd_start_def split: option.splits)
    define uds where "uds = dir @ ''/w-'' @ sid @ ''.sock''"
    define cp where "cp = dir @ ''/config.capnp.bin''"
    obtain p u where p: "in_world (prepare_files wx code ty uc tc dir uds cp) t = (p, u)" by fastforce
    show ?thesis
    proof (cases p)
      case (Inl e)
      with assms d dir sid p \<open>detect_code_type _ _ = Inr ty\<close> have "s' = u\<lparr>wk_world := wx_remove_dir wx dir (wk_world u)\<rparr>"
        by (auto simp: workerd_start_def uds_def cp_def Let_def)
      then have "forward u s'" by (auto simp: buffer_count_def)
      then show ?thesis by (rule in_world_forward [OF d in_world_forward [OF p]])
    next
      case q: (Inr q)
      let ?v = "register_process wx i ty dir uds cp q u"
      from assms d dir sid p q \<open>detect_code_type _ _ = Inr ty\<close>
      have "wait_ready wx i uds (wx_instant wx (wk_world ?v)) ?v = Some (r, s')"
        by (auto simp: workerd_start_def uds_def cp_def Let_def)
      from wait_ready_forward [OF this assms(2)] have "forward ?v s'" by simp
      then have "forward u s'" by (rule forward_trans [OF register_process_forward])
      then show ?thesis by (rule in_world_forward [OF d in_world_forward [OF p]])
    qed
  qed
qed (use assms in \<open>simp add: workerd_start_def\<close>)

lemma workerd_stop_forward: "workerd_stop wx i s = Some (r, s') \<Longrightarrow> forward s s'"
proof -
  assume stop: "workerd_stop wx i s = Some (r, s')"
  have stopped: "forward s ((set_status i WsStopped t)\<lparr>wk_logs := terminate_worker_logs n i (wk_logs t)\<rparr>)"
    if "in_world m s = (x, t)" "get_worker s i = Some wd" "get_status wd = WsStarting \<or> get_status wd = WsRunning"
    for m :: "('a, bool \<times> string, unit) call" and x t n wd
  proof (rule in_world_forward [OF that(1) forward_trans [OF forward_set_status]])
    fix wd' assume "get_worker t i = Some wd'"
    with that show "status_rank (get_status wd') \<le> status_rank WsStopped" by auto
  next
    show "forward (set_status i WsStopped t) ((set_status i WsStopped t)\<lparr>wk_logs := terminate_worker_logs n i (wk_logs t)\<rparr>)"
      by (rule forward_same) (simp_all add: buffer_count_def terminate_worker_logs_def split: option.split)
  qed
  from stop show ?thesis
    by (auto simp: workerd_stop_def Let_def simp del: in_world_frame
        split: option.splits if_splits prod.splits sum.splits bool.splits intro: stopped forward_world)
qed

lemma probe_forward: "probe_worker_internal wx i s = Some (r, s') \<Longrightarrow> forward s s'"
proof -
  assume probe: "probe_worker_internal wx i s = Some (r, s')"
  show ?thesis
  proof (cases "get_worker s i")
    case (Some wd)
    obtain a t where t: "in_world (wx_try_wait wx (wd_process wd)) s = (a, t)" by fastforce
    obtain b u where u: "in_world (wx_connect wx (wd_uds_path wd)) t = (b, u)" by fastforce
    have up: "forward u (set_status i WsRunning u)" if "get_status wd = WsStarting"
      using that Some in_world_frame(3) [OF t] in_world_frame(3) [OF u] by (intro forward_set_status) simp
    have t_err: "forward s (set_status i WsError t)" by (rule in_world_forward [OF t]) auto
    have u_err: "forward s (set_status i WsError u)" by (rule in_world_forward [OF t in_world_forward [OF u]]) auto
    have u_run: "forward s (set_status i WsRunning u)" if "get_status wd = WsStarting"
      using up [OF that] by (rule in_world_forward [OF t in_world_forward [OF u]])
    have "forward s t" "forward s u"
      using forward_world [OF t] forward_trans [OF forward_world [OF t] forward_world [OF u]] by auto
    with probe Some t u t_err u_err u_run show ?thesis
      by (auto simp: probe_worker_internal_def Let_def split: sum.splits option.splits if_splits)
  qed (use probe in \<open>simp add: probe_worker_internal_def\<close>)
qed

lemma log_lines_forward: "forward s (log_lines wx kind k buf rs s)"
proof (induction wx kind k buf rs s rule: log_lines.induct)
  case (3 wx kind k buf l rs s)
  have "forward s (log_line_step wx kind k buf l s)"
    by (rule forward_same)
      (simp_all add: log_line_step_def append_text_def buffer_write_def buffer_count_def get_worker_def fun_eq_iff Let_def)
  with 3 show ?case by (auto intro: forward_trans)
qed simp_all

section \<open>Steps of the machine\<close>

inductive workerd_step :: "'w workerd_ext \<Rightarrow> 'w workerd \<Rightarrow> 'w workerd \<Rightarrow> bool" for wx where
  step_start: "workerd_start wx i code uc tc s = Some (r, s') \<Longrightarrow> workerd_step wx s s'"
| step_stop: "workerd_stop wx i s = Some (r, s') \<Longrightarrow> workerd_step wx s s'"
| step_invoke: "workerd_invoke wx i hnd p s = Some (r, s') \<Longrightarrow> workerd_step wx s s'"
| step_http: "workerd_invoke_http wx i q s = Some (r, s') \<Longrightarrow> workerd_step wx s s'"
| step_probe: "probe_worker_internal wx i s = Some (r, s') \<Longrightarrow> workerd_step wx s s'"
| step_logs: "workerd_step wx s (log_lines wx kind k buf rs s)"

lemma workerd_step_forward: "workerd_step wx s s' \<Longrightarrow> sleep_forward wx \<Longrightarrow> forward s s'"
proof (induction rule: workerd_step.induct)
  case (step_invoke i hnd p s r s')
  then show ?case by (auto simp: workerd_invoke_def split: sum.splits prod.splits intro: forward_world)
next
  case (step_http i q s r s')
  then show ?case by (auto simp: workerd_invoke_http_def split: sum.splits intro: forward_world)
qed (auto intro: workerd_start_forward workerd_stop_forward probe_forward log_lines_forward)

section \<open>Properties\<close>


text \<open>
  Stopping a worker that starts or runs succeeds only after its process was killed (or had no process
  left to kill); then the worker is Stopped and its logs are those of a terminated worker. A failure to
  kill it is reported and changes nothing but the world.
\<close>

theorem workerd_stop_spec:
  assumes "get_worker s i = Some wd" "get_status wd = WsStarting \<or> get_status wd = WsRunning"
    and "wx_kill wx (wd_process wd) (wk_world s) = (r, w)"
  shows "workerd_stop wx i s = (case r of
      Inl (False, e) \<Rightarrow> Some (Inl (wk_internal (''Failed to kill worker '' @ i @ '': '' @ e)), s\<lparr>wk_world := w\<rparr>)
    | _ \<Rightarrow> Some (Inr (), (set_status i WsStopped (s\<lparr>wk_world := w\<rparr>))
         \<lparr>wk_logs := terminate_worker_logs (wx_instant wx w) i (wk_logs s)\<rparr>))"
  using assms by (auto simp: workerd_stop_def in_world_def Let_def split: sum.split bool.split)

text \<open>
  One failed connection is enough to lose a worker: probing a running worker whose process is alive but
  whose socket refuses a connection marks it as being in error, and from then on stopping it reports
  success and does nothing at all. The process is not killed.
\<close>

theorem probe_then_stop_leaks:
  assumes "get_worker s i = Some wd" "get_status wd = WsRunning" "wx_try_wait wx (wd_process wd) (wk_world s) = (Inr None, w)"
    and "wx_connect wx (wd_uds_path wd) w = (Inl e, w')"
  shows "\<exists>s'. probe_worker_internal wx i s = Some (Inr (WsError, ''UDS socket not connectable: '' @ e), s')
    \<and> wk_world s' = w' \<and> workerd_stop wx i s' = Some (Inr (), s')"
proof -
  let ?s = "set_status i WsError (s\<lparr>wk_world := w'\<rparr>)"
  have "probe_worker_internal wx i s = Some (Inr (WsError, ''UDS socket not connectable: '' @ e), ?s)"
    using assms by (simp add: probe_worker_internal_def in_world_def Let_def)
  moreover have "workerd_stop wx i ?s = Some (Inr (), ?s)"
    using assms(1) by (simp add: workerd_stop_def get_worker_set_status Let_def)
  ultimately show ?thesis by (intro exI [of _ ?s]) simp
qed

text \<open>Clocks that do not run backwards, and sleeps that last as long as asked, in nanoseconds.\<close>

definition clock_runs :: "'w workerd_ext \<Rightarrow> bool" where
  "clock_runs wx \<longleftrightarrow> (\<forall>p w. wx_instant wx w \<le> wx_instant wx (snd (wx_try_wait wx p w)))
    \<and> (\<forall>ms s. wx_instant wx (wk_world s) + ms * 1000000 \<le> wx_instant wx (wk_world (wx_sleep wx ms s)))"

lemma mark_running_some: "mark_running wx i s \<noteq> (None, s')"
  by (simp add: mark_running_def exit_noticed_def split: option.split prod.split bool.split)

lemma has_exited_world: "has_exited wx p s = (b, t) \<Longrightarrow> wk_world t = snd (wx_try_wait wx p (wk_world s))"
  by (cases "wx_try_wait wx p (wk_world s)"; cases "fst (wx_try_wait wx p (wk_world s))")
    (auto simp: has_exited_def in_world_def split: option.splits)

lemma wait_round_again:
  assumes "wait_round wx i uds start s = (None, s')"
  shows "\<exists>p t. has_exited wx p s = (False, t)
    \<and> wx_instant wx (wk_world t) - start \<le> unat (startup_timeout_secs (wx_config wx)) * 1000000000
    \<and> s' = wx_sleep wx (unat (uds_check_interval_ms (wx_config wx))) t"
proof -
  from assms obtain wd where wd: "get_worker s i = Some wd" by (cases "get_worker s i") (auto simp: wait_round_def)
  obtain b t where t: "has_exited wx (wd_process wd) s = (b, t)" by fastforce
  have "\<not> b \<and> wx_instant wx (wk_world t) - start \<le> unat (startup_timeout_secs (wx_config wx)) * 1000000000
      \<and> s' = wx_sleep wx (unat (uds_check_interval_ms (wx_config wx))) t"
    using assms wd t mark_running_some [of wx i _ s']
    by (cases b) (auto simp: wait_round_def exit_noticed_def time_out_def split: if_splits)
  with t show ?thesis by (intro exI [of _ "wd_process wd"] exI [of _ t]) simp
qed

lemma wait_round_progress:
  assumes "clock_runs wx" "0 < uds_check_interval_ms (wx_config wx)" "wait_round wx i uds start s = (None, s')"
  shows "wx_instant wx (wk_world s) \<le> start + unat (startup_timeout_secs (wx_config wx)) * 1000000000"
    "wx_instant wx (wk_world s) < wx_instant wx (wk_world s')"
proof -
  from wait_round_again [OF assms(3)] obtain p t where t: "has_exited wx p s = (False, t)"
    and r: "wx_instant wx (wk_world t) - start \<le> unat (startup_timeout_secs (wx_config wx)) * 1000000000"
      "s' = wx_sleep wx (unat (uds_check_interval_ms (wx_config wx))) t" by blast
  have le: "wx_instant wx (wk_world s) \<le> wx_instant wx (wk_world t)"
    using assms(1) has_exited_world [OF t] by (simp add: clock_runs_def)
  from le r(1) show "wx_instant wx (wk_world s) \<le> start + unat (startup_timeout_secs (wx_config wx)) * 1000000000" by linarith
  have "wx_instant wx (wk_world t) + unat (uds_check_interval_ms (wx_config wx)) * 1000000 \<le> wx_instant wx (wk_world s')"
    using assms(1) unfolding r(2) clock_runs_def by blast
  moreover have "0 < unat (uds_check_interval_ms (wx_config wx))" using assms(2) by (simp add: unat_gt_0 word_neq_0_conv)
  ultimately show "wx_instant wx (wk_world s) < wx_instant wx (wk_world s')" using le by linarith
qed

lemma wait_ready_returns:
  assumes "clock_runs wx" "0 < uds_check_interval_ms (wx_config wx)"
  shows "\<exists>x. wait_ready wx i uds start s = Some x"
proof (induction "Suc (start + unat (startup_timeout_secs (wx_config wx)) * 1000000000) - wx_instant wx (wk_world s)"
    arbitrary: s rule: less_induct)
  case less
  obtain r t where t: "wait_round wx i uds start s = (r, t)" by fastforce
  show ?case
  proof (cases r)
    case None
    from wait_round_progress [OF assms t [unfolded None]] obtain x where "wait_ready wx i uds start t = Some x"
      using less [of t] by fastforce
    then show ?thesis using t None by (subst wait_ready.simps) simp
  qed (use t in \<open>subst wait_ready.simps, simp\<close>)
qed

text \<open>
  Starting a worker returns, whatever its process and the other operations do while it sleeps: within
  the configured timeout if the interval of the checks is not zero. Only a name that cannot be cut after
  eight bytes makes it panic.
\<close>

theorem workerd_start_returns:
  assumes "clock_runs wx" "0 < uds_check_interval_ms (wx_config wx)" "short_id i \<noteq> None"
  shows "\<exists>r s'. workerd_start wx i code uc tc s = Some (r, s')"
  using wait_ready_returns [OF assms(1,2)] assms(3)
  by (auto simp: workerd_start_def Let_def split: sum.split prod.split)

text \<open>
  The workers that the service lists as running are exactly those whose status it answers to be Running.
\<close>

theorem workerd_lists_running:
  assumes "workerd_ok s"
  shows "\<exists>ids. serve_list_running (workerd_runtime wx) s = Some (Inr ids, s)
    \<and> (\<forall>i. i \<in> set ids \<longleftrightarrow> (\<exists>r. serve_worker_status (workerd_runtime wx) i s = Some (Inr (i, r), s) \<and> vy_success r
         \<and> vy_value r = status_code WsRunning))"
  using assms by (rule workerd.listed_iff_running)

section \<open>Witnesses\<close>

definition sample_workerd :: "nat workerd_ext" where
  "sample_workerd = \<lparr>wx_config = \<lparr>binary_path = ''workerd'', startup_timeout_secs = 10, uds_check_interval_ms = 100,
       temp_dir_prefix = ''nxcc-workerd-''\<rparr>,
     wx_from_utf8 = (\<lambda>b. Inr ''export default''), wx_serialize = (\<lambda>_. Inr []), wx_temp_dir = (\<lambda>p n. (Inr ''/tmp'', n)),
     wx_remove_dir = (\<lambda>_. id), wx_write_file = (\<lambda>p b n. (Inr (), n)), wx_version = (\<lambda>p n. (Inr (), n)),
     wx_spawn = (\<lambda>p as d n. (Inr (1, Some 7), n)), wx_drop_child = (\<lambda>_. id), wx_try_wait = (\<lambda>p n. (Inr None, n)),
     wx_kill = (\<lambda>p n. (Inr (), n)), wx_exists = (\<lambda>p n. 1000000 < n), wx_connect = (\<lambda>p n. (Inl ''refused'', n)),
     wx_method = (\<lambda>b. Inr ''POST''), wx_header_name = (\<lambda>b. Inr ''content-type''), wx_header_value = (\<lambda>b. Inr ()),
     wx_build = (\<lambda>_. Inr ()), wx_send = (\<lambda>r n. (Inl ''closed'', n)), wx_instant = id, wx_millis = id,
     wx_space = (\<lambda>c. c = CHR '' ''), wx_debug_secs = (\<lambda>_. ''10s''),
     wx_sleep = (\<lambda>ms s. s\<lparr>wk_world := wk_world s + ms * 1000000\<rparr>)\<rparr>"

definition sample_data :: worker_data where
  "sample_data = \<lparr>wd_instance_id = ''w'', wd_process = 1, wd_pid = 7, wd_status = 2, wd_uds_path = ''/s'', wd_config_path = ''/c'',
     wd_temp_dir = ''/tmp'', wd_code_type = CodeEsModule, wd_logs = 0, wd_log_buffer = 0\<rparr>"

definition sample_workers :: "nat workerd" where
  "sample_workers = \<lparr>wk_workers = [(''w'', sample_data)], wk_texts = [[]],
     wk_logs = fst (register_worker ''w'' log_manager_new), wk_world = 0\<rparr>"

lemma sample_worker_running [simp]:
  "get_worker sample_workers ''w'' = Some sample_data" "get_status sample_data = WsRunning" "wk_world sample_workers = 0"
  by (simp_all add: get_worker_def sample_workers_def sample_data_def get_status_def status_of_code_def)

lemma sample_workerd_simps [simp]:
  "wx_try_wait sample_workerd p n = (Inr None, n)" "wx_kill sample_workerd p n = (Inr (), n)"
  "wx_connect sample_workerd x n = (Inl ''refused'', n)" "wx_instant sample_workerd n = n"
  "wx_sleep sample_workerd ms s = s\<lparr>wk_world := wk_world s + ms * 1000000\<rparr>"
  "uds_check_interval_ms (wx_config sample_workerd) = 100"
  unfolding sample_workerd_def workerd_ext.select_convs workerd_config.select_convs by simp_all

lemma sample_sleep_forward: "sleep_forward sample_workerd"
  by (auto simp: sleep_forward_def buffer_count_def)


theorem workerd_stop_spec_witness:
  "\<exists>s'. workerd_stop sample_workerd ''w'' sample_workers = Some (Inr (), s') \<and> get_worker s' ''w'' = Some (with_status WsStopped sample_data)"
  using workerd_stop_spec [of sample_workers "''w''" sample_data sample_workerd "Inr ()" 0] by (simp add: get_worker_set_status)

theorem probe_then_stop_leaks_witness:
  "\<exists>s'. probe_worker_internal sample_workerd ''w'' sample_workers
      = Some (Inr (WsError, ''UDS socket not connectable: refused''), s') \<and> workerd_stop sample_workerd ''w'' s' = Some (Inr (), s')"
  using probe_then_stop_leaks [of sample_workers "''w''" sample_data sample_workerd 0 "''refused''" 0] by auto

theorem workerd_start_returns_witness:
  "\<exists>r s'. workerd_start sample_workerd ''12345678'' [] \<lparr>uc_userdata_json = [], uc_advanced = []\<rparr>
      \<lparr>tc_secrets = [], tc_limits = None\<rparr> sample_workers = Some (r, s')"
  by (rule workerd_start_returns) (simp_all add: clock_runs_def short_id_def)

theorem workerd_lists_running_witness:
  "\<exists>ids. serve_list_running (workerd_runtime sample_workerd) sample_workers = Some (Inr ids, sample_workers) \<and> ''w'' \<in> set ids"
proof -
  have ok: "workerd_ok sample_workers" by (simp add: workerd_ok_def sample_workers_def)
  have "\<exists>r. serve_worker_status (workerd_runtime sample_workerd) ''w'' sample_workers = Some (Inr (''w'', r), sample_workers)
      \<and> vy_success r \<and> vy_value r = status_code WsRunning"
    by (simp add: serve_worker_status_def answer_def workerd_runtime_def workerd_status_def vm_return_def vm_reply_of_def)
  with workerd_lists_running [OF ok, of sample_workerd] show ?thesis by blast
qed

end
