(* ===== verification/Vm_Client.thy ===== *)
theory Vm_Client
  imports Vm_Server Enclave_Runner
begin

text \<open>
  The client of a VM service (\<open>src/node/vm/base/src/client/mod.rs\<close>) over the handlers of \<open>Vm_Server\<close>, and
  the choice of the server's address (\<open>src/node/vm/base/src/config.rs\<close>).

  A connection is the state of the VM with a test for its failure: \<open>ch s\<close> is the error of a call that
  does not reach the VM. A call that reaches it and does not return has no result, as in \<open>Vm_Server\<close>.
  No handler answers with the status \<open>NotFound\<close>, so every status is the enclave's \<open>GrpcStatus\<close>.
\<close>

section \<open>Calls\<close>

type_synonym 's channel = "'s \<Rightarrow> client_error option"

type_synonym ('s, 'a) client_call = "'s \<Rightarrow> ((client_error + 'a) \<times> 's) option"

fun of_status :: "vm_grpc_status \<Rightarrow> client_error" where
  "of_status (Vm_Server.InvalidArgument m) = GrpcStatus m"
| "of_status (InternalStatus m) = GrpcStatus m"

definition remote ::
  "'s channel \<Rightarrow> ('s \<Rightarrow> ((vm_grpc_status + 'r) \<times> 's) option) \<Rightarrow> ('r \<Rightarrow> client_error + 'a) \<Rightarrow> ('s, 'a) client_call" where
  "remote ch m f s = (case ch s of
      Some e \<Rightarrow> Some (Inl e, s)
    | None \<Rightarrow> map_option (\<lambda>(r, s'). (rbind (map_err of_status r) f, s')) (m s))"

text \<open>The reply of a handler that reports its failures in the message.\<close>

definition reply_value :: "'a vm_reply \<Rightarrow> client_error + 'a" where
  "reply_value y = (if vy_success y then Inr (vy_value y) else Inl (GrpcStatus (vy_error_message y)))"

text \<open>\<open>WorkerStatus::try_from\<close>.\<close>

definition worker_status_try_from :: "int \<Rightarrow> client_error + worker_status" where
  "worker_status_try_from n =
    (if 0 \<le> n \<and> n \<le> 5 then Inr (status_of_code n) else Inl (GrpcStatus ''Invalid worker status received''))"

definition vmc_start_worker ::
  "'s channel \<Rightarrow> ('s, 'b) vm_runtime \<Rightarrow> string \<Rightarrow> bytes \<Rightarrow> untrusted_config \<Rightarrow> trusted_config \<Rightarrow> ('s, string) client_call" where
  "vmc_start_worker ch rt worker_id code uc tc =
    remote ch (serve_start_worker rt \<lparr>sq_worker_id = worker_id, sq_code = code, sq_untrusted = Some uc, sq_trusted = Some tc\<rparr>)
      reply_value"

definition vmc_stop_worker :: "'s channel \<Rightarrow> ('s, 'b) vm_runtime \<Rightarrow> string \<Rightarrow> ('s, unit) client_call" where
  "vmc_stop_worker ch rt i = remote ch (serve_stop_worker rt i) reply_value"

definition vmc_invoke_worker ::
  "'s channel \<Rightarrow> ('s, 'b) vm_runtime \<Rightarrow> string \<Rightarrow> string \<Rightarrow> bytes \<Rightarrow> ('s, bytes) client_call" where
  "vmc_invoke_worker ch rt i hnd payload = remote ch (serve_invoke_worker rt i hnd payload) reply_value"

definition vmc_invoke_http ::
  "'s channel \<Rightarrow> ('s, 'b) vm_runtime \<Rightarrow> string \<Rightarrow> vm_http_request \<Rightarrow> ('s, vm_http_response) client_call" where
  "vmc_invoke_http ch rt i req = remote ch (serve_invoke_http rt i (Some req)) Inr"

definition vmc_get_attestation ::
  "('b \<Rightarrow> 'p) \<Rightarrow> ('p \<Rightarrow> 'b) \<Rightarrow> 's channel \<Rightarrow> ('s, 'b) vm_runtime \<Rightarrow> bytes \<Rightarrow> ('s, 'b) client_call" where
  "vmc_get_attestation to_proto of_proto ch rt u =
    remote ch (serve_get_attestation to_proto rt u) (\<lambda>p. Inr (of_proto p))"

definition vmc_get_worker_status :: "'s channel \<Rightarrow> ('s, 'b) vm_runtime \<Rightarrow> string \<Rightarrow> ('s, worker_status) client_call" where
  "vmc_get_worker_status ch rt i =
    remote ch (serve_worker_status rt i) (\<lambda>(_, y). rbind (reply_value y) worker_status_try_from)"

definition vmc_list_running :: "'s channel \<Rightarrow> ('s, 'b) vm_runtime \<Rightarrow> ('s, string list) client_call" where
  "vmc_list_running ch rt = remote ch (serve_list_running rt) Inr"

definition vmc_get_worker_logs :: "'s channel \<Rightarrow> ('s, 'b) vm_runtime \<Rightarrow> string \<Rightarrow> ('s, string) client_call" where
  "vmc_get_worker_logs ch rt i = remote ch (serve_worker_logs rt i) reply_value"

definition vmc_probe_worker :: "'s channel \<Rightarrow> ('s, 'b) vm_runtime \<Rightarrow> string \<Rightarrow> ('s, worker_status \<times> string) client_call" where
  "vmc_probe_worker ch rt i = remote ch (serve_probe_worker rt i)
     (\<lambda>(n, msg). rbind (worker_status_try_from n) (\<lambda>st. Inr (st, msg)))"

definition vmc_stream_logs ::
  "'s channel \<Rightarrow> ('s, 'b) vm_runtime \<Rightarrow> string \<Rightarrow> u32 \<Rightarrow> bool \<Rightarrow> ('s, log_stream) client_call" where
  "vmc_stream_logs ch rt i n follow = remote ch (serve_stream_logs rt i n follow) Inr"

section \<open>Address of the server\<close>

record vm_server_config =
  sc_mode :: string
  sc_uds_path :: string
  sc_vsock_cid :: u32
  sc_vsock_port :: u32
  sc_tcp_addr :: string

datatype 'a server_config = ServeUds string | ServeVsock u32 u32 | ServeTcp 'a

datatype config_error =
    FeatureNotEnabled string string
  | InvalidSocketAddr string
  | InvalidConfig string

text \<open>The transports that are compiled in.\<close>

record features =
  ft_uds :: bool
  ft_vsock :: bool
  ft_tcp :: bool

definition default_server_mode :: "features \<Rightarrow> string" where
  "default_server_mode ft =
    (if ft_uds ft then ''uds'' else if ft_vsock ft then ''vsock'' else if ft_tcp ft then ''tcp'' else ''none'')"

definition server_config_of ::
  "features \<Rightarrow> (string \<Rightarrow> string + 'a) \<Rightarrow> vm_server_config \<Rightarrow> config_error + 'a server_config" where
  "server_config_of ft parse c =
    (if sc_mode c = ''uds'' then
       if ft_uds ft then Inr (ServeUds (sc_uds_path c)) else Inl (FeatureNotEnabled ''uds'' ''uds'')
     else if sc_mode c = ''vsock'' then
       if ft_vsock ft then Inr (ServeVsock (sc_vsock_cid c) (sc_vsock_port c)) else Inl (FeatureNotEnabled ''vsock'' ''vsock'')
     else if sc_mode c = ''tcp'' then
       if ft_tcp ft then rbind (map_err InvalidSocketAddr (parse (sc_tcp_addr c))) (\<lambda>a. Inr (ServeTcp a))
       else Inl (FeatureNotEnabled ''tcp'' ''tcp'')
     else Inl (InvalidConfig (''Unsupported server mode: '' @ sc_mode c)))"

section \<open>Client and server together\<close>

definition status_err :: "string \<Rightarrow> string + 'a \<Rightarrow> client_error + 'a" where
  "status_err what r = map_err (\<lambda>e. GrpcStatus (what @ e)) r"

lemma reply_value_of [simp]: "reply_value (vm_reply_of d r) = status_err [] r"
  by (cases r) (simp_all add: reply_value_def vm_reply_of_def status_err_def)

lemma internal_error_status [simp]: "map_err of_status (internal_error what r) = status_err what r"
  by (cases r) (simp_all add: internal_error_def status_err_def)

lemma status_try_from_code [simp]: "worker_status_try_from (status_code st) = Inr st"
  by (cases st) (simp_all add: worker_status_try_from_def status_of_code_def)

lemma remote_answer:
  "ch s = None \<Longrightarrow> remote ch (answer m f) g s = map_option (\<lambda>(r, s'). (rbind (map_err of_status (f r)) g, s')) (m s)"
  by (simp add: remote_def answer_def option.map_comp comp_def case_prod_beta split_beta')

lemma status_err_bind [simp]: "rbind (status_err what r) Inr = status_err what r"
  by (cases r) (simp_all add: status_err_def)

lemma status_bind [simp]:
  "rbind (status_err [] (rbind r (\<lambda>st. Inr (status_code st)))) worker_status_try_from = status_err [] r"
  by (cases r) (simp_all add: status_err_def)

lemma probe_bind [simp]:
  "rbind (map_err of_status (rbind (internal_error what r) (\<lambda>(st, m). Inr (status_code st, m))))
     (\<lambda>(n, msg). rbind (worker_status_try_from n) (\<lambda>st. Inr (st, msg))) = status_err what r"
  by (cases r) (auto simp: status_err_def internal_error_def)

lemma serve_invoke_http_some:
  "serve_invoke_http rt i (Some q) = answer (rt_invoke_http rt i q) (internal_error ''HTTP invocation failed: '')"
  by (simp add: serve_invoke_http_def fun_eq_iff)

lemma attestation_bind:
  "(\<And>b. of_proto (to_proto b) = b) \<Longrightarrow> rbind (map_err of_status (rbind (internal_error what r) (\<lambda>b. Inr (to_proto b))))
     (\<lambda>p. Inr (of_proto p)) = status_err what r"
  by (cases r) (simp_all add: status_err_def internal_error_def)


definition sample_runtime :: "(nat, unit) vm_runtime" where
  "sample_runtime = \<lparr>rt_start = (\<lambda>i _ _ _. vm_return (Inr i)), rt_stop = (\<lambda>i. vm_return (Inl (''no worker '' @ i))),
     rt_invoke = (\<lambda>_ _ p. vm_return (Inr p)), rt_invoke_http = (\<lambda>_ _ _. None), rt_attestation = (\<lambda>_. vm_return (Inr ())),
     rt_status = (\<lambda>_. vm_return (Inr WsRunning)), rt_list_running = vm_return (Inr []), rt_logs = (\<lambda>_. vm_return (Inr [])),
     rt_stream_logs = (\<lambda>_ _ _ _. None), rt_probe = (\<lambda>_. vm_return (Inr (WsRunning, [])))\<rparr>"


section \<open>Termination through the client\<close>

text \<open>
  C31: A worker that its VM no longer knows cannot be terminated. When the VM answers the stop with an
  error, the enclave fails and keeps the worker mapped, in this and in every later attempt; its case
  for a worker that is not found is for a status that the VM's service never sends.
\<close>

theorem lost_worker_not_terminated:
  assumes "\<And>s. unknown s \<Longrightarrow> vmc_stop_worker ch rt i s = Some (vm_stop ops s i)"
    and "\<And>s. unknown s \<Longrightarrow> ch s = None \<and> rt_stop rt i s = Some (Inl (e s), f s) \<and> unknown (f s)"
    and "worker_map r i = Some v" "vms r v = Some c" "unknown c"
  shows "let r' = (\<lambda>n. ((\<lambda>r. fst (terminate_worker ops now i r)) ^^ n) r) in
    terminate_worker ops now i (r' n) = (r' (Suc n), Inl (VmConnection (GrpcStatus (e ((f ^^ n) c)))))
    \<and> worker_map (r' n) i = Some v"
proof -
  have stop: "vm_stop ops s i = (Inl (GrpcStatus (e s)), f s)" if "unknown s" for s
    using assms(1,2) [OF that]
    by (simp add: vmc_stop_worker_def serve_stop_worker_def remote_answer) (simp add: status_err_def)
  define g where "g = (\<lambda>r. fst (terminate_worker ops now i r))"
  have step: "terminate_worker ops now i r1 = (r1\<lparr>vms := (vms r1)(v \<mapsto> f c1)\<rparr>, Inl (VmConnection (GrpcStatus (e c1))))"
    if "worker_map r1 i = Some v" "vms r1 v = Some c1" "unknown c1" for r1 c1
    using that by (simp add: terminate_worker_def worker_vm_def call_vm_def stop)
  have "worker_map ((g ^^ n) r) i = Some v \<and> vms ((g ^^ n) r) v = Some ((f ^^ n) c) \<and> unknown ((f ^^ n) c)" for n
    by (induction n) (auto simp: assms g_def step)
  with step [of "(g ^^ n) r" "(f ^^ n) c"] show ?thesis unfolding g_def [symmetric] Let_def
    by (simp add: g_def)
qed

theorem lost_worker_not_terminated_witness:
  "terminate_worker \<lparr>vm_start = \<lambda>c _ _ _ _. (Inr [], c), vm_stop = \<lambda>c i. (Inl (GrpcStatus (''no worker '' @ i)), c),
       vm_invoke = \<lambda>c _ _ p. (Inr p, c), vm_invoke_http = \<lambda>c _ q. (Inr q, c), vm_probe = \<lambda>c _. (Inr (0, []), c),
       vm_logs = \<lambda>c _. (Inr [], c), vm_stream = \<lambda>c _ _ _. (Inr [], c)\<rparr> 0 ''w''
     ((runner_new sample_secrets)\<lparr>vms := [''vm'' \<mapsto> (3::nat)], worker_map := [''w'' \<mapsto> ''vm'']\<rparr>)
   = ((runner_new sample_secrets)\<lparr>vms := [''vm'' \<mapsto> 3], worker_map := [''w'' \<mapsto> ''vm'']\<rparr>,
       Inl (VmConnection (GrpcStatus ''no worker w'')))"
proof -
  let ?ops = "\<lparr>vm_start = \<lambda>c _ _ _ _. (Inr [], c), vm_stop = \<lambda>c i. (Inl (GrpcStatus (''no worker '' @ i)), c),
       vm_invoke = \<lambda>c _ _ p. (Inr p, c), vm_invoke_http = \<lambda>c _ q. (Inr q, c), vm_probe = \<lambda>c _. (Inr (0, []), c),
       vm_logs = \<lambda>c _. (Inr [], c), vm_stream = \<lambda>c _ _ _. (Inr [], c)\<rparr> :: nat vm_ops"
  have "vmc_stop_worker (\<lambda>_. None) sample_runtime ''w'' s = Some (vm_stop ?ops s ''w'')" for s
    by (simp add: vmc_stop_worker_def serve_stop_worker_def remote_answer sample_runtime_def vm_return_def status_err_def)
  from lost_worker_not_terminated [where unknown = "\<lambda>_. True" and e = "\<lambda>_. ''no worker w''" and f = id, OF this, where r = "(runner_new sample_secrets)\<lparr>vms := [''vm'' \<mapsto> 3], worker_map := [''w'' \<mapsto> ''vm'']\<rparr>"
      and v = "''vm''" and c = 3 and now = 0 and n = 0]
  show ?thesis by (simp add: sample_runtime_def vm_return_def terminate_worker_def worker_vm_def call_vm_def)
qed

end
