(* ===== verification/Chainlist.thy ===== *)
theory Chainlist
  imports Daemon_Base "HOL-Library.Product_Lexorder"
begin

text \<open>
  The list of chains and their RPC endpoints (\<open>src/node/chainlist/src\<close>: \<open>lib.rs\<close>, \<open>types.rs\<close>) and the tool
  that curates it (\<open>bin/main.rs\<close>): which URLs are tested, how the answers are scored and ordered, the
  block times, and the files that are written.

  URLs and the calls of RPC providers are parameters. Scores are the integers that the code's floats
  hold exactly. Block times are computed with the operations \<open>float_ops\<close> on floats.
\<close>

section \<open>The library\<close>

record rpc_endpoints =
  re_https :: "string list"
  re_wss :: "string list"

definition endpoints_default :: rpc_endpoints where
  "endpoints_default = \<lparr>re_https = [], re_wss = []\<rparr>"

definition endpoints_empty :: "rpc_endpoints \<Rightarrow> bool" where
  "endpoints_empty e \<longleftrightarrow> re_https e = [] \<and> re_wss e = []"

record 'f chain =
  lc_chain_id :: u64
  lc_name :: string
  lc_rpcs :: rpc_endpoints
  average_block_time_ms :: "u64 option"
  block_time_variance_ms :: "'f option"

text \<open>A later entry of the file replaces an earlier one with its id.\<close>

definition chains_of :: "'f chain list \<Rightarrow> u64 \<rightharpoonup> 'f chain" where
  "chains_of cs = map_of (rev (map (\<lambda>c. (lc_chain_id c, c)) cs))"

datatype rpc_type = Https | Wss

definition get_rpcs_for_chain :: "(u64 \<rightharpoonup> 'f chain) \<Rightarrow> u64 \<Rightarrow> rpc_type \<Rightarrow> string list option" where
  "get_rpcs_for_chain db i ty = (case db i of
      None \<Rightarrow> None
    | Some c \<Rightarrow> let urls = (case ty of Https \<Rightarrow> re_https (lc_rpcs c) | Wss \<Rightarrow> re_wss (lc_rpcs c))
                in if urls = [] then None else Some urls)"

section \<open>Candidates\<close>

record source_rpc =
  sr_url :: string
  sr_tracking :: "string option"

record source_chain =
  so_name :: string
  so_chain_id :: u64
  so_rpc :: "source_rpc list"

record 'u url_ext =
  ux_parse :: "string \<Rightarrow> 'u option"
  ux_scheme :: "'u \<Rightarrow> string"
  ux_set_scheme :: "string \<Rightarrow> 'u \<Rightarrow> 'u option"
  ux_text :: "'u \<Rightarrow> string"

record 'u rpc_task =
  tk_url :: 'u
  tk_tracking :: "string option"

definition http_to_ws_url :: "'u url_ext \<Rightarrow> 'u \<Rightarrow> 'u option" where
  "http_to_ws_url ux u =
    (if ux_scheme ux u = ''http'' then ux_set_scheme ux ''ws'' u
     else if ux_scheme ux u = ''https'' then ux_set_scheme ux ''wss'' u else None)"

text \<open>The tasks so far and the URLs that have been seen, each with its chain.\<close>

type_synonym 'u candidates = "'u rpc_task list \<times> (u64 \<times> string) list"

definition add_task_if_new :: "'u url_ext \<Rightarrow> u64 \<Rightarrow> string option \<Rightarrow> 'u \<Rightarrow> 'u candidates \<Rightarrow> 'u candidates" where
  "add_task_if_new ux i tracking u = (\<lambda>(tasks, seen).
    if (i, ux_text ux u) \<in> set seen then (tasks, seen)
    else (tasks @ [\<lparr>tk_url = u, tk_tracking = tracking\<rparr>], (i, ux_text ux u) # seen))"

definition url_usable :: "string \<Rightarrow> bool" where
  "url_usable s \<longleftrightarrow> \<not> contains_text ''${'' s \<and> (starts_with ''http'' s \<or> starts_with ''ws'' s)"

definition add_rpc :: "'u url_ext \<Rightarrow> u64 \<Rightarrow> source_rpc \<Rightarrow> 'u candidates \<Rightarrow> 'u candidates" where
  "add_rpc ux i r cand =
    (if \<not> url_usable (sr_url r) then cand
     else case ux_parse ux (sr_url r) of
         None \<Rightarrow> cand
       | Some u \<Rightarrow>
           let cand = add_task_if_new ux i (sr_tracking r) u cand
           in (case http_to_ws_url ux u of
                 Some v \<Rightarrow> add_task_if_new ux i (sr_tracking r) v cand
               | None \<Rightarrow> cand))"

definition prepare_rpc_tasks_for_chain :: "'u url_ext \<Rightarrow> source_chain list \<Rightarrow> 'u rpc_task list" where
  "prepare_rpc_tasks_for_chain ux cs =
    fst (fold (\<lambda>c. fold (add_rpc ux (so_chain_id c)) (so_rpc c)) cs ([], []))"

section \<open>Tests\<close>

record 'u rpc_test_result =
  tr_url :: 'u
  tr_protocol :: rpc_type
  tr_block_number :: "u64 option"
  tr_tracking :: "string option"

text \<open>The outcome of a call; a rate limit counts as the block number 1. The error is its lower-case text.\<close>

definition test_rpc :: "string + u64 \<Rightarrow> u64 option" where
  "test_rpc r = (case r of
      Inr block_number \<Rightarrow> Some block_number
    | Inl e \<Rightarrow> if contains_text ''429'' e \<or> contains_text ''too many requests'' e then Some 1 else None)"

definition protocol_of :: "string \<Rightarrow> rpc_type option" where
  "protocol_of scheme =
    (if scheme = ''https'' \<or> scheme = ''http'' then Some Https
     else if scheme = ''wss'' \<or> scheme = ''ws'' then Some Wss else None)"

text \<open>The tasks in the order in which their calls, with the outcomes \<open>call\<close>, are done.\<close>

definition execute_rpc_tests ::
  "'u url_ext \<Rightarrow> ('u \<Rightarrow> string + u64) \<Rightarrow> 'u rpc_task list \<Rightarrow> 'u rpc_test_result list" where
  "execute_rpc_tests ux call tasks = List.map_filter (\<lambda>t. map_option (\<lambda>p.
      \<lparr>tr_url = tk_url t, tr_protocol = p, tr_block_number = test_rpc (call (tk_url t)), tr_tracking = tk_tracking t\<rparr>)
    (protocol_of (ux_scheme ux (tk_url t)))) tasks"

section \<open>Block times\<close>

record 'f float_ops =
  fl_of :: "u64 \<Rightarrow> 'f"
  fl_add :: "'f \<Rightarrow> 'f \<Rightarrow> 'f"
  fl_sub :: "'f \<Rightarrow> 'f \<Rightarrow> 'f"
  fl_mul :: "'f \<Rightarrow> 'f \<Rightarrow> 'f"
  fl_div :: "'f \<Rightarrow> 'f \<Rightarrow> 'f"
  fl_round :: "'f \<Rightarrow> u64"

definition BLOCK_TIME_SAMPLE_SIZE :: u64 where
  "BLOCK_TIME_SAMPLE_SIZE = 20"

fun deltas :: "u64 list \<Rightarrow> u64 list" where
  "deltas (x # y # zs) = (if y > x then (y - x) # deltas (y # zs) else deltas (y # zs))"
| "deltas _ = []"

definition sampled_blocks :: "u64 \<Rightarrow> u64 list" where
  "sampled_blocks latest = map (\<lambda>k. latest - BLOCK_TIME_SAMPLE_SIZE + word_of_nat k) [0 ..< Suc (unat BLOCK_TIME_SAMPLE_SIZE)]"

definition block_time_average :: "'f float_ops \<Rightarrow> u64 list \<Rightarrow> 'f" where
  "block_time_average fl ds = fl_div fl (fl_of fl (sum_list ds)) (fl_of fl (word_of_nat (length ds)))"

definition calculate_block_time_stats ::
  "'f float_ops \<Rightarrow> u64 \<Rightarrow> (u64 \<Rightarrow> u64 option) \<Rightarrow> (u64 \<times> 'f) option" where
  "calculate_block_time_stats fl latest timestamp_of =
    (if latest < BLOCK_TIME_SAMPLE_SIZE then None
     else let ts = sort (List.map_filter timestamp_of (sampled_blocks latest)); ds = deltas ts in
       if length ts < 2 \<or> ds = [] then None
       else let count = fl_of fl (word_of_nat (length ds));
                average = block_time_average fl ds;
                square = (\<lambda>d. fl_mul fl (fl_sub fl (fl_of fl d) average) (fl_sub fl (fl_of fl d) average));
                variance = fl_div fl (foldl (fl_add fl) (fl_of fl 0) (map square ds)) count
            in Some (fl_round fl (fl_mul fl average (fl_of fl 1000)), fl_mul fl variance (fl_of fl 1000000)))"

text \<open>The statistics of the first provider, from the highest block down, that connects and has them.\<close>

definition calculate_block_time_stats_for_chain ::
  "('u rpc_test_result \<Rightarrow> (u64 \<times> 'f) option) \<Rightarrow> ('u rpc_test_result \<times> u64) list \<Rightarrow> (u64 \<times> 'f) option" where
  "calculate_block_time_stats_for_chain stats rs =
    (case List.map_filter (\<lambda>(r, _). stats r) (sort_key (\<lambda>(_, b). - int (unat b)) rs) of x # _ \<Rightarrow> Some x | [] \<Rightarrow> None)"

section \<open>Scoring\<close>

record scored_rpc =
  sd_url :: string
  sd_protocol :: rpc_type
  sd_score :: nat

definition privacy_score :: "string option \<Rightarrow> nat" where
  "privacy_score tracking =
    (if tracking = Some ''none'' then 3 else if tracking = Some ''limited'' then 2
     else if tracking = Some ''unspecified'' \<or> tracking = None then 1 else 0)"

definition up_to_date_score :: "u64 \<Rightarrow> u64 \<Rightarrow> nat" where
  "up_to_date_score max_block block = (if block \<ge> (if max_block < 5 then 0 else max_block - 5) then 1000 else 0)"

definition score_rpc :: "'u url_ext \<Rightarrow> u64 \<Rightarrow> 'u rpc_test_result \<times> u64 \<Rightarrow> scored_rpc" where
  "score_rpc ux max_block = (\<lambda>(r, block).
    \<lparr>sd_url = ux_text ux (tr_url r), sd_protocol = tr_protocol r,
     sd_score = up_to_date_score max_block block + privacy_score (tr_tracking r)\<rparr>)"

definition sort_scored :: "scored_rpc list \<Rightarrow> scored_rpc list" where
  "sort_scored rs = sort_key (\<lambda>r. (- int (sd_score r), sd_url r)) rs"

definition endpoints_of :: "scored_rpc list \<Rightarrow> rpc_endpoints" where
  "endpoints_of rs = \<lparr>re_https = map sd_url (filter (\<lambda>r. sd_protocol r = Https) rs),
     re_wss = map sd_url (filter (\<lambda>r. sd_protocol r = Wss) rs)\<rparr>"

definition successful :: "'u rpc_test_result list \<Rightarrow> ('u rpc_test_result \<times> u64) list" where
  "successful rs = List.map_filter (\<lambda>r. map_option (\<lambda>b. (r, b)) (tr_block_number r)) rs"

definition scored :: "'u url_ext \<Rightarrow> ('u rpc_test_result \<times> u64) list \<Rightarrow> scored_rpc list" where
  "scored ux ok = filter (\<lambda>r. sd_score r > 0) (map (score_rpc ux (Max (set (map snd ok)))) ok)"

record 'f generated_chain = "'f chain" +
  gd_last_updated :: u64

definition process_single_chain_results ::
  "'u url_ext \<Rightarrow> ('u rpc_test_result \<Rightarrow> (u64 \<times> 'f) option) \<Rightarrow> u64 \<Rightarrow> u64 \<Rightarrow> string \<Rightarrow> 'u rpc_test_result list
     \<Rightarrow> 'f generated_chain option" where
  "process_single_chain_results ux stats now i name results =
    (let ok = successful results in
     if ok = [] \<or> scored ux ok = [] then None
     else let st = calculate_block_time_stats_for_chain stats ok
          in Some \<lparr>lc_chain_id = i, lc_name = name, lc_rpcs = endpoints_of (sort_scored (scored ux ok)),
                   average_block_time_ms = map_option fst st, block_time_variance_ms = map_option snd st,
                   gd_last_updated = now\<rparr>)"

section \<open>The run of the tool\<close>

text \<open>
  The files of the output directory by the id in their name, with their content if it parses. A chain is
  processed unless all files are fresh and it has one; a chain without usable answers gets an empty
  entry.
\<close>

type_synonym 'f chain_files = "(u64 \<times> 'f generated_chain option) list"

definition parsed_files :: "'f chain_files \<Rightarrow> 'f generated_chain list" where
  "parsed_files fs = List.map_filter snd fs"

definition are_all_chains_fresh :: "u64 \<Rightarrow> u64 \<Rightarrow> 'f chain_files \<Rightarrow> bool" where
  "are_all_chains_fresh now freshness_secs fs =
    (let oldest = fold (\<lambda>g m. min m (gd_last_updated g)) (parsed_files fs) (- 1)
     in oldest \<noteq> - 1 \<and> (if now < oldest then 0 else now - oldest) < freshness_secs)"

definition empty_chain :: "u64 \<Rightarrow> string \<Rightarrow> u64 \<Rightarrow> 'f generated_chain" where
  "empty_chain i name now = \<lparr>lc_chain_id = i, lc_name = name, lc_rpcs = endpoints_default,
     average_block_time_ms = None, block_time_variance_ms = None, gd_last_updated = now\<rparr>"

definition write_chain_to_file :: "'f generated_chain \<Rightarrow> 'f chain_files \<Rightarrow> 'f chain_files" where
  "write_chain_to_file g fs = (lc_chain_id g, Some g) # filter (\<lambda>f. fst f \<noteq> lc_chain_id g) fs"

text \<open>One chain; \<open>call\<close> and \<open>stats\<close> are what its providers answer.\<close>

definition process_chain ::
  "'u url_ext \<Rightarrow> ('u \<Rightarrow> string + u64) \<Rightarrow> ('u rpc_test_result \<Rightarrow> (u64 \<times> 'f) option) \<Rightarrow> u64 \<Rightarrow> bool
     \<Rightarrow> source_chain list \<Rightarrow> u64 \<Rightarrow> 'f chain_files \<Rightarrow> 'f chain_files" where
  "process_chain ux call stats now fresh cs i fs =
    (let sources = filter (\<lambda>c. so_chain_id c = i) cs; name = so_name (hd sources);
         tasks = prepare_rpc_tasks_for_chain ux sources in
     if fresh \<and> i \<in> fst ` set fs \<or> tasks = [] then fs
     else write_chain_to_file
       (case process_single_chain_results ux stats now i name (execute_rpc_tests ux call tasks) of
         Some g \<Rightarrow> g | None \<Rightarrow> empty_chain i name now) fs)"

definition generate_chains ::
  "'u url_ext \<Rightarrow> ('u \<Rightarrow> string + u64) \<Rightarrow> ('u rpc_test_result \<Rightarrow> (u64 \<times> 'f) option) \<Rightarrow> u64 \<Rightarrow> u64
     \<Rightarrow> source_chain list \<Rightarrow> 'f chain_files \<Rightarrow> 'f chain_files" where
  "generate_chains ux call stats now freshness_hours cs fs =
    (let fresh = are_all_chains_fresh now (freshness_hours * 3600) fs
     in fold (process_chain ux call stats now fresh cs) (sort (remdups (map so_chain_id cs))) fs)"

definition collect_chains_to_file :: "'f chain_files \<Rightarrow> 'f chain list" where
  "collect_chains_to_file fs = sort_key lc_chain_id (map chain.truncate (parsed_files fs))"

section \<open>Block times\<close>

lemma deltas_cons: "sorted (x # ts) \<Longrightarrow> sum_list (deltas (x # ts)) = last (x # ts) - x
    \<and> length (deltas (x # ts)) = card (set (x # ts)) - 1"
proof (induction ts arbitrary: x)
  case (Cons y ts)
  then have s: "sorted (y # ts)" "x \<le> y" by auto
  note ih = Cons.IH [OF s(1)]
  show ?case
  proof (cases "x = y")
    case True
    with ih show ?thesis by simp
  next
    case False
    with s have "y > x" by simp
    moreover have "x \<notin> set (y # ts)" using s False by auto
    moreover have "0 < card (insert y (set ts))" by (simp add: card_gt_0_iff)
    ultimately show ?thesis using ih by (simp add: algebra_simps)
  qed
qed simp

lemma sorted_last_Max: "sorted ts \<Longrightarrow> ts \<noteq> [] \<Longrightarrow> last ts = Max (set ts) \<and> hd ts = Min (set ts)"
proof (induction ts)
  case (Cons x ts)
  have m: "Min (insert x (set ts)) = x" using Cons.prems by (intro Min_eqI) auto
  show ?case
  proof (cases "ts = []")
    case False
    with Cons have "last ts = Max (set ts)" by simp
    moreover have "x \<le> Max (set ts)" using Cons.prems False by (meson Max_ge dual_order.trans last_in_set list.set_intros
        finite_set sorted_simps(2) last_in_set)
    ultimately show ?thesis using m False by (simp add: max_absorb2)
  qed simp
qed simp

text \<open>The timestamps of the sampled blocks that a provider returned.\<close>

definition sampled_times :: "u64 \<Rightarrow> (u64 \<Rightarrow> u64 option) \<Rightarrow> u64 set" where
  "sampled_times latest timestamp_of = {t. \<exists>n \<in> set (sampled_blocks latest). timestamp_of n = Some t}"

lemma set_map_filter_times: "set (List.map_filter f xs) = {t. \<exists>n \<in> set xs. f n = Some t}"
  by (induction xs) (auto simp: List.map_filter_simps split: option.split)

text \<open>
  The block time of a chain is the time between the first and the last of the sampled blocks that the
  provider returned, over the number of different times less one; blocks that are missing or share a
  time are not counted, so that they make the blocks look slower. Fewer than two different times
  give no block time.
\<close>

theorem block_time_is_span:
  assumes "calculate_block_time_stats fl latest timestamp_of = Some (avg, var)"
  shows "let S = sampled_times latest timestamp_of in 2 \<le> card S
    \<and> avg = fl_round fl (fl_mul fl (fl_div fl (fl_of fl (Max S - Min S)) (fl_of fl (word_of_nat (card S - 1)))) (fl_of fl 1000))"
proof -
  define ts where "ts = sort (List.map_filter timestamp_of (sampled_blocks latest))"
  have S: "set ts = sampled_times latest timestamp_of"
    by (simp add: ts_def sampled_times_def set_map_filter_times)
  from assms have l: "\<not> length ts < 2" "deltas ts \<noteq> []"
    "avg = fl_round fl (fl_mul fl (block_time_average fl (deltas ts)) (fl_of fl 1000))"
    by (auto simp: calculate_block_time_stats_def Let_def ts_def split: if_splits)
  then obtain x us where ts: "ts = x # us" by (cases ts) auto
  have sorted: "sorted ts" by (simp add: ts_def)
  with deltas_cons [of x us] ts have d: "sum_list (deltas ts) = last ts - hd ts" "length (deltas ts) = card (set ts) - 1"
    by auto
  from sorted_last_Max [OF sorted] ts have "last ts = Max (set ts)" "hd ts = Min (set ts)" by auto
  moreover from l(2) d(2) have "2 \<le> card (set ts)" by (cases "deltas ts") auto
  ultimately show ?thesis using l(3) d S by (simp add: Let_def block_time_average_def)
qed

definition sample_floats :: "int float_ops" where
  "sample_floats = \<lparr>fl_of = uint, fl_add = (+), fl_sub = (-), fl_mul = (*), fl_div = (div), fl_round = word_of_int\<rparr>"

lemma sample_block_time:
  "calculate_block_time_stats sample_floats 20 (\<lambda>n. Some (if n \<le> 15 then 100 else 160)) = Some (60000, 0)"
  by code_simp

theorem block_time_is_span_witness:
  "2 \<le> card (sampled_times 20 (\<lambda>n. Some (if n \<le> 15 then 100 else 160)))"
  using block_time_is_span [OF sample_block_time] by (simp add: Let_def)

section \<open>Curated endpoints\<close>

lemma set_successful: "set (successful rs) = {(r, b). r \<in> set rs \<and> tr_block_number r = Some b}"
  by (induction rs) (auto simp: successful_def List.map_filter_simps split: option.split)

definition endpoints_for :: "rpc_type \<Rightarrow> rpc_endpoints \<Rightarrow> string list" where
  "endpoints_for ty e = (case ty of Https \<Rightarrow> re_https e | Wss \<Rightarrow> re_wss e)"

lemma endpoints_for_of: "endpoints_for ty (endpoints_of rs) = map sd_url (filter (\<lambda>r. sd_protocol r = ty) rs)"
  by (cases ty) (simp_all add: endpoints_for_def endpoints_of_def)

lemma sorted_split:
  assumes "sorted (map k xs)" "x \<in> set xs" "y \<in> set xs" "k x < k y"
  shows "\<exists>as bs cs. xs = as @ x # bs @ y # cs"
proof -
  from assms(2) obtain as rest where x: "xs = as @ x # rest" by (meson split_list)
  have "y \<notin> set as" using assms(1,4) x by (auto simp: sorted_append)
  with assms(3,4) x have "y \<in> set rest" by auto
  then obtain bs cs where "rest = bs @ y # cs" by (meson split_list)
  with x show ?thesis by blast
qed

lemma process_Some:
  assumes "process_single_chain_results ux stats now i name rs = Some g"
  shows "lc_rpcs g = endpoints_of (sort_scored (scored ux (successful rs)))" "successful rs \<noteq> []"
  using assms by (auto simp: process_single_chain_results_def Let_def split: if_splits)

text \<open>The results that count: an answer near the highest block, or a provider that does not track.\<close>

definition counts :: "'u rpc_test_result list \<Rightarrow> 'u rpc_test_result \<Rightarrow> u64 \<Rightarrow> bool" where
  "counts rs r b \<longleftrightarrow> r \<in> set rs \<and> tr_block_number r = Some b
    \<and> (privacy_score (tr_tracking r) > 0 \<or> (\<forall>r' b'. r' \<in> set rs \<longrightarrow> tr_block_number r' = Some b' \<longrightarrow> unat b' \<le> unat b + 5))"

lemma up_to_date_iff: "up_to_date_score m b > 0 \<longleftrightarrow> unat m \<le> unat b + 5"
proof -
  have "unat (m - 5) = unat m - 5" if "\<not> m < 5" using that by (simp add: unat_sub not_less)
  then show ?thesis by (auto simp: up_to_date_score_def word_le_nat_alt word_less_nat_alt)
qed

lemma max_block_iff:
  assumes "successful rs \<noteq> []"
  shows "unat (Max (snd ` set (successful rs))) \<le> n
    \<longleftrightarrow> (\<forall>r b. r \<in> set rs \<longrightarrow> tr_block_number r = Some b \<longrightarrow> unat b \<le> n)"
proof -
  let ?bs = "snd ` set (successful rs)"
  have "unat (Max ?bs) \<le> n \<longleftrightarrow> (\<forall>b \<in> ?bs. unat b \<le> n)"
  proof
    assume "unat (Max ?bs) \<le> n"
    moreover have "unat b \<le> unat (Max ?bs)" if "b \<in> ?bs" for b
      using Max_ge [OF _ that] by (simp add: word_le_nat_alt)
    ultimately show "\<forall>b \<in> ?bs. unat b \<le> n" by (meson le_trans)
  next
    assume "\<forall>b \<in> ?bs. unat b \<le> n"
    moreover have "Max ?bs \<in> ?bs" using assms by (intro Max_in) auto
    ultimately show "unat (Max ?bs) \<le> n" by blast
  qed
  then show ?thesis by (force simp: set_successful)
qed

lemma set_scored:
  assumes "successful rs \<noteq> []"
  shows "set (scored ux (successful rs)) = score_rpc ux (Max (snd ` set (successful rs))) ` {(r, b). counts rs r b}"
proof -
  define m where "m = Max (snd ` set (successful rs))"
  have k: "(r, b) \<in> set (successful rs) \<and> sd_score (score_rpc ux m (r, b)) > 0 \<longleftrightarrow> counts rs r b" for r b
    using max_block_iff [OF assms, of "unat b + 5"]
    by (auto simp: m_def score_rpc_def up_to_date_iff counts_def set_successful)
  have "set (scored ux (successful rs)) = score_rpc ux m ` {x \<in> set (successful rs). sd_score (score_rpc ux m x) > 0}"
    by (auto simp: scored_def m_def)
  also have "{x \<in> set (successful rs). sd_score (score_rpc ux m x) > 0} = {(r, b). counts rs r b}"
    using k by auto
  finally show ?thesis by (simp add: m_def)
qed

lemma score_rpc_fields [simp]:
  "sd_url (score_rpc ux m (r, b)) = ux_text ux (tr_url r)" "sd_protocol (score_rpc ux m (r, b)) = tr_protocol r"
  "sd_score (score_rpc ux m (r, b)) = up_to_date_score m b + privacy_score (tr_tracking r)"
  by (simp_all add: score_rpc_def)

text \<open>
  C34: The endpoints that are written for a chain are exactly those that answered with a block at most five
  below the highest one or whose provider is not known to track its users; each is listed under its
  kind, better scores come first and equal scores are ordered by the text of the URL.
\<close>

theorem curated_endpoints:
  assumes "process_single_chain_results ux stats now i name rs = Some g"
  shows "set (endpoints_for ty (lc_rpcs g)) = {ux_text ux (tr_url r) | r. \<exists>b. counts rs r b \<and> tr_protocol r = ty}
    \<and> (\<exists>ss. lc_rpcs g = endpoints_of ss \<and> mset ss = mset (scored ux (successful rs))
        \<and> sorted (map (\<lambda>s. (- int (sd_score s), sd_url s)) ss))"
proof -
  let ?ss = "sort_scored (scored ux (successful rs))"
  note g = process_Some [OF assms]
  have "set (endpoints_for ty (lc_rpcs g)) = {ux_text ux (tr_url r) | r. \<exists>b. counts rs r b \<and> tr_protocol r = ty}"
    by (force simp: g(1) endpoints_for_of sort_scored_def set_scored [OF g(2)])
  with g(1) show ?thesis by (auto simp: sort_scored_def intro!: exI [of _ ?ss])
qed

definition sample_urls :: "string url_ext" where
  "sample_urls = \<lparr>ux_parse = Some, ux_scheme = takeWhile (\<lambda>c. c \<noteq> CHR '':''),
     ux_set_scheme = (\<lambda>p u. Some (p @ dropWhile (\<lambda>c. c \<noteq> CHR '':'') u)), ux_text = (\<lambda>u. u)\<rparr>"

definition sample_results :: "string rpc_test_result list" where
  "sample_results = [\<lparr>tr_url = ''wss://a'', tr_protocol = Wss, tr_block_number = Some 10, tr_tracking = None\<rparr>,
     \<lparr>tr_url = ''ws://a'', tr_protocol = Wss, tr_block_number = Some 10, tr_tracking = None\<rparr>,
     \<lparr>tr_url = ''https://b'', tr_protocol = Https, tr_block_number = Some 2, tr_tracking = Some ''yes''\<rparr>]"

definition sample_generated :: "int generated_chain" where
  "sample_generated = \<lparr>lc_chain_id = 1, lc_name = ''n'', lc_rpcs = \<lparr>re_https = [], re_wss = [''ws://a'', ''wss://a'']\<rparr>,
     average_block_time_ms = None, block_time_variance_ms = None, gd_last_updated = 5\<rparr>"

lemma sample_processed:
  "process_single_chain_results sample_urls (\<lambda>_. None) 5 1 ''n'' sample_results = Some sample_generated"
  by code_simp

theorem curated_endpoints_witness:
  "\<exists>r b. counts sample_results r b \<and> tr_protocol r = Wss \<and> ux_text sample_urls (tr_url r) = ''wss://a''"
proof -
  have "''wss://a'' \<in> set (endpoints_for Wss (lc_rpcs sample_generated))"
    by (simp add: endpoints_for_def sample_generated_def)
  with curated_endpoints [OF sample_processed, of Wss] show ?thesis by fastforce
qed

text \<open>
  For equal scores a plain WebSocket endpoint comes before a secure one, although the list is said to
  give the secure ones first: the URLs are compared as texts.
\<close>

theorem plain_before_secure:
  assumes "process_single_chain_results ux stats now i name rs = Some g"
    and "counts rs r b" "tr_protocol r = Wss" "ux_text ux (tr_url r) = ''ws://'' @ h"
    and "counts rs r' b" "tr_protocol r' = Wss" "ux_text ux (tr_url r') = ''wss://'' @ h'"
    and "privacy_score (tr_tracking r) = privacy_score (tr_tracking r')"
  shows "\<exists>xs ys zs. re_wss (lc_rpcs g) = xs @ (''ws://'' @ h) # ys @ (''wss://'' @ h') # zs"
proof -
  let ?ss = "sort_scored (scored ux (successful rs))" and ?m = "Max (snd ` set (successful rs))"
  let ?k = "\<lambda>s. (- int (sd_score s), sd_url s)"
  let ?s = "score_rpc ux ?m (r, b)" and ?s' = "score_rpc ux ?m (r', b)"
  note g = process_Some [OF assms(1)]
  have "?s \<in> set ?ss" "?s' \<in> set ?ss" using assms(2,5) by (auto simp: sort_scored_def set_scored [OF g(2)])
  moreover have "?k ?s < ?k ?s'" using assms(4,7,8) by simp
  moreover have "sorted (map ?k ?ss)" by (simp add: sort_scored_def)
  ultimately obtain as bs cs where ss: "?ss = as @ ?s # bs @ ?s' # cs" using sorted_split by meson
  have "sd_protocol ?s = Wss" "sd_protocol ?s' = Wss" "sd_url ?s = ''ws://'' @ h" "sd_url ?s' = ''wss://'' @ h'"
    using assms(3,4,6,7) by simp_all
  then show ?thesis unfolding g(1) ss endpoints_of_def by auto
qed

theorem plain_before_secure_witness:
  "\<exists>xs ys zs. re_wss (lc_rpcs sample_generated) = xs @ ''ws://a'' # ys @ ''wss://a'' # zs"
proof -
  let ?ws = "\<lparr>tr_url = ''ws://a'', tr_protocol = Wss, tr_block_number = Some 10, tr_tracking = None\<rparr>"
  let ?wss = "\<lparr>tr_url = ''wss://a'', tr_protocol = Wss, tr_block_number = Some 10, tr_tracking = None\<rparr>"
  have c: "counts sample_results ?ws 10" "counts sample_results ?wss 10"
    by (simp_all add: counts_def sample_results_def privacy_score_def)
  show ?thesis
    using plain_before_secure [OF sample_processed c(1) _ _ c(2), of "''a''" "''a''"] by (simp add: sample_urls_def)
qed

end
