(* ===== verification/Spec2Isabelle.thy ===== *)
theory Spec2Isabelle
  imports Daemon_Start Zenroom_Vmm Workerd_Vmm Vm_Binding Chainlist
begin

text \<open>
  Verification of nxcc (\<open>src/node\<close>): a node of the nxcc network runs workers in virtual machines
  and hands them secrets under policies that are evaluated inside enclaves.

  \<^bold>\<open>Parts of the program.\<close> The \<^emph>\<open>daemon\<close> takes work orders, fetches policies and bundles, asks its
  own and other enclaves for secrets, starts workers and delivers events to them (launch, schedule,
  web3 logs). The \<^emph>\<open>enclave\<close> keeps secrets, verifies attestations of other enclaves, executes policies
  through policy workers and runs workers on attached VMs. A \<^emph>\<open>VM\<close> is a service that starts, stops and
  invokes workers; there are two, one over workerd processes and one over the Zenroom binary. The
  library of \<^emph>\<open>attestation\<close> parses TDX quotes, binds user data to them and proves freshness through
  recent blocks. The \<^emph>\<open>interface\<close> crate holds the shared types and their conversions to the wire. The
  daemon calls the enclave over gRPC, the enclave calls the VMs over gRPC.

  \<^bold>\<open>Theories and what their lemmas show.\<close>
  \<^item> \<open>Prelude\<close>: results, little-endian integers, slices, and locales shared by the components (readers
    of binary formats, codecs, machines with an invariant, machines that only grow); \<open>World_Calls\<close>: calls on
    a world outside the program.
  \<^item> \<open>Interface_Types\<close>, \<open>Worker_Types\<close> (\<open>interface/src/types\<close>), \<open>Operator_Signature\<close>: the types, their
    conversions with every error, round trips, and where a round trip loses something.
  \<^item> \<open>Tdx_Quote\<close>, \<open>Tdx_Simulator\<close> (\<open>attestation/src/tdx\<close>): the readers against the layout as the
    reference; bounds of the readers; simulated quotes are parsed.
  \<^item> \<open>Freshness\<close> (\<open>attestation/src/freshness.rs\<close>): soundness of proofs over a collision-free hash, and
    the lists of blocks that have one root.
  \<^item> \<open>Attestation\<close> (\<open>attestation/src/lib.rs\<close>, the providers, \<open>enclave/src/attestation.rs\<close>): what an
    accepted attestation says of its user data.
  \<^item> \<open>Crypto_Box\<close> (\<open>enclave/src/crypto.rs\<close>): the sealed box is opened by its recipient only.
  \<^item> \<open>Enclave_Secrets\<close> (\<open>enclave/src/secrets/mod.rs\<close>): what may enter and leave the store, where
    authorizations come from, and that no secret returns to an older generation.
  \<^item> \<open>Enclave_Runner\<close> (\<open>enclave/src/runner\<close>): the maps of VMs and workers agree in every reachable
    state; the queue of events; the contexts that a policy grants.
  \<^item> \<open>Enclave_Grpc\<close>, \<open>Enclave_Client\<close> (\<open>enclave/src/grpc.rs\<close>, \<open>daemon/src/grpc/enclave_client.rs\<close>): the
    handlers and the daemon's client; a call through both equals the call of the component.
  \<^item> \<open>Worker_Logs\<close> (\<open>vm/base/src/logging.rs\<close>): bounds and contents of the log buffers.
  \<^item> \<open>Gateways\<close> (\<open>daemon/src/web3\<close>), \<open>Daemon_Policy\<close> (\<open>daemon/src/policy.rs\<close>), \<open>Daemon_Runner\<close>
    (\<open>daemon/src/services/runner.rs\<close>), \<open>Daemon_Base\<close> (\<open>daemon/src/error.rs\<close> and texts).
  \<^item> \<open>Daemon_Secrets\<close> (\<open>daemon/src/services/secrets.rs\<close>): every request for secrets is answered once.
  \<^item> \<open>Scheduler\<close> (\<open>daemon/src/services/scheduler.rs\<close>): the heap refines a multiset of due events.
  \<^item> \<open>Daemon_Orders\<close> (\<open>daemon/src/services/work_order_orchestrator.rs\<close> and the delivery tasks of
    \<open>main.rs\<close>): from a submitted envelope to the running worker and its events.
  \<^item> \<open>Daemon_Http\<close> (\<open>daemon/src/http_server.rs\<close>): the registries, the API and the forwarding of requests
    to workers, from the daemon through the enclave to the VM. \<open>Daemon_Network\<close> (\<open>daemon/src/network.rs\<close>):
    the gossip between nodes and the loop that serves it. \<open>Daemon_Start\<close> (\<open>daemon/src/identity.rs\<close>,
    \<open>grpc/mod.rs\<close>, \<open>main.rs\<close>): what the daemon does until its tasks run.
  \<^item> \<open>Vm_Server\<close> (\<open>vm/base/src/server/mod.rs\<close>): the trait \<open>VmRuntime\<close> as a record of operations, the gRPC
    handlers over it, and the locale \<open>runtime\<close> of its laws, which \<open>Zenroom_Vmm\<close> and \<open>Workerd_Vmm\<close>
    interpret; \<open>Json_Values\<close>: JSON trees. \<open>Vm_Client\<close> (\<open>vm/base/src/client/mod.rs\<close>): client and server
    together are the runtime. \<open>Vm_Binding\<close> (\<open>binding.rs\<close>, \<open>tls.rs\<close>, \<open>run_vm_server\<close>): who may call a VM, with
    the interleaving of requests as a step relation.
  \<^item> \<open>Zenroom_Input\<close>, \<open>Zenroom_Exec\<close>, \<open>Zenroom_Postback\<close>, \<open>Zenroom_Vmm\<close> (\<open>vm/zenroom/src\<close>): the input of a
    run and the injection of secrets, the select loop around the process, the requests made after a
    run with the operator's rules for them, and the VM as a whole.
  \<^item> \<open>Workerd_Config\<close>, \<open>Workerd_Vmm\<close> (\<open>vm/workerd/src\<close>): the configuration of a process, and the VM
    with its loop that waits for the process to be ready.
  \<^item> \<open>Chainlist\<close> (\<open>chainlist/src\<close>): the endpoints of the chains and the tool that curates them.
  This theory holds the properties that span the enclave's components.

  \<^bold>\<open>How states and operations correspond.\<close> A struct is a \<open>record\<close>, an enum a \<open>datatype\<close>, an operation a
  function from a state to a result and a state, with one branch per branch of the code; error results
  are \<open>Inl\<close>. A call under a lock is one step; background tasks, timers and incoming messages are steps
  of their own, and invariants hold after every sequence of steps. A call that awaits another task is
  split at the wait. Where the code sleeps (\<open>Workerd_Vmm\<close>) what the others do meanwhile is an argument.
  \<open>u64\<close> and the other integers are words and wrap; \<open>usize\<close> is \<open>nat\<close>; texts are lists of bytes in \<open>char\<close>.
  A map whose order of traversal matters is given with that order. A panic is \<open>AppPanic\<close> in the daemon and
  \<open>None\<close> in a VM, where \<open>None\<close> also stands for a call that never answers.

  \<^bold>\<open>Code outside the repository\<close> (ciphers, hashes, signatures, JSON, CBOR and Cap'n Proto, base64, URL
  parsing, HTTP, DNS, RPC providers, processes, files, the swarm, certificates, clocks, randomness) is fields of records named
  \<open>..._ext\<close> or arguments. Laws that a property needs of it (decryption inverts encryption, a clock does not
  run backwards) are its premises, and its witness instantiates them.

  \<^bold>\<open>Bounds and fuel.\<close> There is no fuel. Loops are recursions with a proof of termination, runs over
  lists of events, or, for the wait of \<open>Workerd_Vmm\<close>, a partial function whose return is a theorem.

  \<^bold>\<open>Not modelled.\<close> The generated wire encoding; command lines and their defaults (\<open>config.rs\<close>, the \<open>main.rs\<close>
  of enclave and VMs); what libraries do behind their calls: TLS, sockets, HTTP routing and framing,
  the libp2p swarm; the TDX device files; test doubles (\<open>mock_service.rs\<close>, \<open>client/mock.rs\<close>); the
  benchmarks; log output.
\<close>

section \<open>Secrets between enclaves\<close>

lemma store_packed_present:
  assumes "x = (sid, d, e, g)" "unexpired now e"
  shows "\<exists>y. fst (store_packed now acc x) sid = Some y \<and> g \<le> ss_generation y"
proof -
  obtain m n where acc: "acc = (m, n)" by fastforce
  have ne: "\<not> (e \<noteq> 0 \<and> e \<le> now)" using assms(2) by (auto simp: unexpired_def)
  show ?thesis using ne
    by (cases "m sid") (auto simp: acc assms(1) store_packed_def Let_def)
qed

lemma store_all_present:
  assumes "(sid, d, e, g) \<in> set xs" "unexpired now e"
  shows "\<exists>y. fst (foldl (store_packed now) acc xs) sid = Some y \<and> g \<le> ss_generation y"
  using assms(1)
proof (induction xs arbitrary: acc)
  case (Cons x xs)
  let ?a = "store_packed now acc x"
  show ?case
  proof (cases "(sid, d, e, g) \<in> set xs")
    case True
    then show ?thesis using Cons.IH [of ?a] by simp
  next
    case False
    with Cons.prems have x: "x = (sid, d, e, g)" by auto
    from store_packed_present [OF x assms(2), of acc] obtain y where
      y: "fst ?a sid = Some y" "g \<le> ss_generation y" by blast
    have "storage_le (fst ?a) (fst (foldl (store_packed now) ?a xs))" using store_all by blast
    then obtain z where "fst (foldl (store_packed now) ?a xs) sid = Some z"
      "z = y \<or> ss_generation y < ss_generation z" using y(1) by (rule storage_leD)
    with y(2) show ?thesis by (intro exI [of _ z]) auto
  qed
qed simp

lemma put_box_present:
  assumes v: "vfy 0 (er_attestation env) = Inr c"
    and acc: "accept_bundle cx ax now s ((box, env, ci), detached_userdata (er_attestation env)) = Some xs"
    and x: "(sid, d, e, g) \<in> set xs" "unexpired now e"
  shows "\<exists>y. secrets_storage (fst (put_secrets cx ax now vfy [(box, env, ci)] s)) sid = Some y
    \<and> g \<le> ss_generation y"
proof -
  obtain m n where f: "foldl (store_packed now) (secrets_storage s, 0) xs = (m, n)" by fastforce
  from store_all_present [OF x, of "(secrets_storage s, 0)"] show ?thesis
    unfolding put_single [where vfy = vfy, OF v] by (simp add: acc f)
qed

text \<open>
  C1: Transfer between two enclaves: when \<open>A\<close> releases a box for \<open>B\<close>'s attested key and \<open>B\<close> verifies
  \<open>A\<close>'s report, finds \<open>A\<close>'s key in it and has authorized \<open>A\<close> for every identifier in the box, then
  after \<open>put_secrets\<close> \<open>B\<close> holds every requested secret that \<open>A\<close> stores, has authorized for \<open>B\<close> and
  that has not expired for either, in a generation at least as new as \<open>A\<close>'s.
\<close>

theorem secret_transfer:
  assumes cc: "crypto_correct cx" and n: "length nonce = 12"
    and A: "kx_keypair_of sA = kx_from_secret cx a" and B: "kx_keypair_of sB = kx_from_secret cx b"
    and uB: "auth_userdata ax (detached_userdata (er_attestation envB)) = Inr u"
      "ephemeral_public_key u = x25519_public cx b"
    and get: "get_secrets cx ax nowA vfyA nonce sA rs envB = Inr box"
    and vB: "vfyB 0 (er_attestation envA) = Inr claims"
    and uA: "auth_userdata ax (detached_userdata (er_attestation envA)) = Inr u'"
      "ephemeral_public_key u' = x25519_public cx a"
    and authB: "\<And>sid. sid \<in> set (contained_secret_ids box) \<Longrightarrow>
      check_authorization ax nowB sB (er_attestation envA) sid ci"
    and req: "(sid, cr) \<in> set rs" "check_authorization ax nowA sA (er_attestation envB) sid cr"
    and st: "secrets_storage sA sid = Some x" "unexpired nowA (ss_expiry x)"
      "unexpired nowB (ss_expiry x)"
  shows "\<exists>y. secrets_storage (fst (put_secrets cx ax nowB vfyB [(box, envA, ci)] sB)) sid = Some y
    \<and> ss_generation x \<le> ss_generation y"
proof -
  let ?xs = "collect_packed ax nowA sA (er_attestation envB) rs"
  have dec: "decrypt_secrets_box cx (kx_keypair_of sB) box = Inr ?xs"
    unfolding B by (rule get_secrets_contents [OF cc n A uB get])
  have snd_key: "sender_public_key box = x25519_public cx a"
    using get A by (auto simp: get_secrets_Inr_iff encrypt_Inr_iff kx_from_secret_def)
  have acc: "accept_bundle cx ax nowB sB ((box, envA, ci), detached_userdata (er_attestation envA)) = Some ?xs"
    unfolding accept_bundle_Some_iff using uA snd_key dec authB by (auto simp: list_all_iff)
  have mem: "(sid, ss_data x, ss_expiry x, ss_generation x) \<in> set ?xs"
    using req st unfolding collect_packed_iff by blast
  show ?thesis by (rule put_box_present [where vfy = vfyB, OF vB acc mem st(3)])
qed

text \<open>
  Two sample enclaves: \<open>A\<close> (secret key 2, whose policy approved the key 1) stores the sample secret,
  \<open>B\<close> (secret key 1, whose policy approved the key 2) stores nothing.
\<close>

definition enclave_A :: secrets where
  "enclave_A = store_authorization sample_auth (sample_policy_report [1]) sample_secrets"

definition enclave_B :: secrets where
  "enclave_B = store_authorization sample_auth (sample_policy_report [2])
     (secrets_new (kx_from_secret sample_cx [1]))"

lemma enclave_A_simps:
  "kx_keypair_of enclave_A = kx_from_secret sample_cx [2]"
  "secrets_storage enclave_A sample_sid = Some \<lparr>ss_data = [42], ss_expiry = 0, ss_generation = 7\<rparr>"
  by (simp_all add: enclave_A_def sample_secrets_def)

lemma enclave_B_simps:
  "kx_keypair_of enclave_B = kx_from_secret sample_cx [1]"
  "check_authorization sample_auth 200 enclave_B (er_attestation (sample_env_report [2])) sample_sid
     sample_consumer"
  by (simp_all add: enclave_B_def secrets_new_def check_authorization_def store_authorization_def
      sample_simps Let_def user_data_new_def)

lemma sample_userdata:
  "auth_userdata sample_auth (detached_userdata (er_attestation (sample_env_report k)))
     = Inr (user_data_new (pad32 k) [])"
  by (simp add: sample_auth_def sample_env_report_def)

lemma sample_public: "ephemeral_public_key (user_data_new (pad32 k) []) = x25519_public sample_cx k"
  by (simp add: user_data_new_def sample_cx_def sample_crypto_def)

lemma enclave_A_packs:
  "collect_packed sample_auth 200 enclave_A (er_attestation (sample_env_report [1]))
     [(sample_sid, sample_consumer)] = [sample_secret]"
  using sample_granted enclave_A_simps(2)
  by (simp add: enclave_A_def unexpired_def sample_sid_def sample_secret_def)

lemma enclave_A_releases:
  "\<exists>box. get_secrets sample_cx sample_auth 200 sample_verifier (replicate 12 0) enclave_A
     [(sample_sid, sample_consumer)] (sample_env_report [1]) = Inr box
     \<and> contained_secret_ids box = [sample_sid]"
proof -
  have "\<exists>box. encrypt_secrets_box sample_cx (replicate 12 0) (kx_from_secret sample_cx [2])
      (pad32 [1]) [sample_secret] = Inr box \<and> contained_secret_ids box = [sample_sid]"
    by (simp add: encrypt_Inr_iff sample_cx_def sample_crypto_def sample_secret_def sample_sid_def)
  then show ?thesis
    unfolding get_secrets_Inr_iff enclave_A_packs enclave_A_simps(1) sample_userdata
    by (auto simp: sample_verifier_def user_data_new_def)
qed

theorem secret_transfer_witness:
  "\<exists>box y. secrets_storage (fst (put_secrets sample_cx sample_auth 200 sample_verifier
      [(box, sample_env_report [2], sample_consumer)] enclave_B)) sample_sid = Some y
    \<and> 7 \<le> ss_generation y"
proof -
  from enclave_A_releases obtain box where
    box: "get_secrets sample_cx sample_auth 200 sample_verifier (replicate 12 0) enclave_A
     [(sample_sid, sample_consumer)] (sample_env_report [1]) = Inr box"
    and ids: "contained_secret_ids box = [sample_sid]" by blast
  have v: "sample_verifier 0 b = Inr (create_null_claims (pe_draws sample_env) [])" for b
    by (simp add: sample_verifier_def)
  have "\<exists>y. secrets_storage (fst (put_secrets sample_cx sample_auth 200 sample_verifier
      [(box, sample_env_report [2], sample_consumer)] enclave_B)) sample_sid = Some y
    \<and> ss_generation \<lparr>ss_data = [42], ss_expiry = 0, ss_generation = 7\<rparr> \<le> ss_generation y"
    by (rule secret_transfer [where vfyB = sample_verifier, OF sample_cx_correct _ enclave_A_simps(1)
          enclave_B_simps(1) sample_userdata [of "[1]"] sample_public [of "[1]"] box v
          sample_userdata [of "[2]"] sample_public [of "[2]"] _ _ _ enclave_A_simps(2)])
      (use ids enclave_B_simps(2) sample_granted in \<open>auto simp: enclave_A_def unexpired_def\<close>)
  then show ?thesis by auto
qed

section \<open>From a policy to a released secret\<close>



section \<open>Attested senders\<close>

text \<open>The enclave's own attestation service as the verifier of the secrets service.\<close>

definition platform_verifier ::
  "'c att_ext \<Rightarrow> provider_env \<Rightarrow> (nat \<Rightarrow> u64) \<Rightarrow> 'g gateway \<Rightarrow> (nat \<Rightarrow> 'g) \<Rightarrow> freshness_config
     \<Rightarrow> tdx_interface \<Rightarrow> verifier" where
  "platform_verifier ext env nows gw gs cfg i k b =
     verify_attestation ext (node_provider_ops ext env) (nows k) gw (gs k) (platform_service cfg i) b"

text \<open>
  C3: The chain of trust behind a stored secret: with the enclave's own attestation service, a secret
  changes only through a box whose 32-byte sender key is the ephemeral key in user data that the
  attestation evidence binds by its SHA-256 hash: the null evidence (together with the key itself)
  or the report data of a TD report accepted by dcap-qvl.
\<close>

theorem stored_secret_attested:
  assumes ud: "auth_userdata ax = userdata_from_cbor ext"
    and ch: "secrets_storage (fst (put_secrets cx ax now
          (platform_verifier ext env nows gw gs cfg i) bs s)) sid \<noteq> secrets_storage s sid"
  shows "\<exists>box report ci u. (box, report, ci) \<in> set bs
    \<and> userdata_from_cbor ext (detached_userdata (er_attestation report)) = Inr u
    \<and> ephemeral_public_key u = sender_public_key box \<and> length (sender_public_key box) = 32
    \<and> ((platform_type (ab_raw (er_attestation report)) = ''null''
         \<and> (\<exists>ev. evidence_from_json ext (evidence (ab_raw (er_attestation report))) = Inr ev
              \<and> ne_userdata_hash ev = sha256 ext (detached_userdata (er_attestation report))
              \<and> ne_ephemeral_key ev = sender_public_key box))
       \<or> (platform_type (ab_raw (er_attestation report)) = ''tdx''
         \<and> (\<exists>col kind status r. dcap_verify ext (evidence (ab_raw (er_attestation report))) col
                (cd_now (pe_draws env)) = Inr (kind, status) \<and> report_of kind = Some r
              \<and> take 32 (dr_report_data r) = sha256 ext (detached_userdata (er_attestation report)))))"
proof -
  from put_secrets_changed [OF ch] obtain box report ci u xs j c where
    b: "(box, report, ci) \<in> set bs"
    and v: "platform_verifier ext env nows gw gs cfg i j (er_attestation report) = Inr c"
    and u: "userdata_from_cbor ext (detached_userdata (er_attestation report)) = Inr u"
      "ephemeral_public_key u = sender_public_key box"
    and d: "decrypt_secrets_box cx (kx_keypair_of s) box = Inr xs"
    unfolding ud by blast
  have len: "length (sender_public_key box) = 32"
    using d by (auto simp: decrypt_secrets_box_def Let_def split: if_splits)
  from platform_verify_Inr [OF v [unfolded platform_verifier_def]]
  have cases: "(platform_type (ab_raw (er_attestation report)) = ''null''
         \<and> null_verify_attestation ext (pe_draws env) (er_attestation report) = Inr (Verified c))
       \<or> (platform_type (ab_raw (er_attestation report)) = ''tdx''
         \<and> tdx_verify_attestation ext (pe_pccs_url env) (cd_now (pe_draws env)) (pe_order env)
             (er_attestation report) = Inr (Verified c))" by blast
  have n: "\<exists>ev. evidence_from_json ext (evidence (ab_raw (er_attestation report))) = Inr ev
              \<and> ne_userdata_hash ev = sha256 ext (detached_userdata (er_attestation report))
              \<and> ne_ephemeral_key ev = sender_public_key box"
    if "null_verify_attestation ext (pe_draws env) (er_attestation report) = Inr (Verified c)"
    using that u by (auto simp: null_verified_iff hash_userdata_def)
  have t: "\<exists>col kind status r. dcap_verify ext (evidence (ab_raw (er_attestation report))) col
                (cd_now (pe_draws env)) = Inr (kind, status) \<and> report_of kind = Some r
              \<and> take 32 (dr_report_data r) = sha256 ext (detached_userdata (er_attestation report))"
    if tdx: "tdx_verify_attestation ext (pe_pccs_url env) (cd_now (pe_draws env)) (pe_order env)
             (er_attestation report) = Inr (Verified c)"
  proof -
    from tdx obtain q where
      q: "verify_with_dcap_qvl ext (pe_pccs_url env) (cd_now (pe_draws env))
            (evidence (ab_raw (er_attestation report))) = Inr q"
      "take 32 (tc_report_data q) = sha256 ext (detached_userdata (er_attestation report))"
      by (auto simp: tdx_verified_iff hash_userdata_def)
    then show ?thesis by (auto simp: verify_with_dcap_qvl_Inr_iff, blast)
  qed
  from b u len cases n t show ?thesis by blast
qed

text \<open>
  A simulated TDX quote for the hash of the user data passes the TDX provider: if dcap-qvl accepts
  the quote and reports the report data that the parser finds in it, the binding check succeeds and
  verification returns the claims of that report.
\<close>

theorem simulated_tdx_attestation_verifies:
  assumes wf: "draws_wf d" "length (sim_mrtd cfg) = 48" "sim_quote_version cfg = 4"
    and sha: "length (sha256 ext ud) = 32"
    and gen: "tdx_generate_attestation \<lparr>hw_available = True,
         hw_generate_quote = (\<lambda>rd. map_err txt (simulator_generate_quote cfg d rd))\<rparr> (sha256 ext ud) = Inr raw"
    and col: "get_collateral ext url (evidence raw) = Inr col"
    and dcap: "dcap_verify ext (evidence raw) col now = Inr (TD10 r, status)"
    and rep: "\<And>q. tdx_quote_parse (evidence raw) = Inr q \<Longrightarrow> dr_report_data r = report_data (q_td_report q)"
  shows "tdx_verify_attestation ext url now order \<lparr>ab_raw = raw, detached_userdata = ud\<rparr>
     = Inr (Verified (qvl_standardized_claims now order (claims_of_report r status)))"
proof -
  from gen sha have raw: "evidence raw = make_mock_quote cfg d (sha256 ext ud)"
    by (auto simp: simulator_generate_quote_def)
  have p: "tdx_quote_parse (evidence raw) = Inr (quote_at (evidence raw))"
    unfolding raw using wf by (rule mock_quote_parses)
  have "dr_report_data r = prefix_filled 64 (sha256 ext ud) (d_report_data d)"
    unfolding rep [OF p] unfolding raw using wf(1,2) by (rule mock_quote_fields(1))
  moreover have "length (d_report_data d) = 64" using wf(1) by (simp add: draws_wf_def)
  ultimately have "32 \<le> length (dr_report_data r)" "take 32 (dr_report_data r) = sha256 ext ud"
    using sha take_prefix_filled [of "sha256 ext ud" 64 "d_report_data d"]
    by (simp_all add: length_prefix_filled)
  moreover have "verify_with_dcap_qvl ext url now (evidence raw) = Inr (claims_of_report r status)"
    unfolding verify_with_dcap_qvl_Inr_iff using col dcap by (auto simp: report_of_def)
  ultimately show ?thesis unfolding tdx_verified_iff by (auto simp: hash_userdata_def)
qed

definition sample_dcap_ext :: "unit att_ext" where
  "sample_dcap_ext = sample_att_ext\<lparr>dcap_verify := (\<lambda>q _ _. case tdx_quote_parse q of
      Inr t \<Rightarrow> Inr (TD10 (sample_report (report_data (q_td_report t))), ''UpToDate'')
    | Inl _ \<Rightarrow> Inl ''invalid quote'')\<rparr>"

theorem simulated_tdx_attestation_verifies_witness:
  "\<exists>raw c. tdx_verify_attestation sample_dcap_ext ''url'' 5 (\<lambda>xs. xs)
     \<lparr>ab_raw = raw, detached_userdata = [1, 2]\<rparr> = Inr (Verified c)"
proof -
  let ?h = "sha256 sample_dcap_ext [1, 2]"
  let ?q = "make_mock_quote simulator_default sample_draws ?h"
  let ?raw = "\<lparr>platform_type = ''tdx'', evidence = ?q, certificates = None\<rparr>"
  have len: "length ?h = 32"
    using digest_sizeD [OF sample_sha_size] by (simp add: sample_dcap_ext_def sample_att_ext_def)
  have p: "tdx_quote_parse ?q = Inr (quote_at ?q)"
    by (rule mock_quote_parses [OF sample_draws_wf]) simp_all
  have "tdx_verify_attestation sample_dcap_ext ''url'' 5 (\<lambda>xs. xs)
     \<lparr>ab_raw = ?raw, detached_userdata = [1, 2]\<rparr> = Inr (Verified (qvl_standardized_claims 5 (\<lambda>xs. xs)
        (claims_of_report (sample_report (report_data (q_td_report (quote_at ?q)))) ''UpToDate'')))"
    by (rule simulated_tdx_attestation_verifies [OF sample_draws_wf, of simulator_default _ _
          "\<lambda>_. ''too large''" _ _ "()"])
      (use p len in \<open>auto simp: simulator_generate_quote_def sample_dcap_ext_def sample_att_ext_def
        sample_report_def\<close>)
  then show ?thesis by blast
qed

theorem stored_secret_attested_witness:
  "\<exists>ev. evidence_from_json sample_att_ext (sample_sha (pad32 [1]) @ pad32 [1]) = Inr ev
     \<and> ne_userdata_hash ev = sha256 sample_att_ext (pad32 [1])"
proof -
  let ?ax = "sample_auth\<lparr>auth_userdata := userdata_from_cbor sample_att_ext\<rparr>"
  let ?ud = "pad32 [1]"
  let ?b = "\<lparr>ab_raw = \<lparr>platform_type = ''null'', evidence = sample_sha ?ud @ ?ud, certificates = None\<rparr>,
      detached_userdata = ?ud\<rparr>"
  let ?env = "\<lparr>er_attestation = ?b, er_operator_signature = None\<rparr>"
  let ?v = "platform_verifier sample_att_ext sample_env (\<lambda>_. 6) sample_gateway (\<lambda>_. ())
      (freshness_config_default False) sample_interface"
  let ?s = "secrets_new (kx_from_secret sample_cx [2])"
  have v: "?v 0 (er_attestation ?env)
      = Inr (create_null_claims (pe_draws sample_env) (hash_userdata sample_att_ext ?ud))"
    unfolding platform_verifier_def env_report.simps
    by (rule null_forged [of _ _ "user_data_new ?ud []" _ "Some []"])
      (simp_all add: sample_att_ext_def hash_userdata_def user_data_new_def check_freshness_def
        freshness_service_new_def freshness_config_default_def digest_sizeD [OF sample_sha_size])
  from sample_seal obtain box where box: "encrypt_secrets_box sample_cx (replicate 12 0)
     (kx_from_secret sample_cx [1]) (x25519_public sample_cx [2])
     [(SecretId (ChainId 1) (replicate 20 1) 5, [42], 0, 7)] = Inr box"
    by (auto simp: sample_secret_def)
  have "put_secrets sample_cx ?ax 5 ?v [(box\<lparr>contained_secret_ids := []\<rparr>, ?env, sample_consumer)] ?s
      = (?s\<lparr>secrets_storage := (secrets_storage ?s)(SecretId (ChainId 1) (replicate 20 1) 5 \<mapsto>
            \<lparr>ss_data = [42], ss_expiry = 0, ss_generation = 7\<rparr>)\<rparr>, True)"
    by (rule put_unlisted(2) [where vfy = ?v, OF sample_cx_correct _ _ box v,
          where u = "user_data_new ?ud []"])
      (simp_all add: secrets_new_def sample_att_ext_def user_data_new_def sample_cx_def sample_crypto_def)
  then have "secrets_storage (fst (put_secrets sample_cx ?ax 5 ?v
        [(box\<lparr>contained_secret_ids := []\<rparr>, ?env, sample_consumer)] ?s))
          (SecretId (ChainId 1) (replicate 20 1) 5)
      \<noteq> secrets_storage ?s (SecretId (ChainId 1) (replicate 20 1) 5)" by (simp add: secrets_new_def)
  from stored_secret_attested [OF _ this] show ?thesis by auto
qed

end
